theory Spec2Isabelle
  imports Complex_Main "HOL-Library.Sublist" "HOL-Library.AList"
begin

chapter \<open>Action orchestration of the Minecraft bot server\<close>

text \<open>
  A shallow embedding of the orchestration core of the server (the file with
  \<^verbatim>\<open>withTask\<close>, \<^verbatim>\<open>getStatus\<close>, \<^verbatim>\<open>craftItems\<close>, \<^verbatim>\<open>smeltItem\<close> and \<^verbatim>\<open>sendToolCall\<close>).
  The fields that the TypeScript hangs dynamically on the bot object (\<^verbatim>\<open>__task\<close>,
  \<^verbatim>\<open>__suspendAutoEatCount\<close>, \<^verbatim>\<open>__lastDamage\<close>, ...) are record fields here; an
  \<^verbatim>\<open>undefined\<close> or \<^verbatim>\<open>null\<close> field is \<open>None\<close>. Time is the value of
  \<^verbatim>\<open>Date.now()\<close> in milliseconds, an \<open>int\<close>; all reads of the clock between two
  \<^verbatim>\<open>await\<close>s return the same value, so each suspension point contributes one
  observation of the clock and of the world to a loop.
\<close>

section \<open>Definitions\<close>

subsection \<open>JavaScript strings and numbers\<close>

text \<open>
  Strings are lists of characters; item, block and entity names are ASCII.
  \<^verbatim>\<open>s.includes(t)\<close>, \<^verbatim>\<open>s.startsWith(t)\<close>, \<^verbatim>\<open>s.endsWith(t)\<close> and \<^verbatim>\<open>s.toLowerCase()\<close>.
\<close>

fun str_includes :: "string \<Rightarrow> string \<Rightarrow> bool" where
  "str_includes [] t = (t = [])"
| "str_includes (c # cs) t = (prefix t (c # cs) \<or> str_includes cs t)"

definition startsWith :: "string \<Rightarrow> string \<Rightarrow> bool" where
  "startsWith s t = prefix t s"

definition endsWith :: "string \<Rightarrow> string \<Rightarrow> bool" where
  "endsWith s t = suffix t s"

definition lower_char :: "char \<Rightarrow> char" where
  "lower_char c =
     (case map_of (zip ''ABCDEFGHIJKLMNOPQRSTUVWXYZ'' ''abcdefghijklmnopqrstuvwxyz'') c of
        Some l \<Rightarrow> l
      | None \<Rightarrow> c)"

definition toLowerCase :: "string \<Rightarrow> string" where
  "toLowerCase s = map lower_char s"

text \<open>\<^verbatim>\<open>Number(x || 0)\<close> and \<^verbatim>\<open>x || 0\<close> on a field that holds a number or is undefined.\<close>

definition num_or_0 :: "int option \<Rightarrow> int" where
  "num_or_0 x = (case x of None \<Rightarrow> 0 | Some v \<Rightarrow> v)"

text \<open>
  A parameter or field that holds a string or is missing: \<open>None\<close> is \<^verbatim>\<open>undefined\<close>.
  A string is truthy when it is not empty. \<^verbatim>\<open>String(x || d)\<close> is \<open>str_or x d\<close>,
  \<^verbatim>\<open>x ? String(x) : undefined\<close> is \<open>str_opt x\<close>, and \<^verbatim>\<open>Number(x ?? 1)\<close> on a numeric
  parameter is \<open>num_or_1 x\<close>.
\<close>

definition truthy_str :: "string option \<Rightarrow> bool" where
  "truthy_str u = (case u of None \<Rightarrow> False | Some s \<Rightarrow> s \<noteq> [])"

definition str_or :: "string option \<Rightarrow> string \<Rightarrow> string" where
  "str_or x d = (if truthy_str x then the x else d)"

definition str_opt :: "string option \<Rightarrow> string option" where
  "str_opt x = (if truthy_str x then x else None)"

definition num_or_1 :: "int option \<Rightarrow> int" where
  "num_or_1 x = (case x of None \<Rightarrow> 1 | Some v \<Rightarrow> v)"

text \<open>A thrown \<^verbatim>\<open>Error\<close> with its message; \<open>quote\<close> is the apostrophe of the messages.\<close>

datatype js_error = Error string

definition quote :: char where
  "quote = CHR 0x27"


subsection \<open>Single-flight task guard: \<^verbatim>\<open>getTask\<close>, \<^verbatim>\<open>withTask\<close>\<close>

text \<open>
  \<^verbatim>\<open>bot.__task = { running, abort }\<close>. The abort closure installed by an invocation is
  identified by the number of that invocation; \<^verbatim>\<open>null\<close> is \<open>None\<close>.
\<close>

record task =
  running :: bool
  abort :: "nat option"

datatype task_error = another_task_running

text \<open>How the guarded action \<^verbatim>\<open>fn\<close> ends: its promise resolves or rejects. A cancelled
  action (its abort closure was called by \<^verbatim>\<open>stopAllTasks\<close>) ends in one of the two ways.\<close>

datatype 'a outcome = Returned 'a | Threw string

definition getTask :: "task option \<Rightarrow> task" where
  "getTask t = (case t of None \<Rightarrow> \<lparr>running = False, abort = None\<rparr> | Some x \<Rightarrow> x)"

text \<open>The code of \<^verbatim>\<open>withTask\<close> before the \<^verbatim>\<open>try\<close>: the check, the flag and the handle.\<close>

definition withTask_enter :: "nat \<Rightarrow> task \<Rightarrow> task_error + task" where
  "withTask_enter h t =
     (if running t then Inl another_task_running
      else Inr (t\<lparr>running := True, abort := Some h\<rparr>))"

text \<open>The \<^verbatim>\<open>finally\<close> block.\<close>

definition withTask_exit :: "task \<Rightarrow> task" where
  "withTask_exit t = t\<lparr>running := False, abort := None\<rparr>"

text \<open>
  The whole call when nothing else runs in between. The action receives the task state
  (it may start other tool calls or cancel itself while it is suspended) and returns its
  outcome with the task state it leaves.
\<close>

definition withTask ::
  "nat \<Rightarrow> task option \<Rightarrow> (task \<Rightarrow> 'a outcome \<times> task) \<Rightarrow> (task_error + 'a outcome) \<times> task"
where
  "withTask h bt fn =
     (let t = getTask bt in
      case withTask_enter h t of
        Inl e \<Rightarrow> (Inl e, t)
      | Inr t1 \<Rightarrow> (case fn t1 of (r, t2) \<Rightarrow> (Inr r, withTask_exit t2)))"

text \<open>
  A tool whose action does not touch the task state: \<open>body\<close> is how the action settles,
  \<open>None\<close> when it has not settled within the observations given. The rejection of the
  guard does not wait for the action.
\<close>

definition withTask_await ::
  "nat \<Rightarrow> task option \<Rightarrow> 'a outcome option \<Rightarrow> ((task_error + 'a outcome) \<times> task) option"
where
  "withTask_await h bt body =
     (let t = getTask bt in
      case withTask_enter h t of
        Inl e \<Rightarrow> Some (Inl e, t)
      | Inr t1 \<Rightarrow> (case body of None \<Rightarrow> None | Some r \<Rightarrow> Some (Inr r, withTask_exit t1)))"

text \<open>
  Interleaved invocations on one bot. The runtime is single-threaded: an invocation runs
  from its call to its first \<^verbatim>\<open>await\<close> without interruption, so the schedule of a bot
  is a sequence of events: a tool call reaches \<^verbatim>\<open>withTask\<close> (\<open>Invoke\<close>), the action
  of the invocation with a given number settles (\<open>Settle\<close>), or \<^verbatim>\<open>stopAllTasks\<close> calls
  the abort closure (\<open>Cancel\<close>). Invocations are numbered in the order of their calls.
\<close>

datatype sched_event = Invoke | Settle nat "unit outcome" | Cancel

record sched =
  tsk :: task
  next_id :: nat
  in_body :: "nat list"
  rejected :: "nat list"
  settled :: "(nat \<times> unit outcome) list"
  aborted :: "nat list"

definition sched_init :: sched where
  "sched_init = \<lparr>tsk = getTask None, next_id = 0, in_body = [], rejected = [],
                 settled = [], aborted = []\<rparr>"

fun sched_step :: "sched \<Rightarrow> sched_event \<Rightarrow> sched" where
  "sched_step s Invoke =
     (case withTask_enter (next_id s) (tsk s) of
        Inl e \<Rightarrow> s\<lparr>next_id := Suc (next_id s), rejected := rejected s @ [next_id s]\<rparr>
      | Inr t1 \<Rightarrow> s\<lparr>tsk := t1, next_id := Suc (next_id s), in_body := in_body s @ [next_id s]\<rparr>)"
| "sched_step s (Settle i r) =
     (if i \<in> set (in_body s)
      then s\<lparr>tsk := withTask_exit (tsk s), in_body := removeAll i (in_body s),
             settled := settled s @ [(i, r)]\<rparr>
      else s)"
| "sched_step s Cancel =
     (case abort (tsk s) of None \<Rightarrow> s | Some h \<Rightarrow> s\<lparr>aborted := aborted s @ [h]\<rparr>)"

definition sched_run :: "sched_event list \<Rightarrow> sched" where
  "sched_run evs = foldl sched_step sched_init evs"

text \<open>The invariant of the guard: the flag is set exactly while one action body is open.\<close>

definition guard_inv :: "sched \<Rightarrow> bool" where
  "guard_inv s =
     (length (in_body s) \<le> 1 \<and> running (tsk s) = (in_body s \<noteq> []) \<and>
      (in_body s = [] \<longrightarrow> abort (tsk s) = None) \<and>
      (\<forall>i \<in> set (in_body s). i < next_id s \<and> abort (tsk s) = Some i))"

subsection \<open>Bot registry: \<^verbatim>\<open>bots\<close>, \<^verbatim>\<open>getBotOrThrow\<close>\<close>

text \<open>
  \<^verbatim>\<open>const bots = new Map<string, Bot>()\<close>: a JavaScript \<^verbatim>\<open>Map\<close> iterates in insertion
  order, so the registry is an association list with distinct keys; \<^verbatim>\<open>set\<close> on a new
  key appends, on an old key it replaces in place, \<^verbatim>\<open>delete\<close> removes.
\<close>

type_synonym 'b registry = "(string \<times> 'b) list"

definition bots_has :: "'b registry \<Rightarrow> string \<Rightarrow> bool" where
  "bots_has bots k = (map_of bots k \<noteq> None)"

definition bots_get :: "'b registry \<Rightarrow> string \<Rightarrow> 'b option" where
  "bots_get bots k = map_of bots k"

definition bots_set :: "string \<Rightarrow> 'b \<Rightarrow> 'b registry \<Rightarrow> 'b registry" where
  "bots_set k v bots = AList.update k v bots"

definition bots_delete :: "string \<Rightarrow> 'b registry \<Rightarrow> 'b registry" where
  "bots_delete k bots = AList.delete k bots"

definition bots_values :: "'b registry \<Rightarrow> 'b list" where
  "bots_values bots = map snd bots"

text \<open>
  \<^verbatim>\<open>username?: string\<close>: \<open>None\<close> is \<^verbatim>\<open>undefined\<close>. A string is truthy when it is not
  empty. The two guarded \<^verbatim>\<open>if\<close>s and the destructuring \<^verbatim>\<open>const [first] = bots.values()\<close>.
\<close>

definition getBotOrThrow :: "string option \<Rightarrow> 'b registry \<Rightarrow> js_error + 'b" where
  "getBotOrThrow username bots =
     (if truthy_str username \<and> bots_has bots (the username)
      then Inr (the (bots_get bots (the username)))
      else if truthy_str username \<and> \<not> bots_has bots (the username)
      then Inl (Error (''Bot '' @ [quote] @ the username @ [quote] @ '' not found''))
      else (case bots_values bots of
              [] \<Rightarrow> Inl (Error ''No active bots. Use joinGame first.'')
            | first # _ \<Rightarrow> Inr first))"

text \<open>
  The registry part of \<^verbatim>\<open>joinGame\<close>, of the bot's \<^verbatim>\<open>end\<close> handler and of
  \<^verbatim>\<open>leaveGame\<close>. A bot carries its \<^verbatim>\<open>username\<close> and the number of the join that
  created it, so that a smaller number is an earlier join.
\<close>

record bot_ref =
  bot_username :: string
  joined :: nat

datatype reg_event = Join string | End_of string bot_ref | Leave "string option" | LeaveAll

record reg_state =
  reg :: "bot_ref registry"
  joins :: nat

definition reg_init :: reg_state where
  "reg_init = \<lparr>reg = [], joins = 0\<rparr>"

fun reg_step :: "reg_state \<Rightarrow> reg_event \<Rightarrow> reg_state" where
  "reg_step s (Join username) =
     (if bots_has (reg s) username then s
      else s\<lparr>reg := bots_set username \<lparr>bot_username = username, joined = joins s\<rparr> (reg s),
             joins := Suc (joins s)\<rparr>)"
| "reg_step s (End_of username b) =
     (if bots_get (reg s) username = Some b then s\<lparr>reg := bots_delete username (reg s)\<rparr> else s)"
| "reg_step s (Leave username) =
     (case getBotOrThrow username (reg s) of
        Inl e \<Rightarrow> s
      | Inr b \<Rightarrow> s\<lparr>reg := bots_delete (bot_username b) (reg s)\<rparr>)"
| "reg_step s LeaveAll = s\<lparr>reg := []\<rparr>"

definition reg_run :: "reg_event list \<Rightarrow> reg_state" where
  "reg_run evs = foldl reg_step reg_init evs"

text \<open>The invariant of the registry: keys are the bots' names, and the order is the order of the joins.\<close>

definition reg_inv :: "reg_state \<Rightarrow> bool" where
  "reg_inv s =
     (distinct (map fst (reg s)) \<and>
      (\<forall>(k, b) \<in> set (reg s). bot_username b = k \<and> joined b < joins s) \<and>
      sorted_wrt (<) (map (\<lambda>(k, b). joined b) (reg s)))"

text \<open>A bot that was created by an earlier join and is not registered (any more).\<close>

definition gone :: "bot_ref \<Rightarrow> reg_state \<Rightarrow> bool" where
  "gone c s = (reg_inv s \<and> joined c < joins s \<and> c \<notin> snd ` set (reg s))"

subsection \<open>Reference-counted suspension of auto-eat: \<^verbatim>\<open>pushSuspendAutoEat\<close>, \<^verbatim>\<open>popSuspendAutoEat\<close>\<close>

text \<open>
  \<^verbatim>\<open>bot.__suspendAutoEatCount\<close> (undefined until the first call) and
  \<^verbatim>\<open>bot.__suspendAutoEat\<close>, which the auto-eat interval only tests for truth, so
  undefined is \<open>False\<close>.
\<close>

record suspend_state =
  suspendAutoEatCount :: "int option"
  suspendAutoEat :: bool

definition suspend_init :: suspend_state where
  "suspend_init = \<lparr>suspendAutoEatCount = None, suspendAutoEat = False\<rparr>"

definition pushSuspendAutoEat :: "suspend_state \<Rightarrow> suspend_state" where
  "pushSuspendAutoEat s =
     (let c = num_or_0 (suspendAutoEatCount s)
      in s\<lparr>suspendAutoEatCount := Some (c + 1), suspendAutoEat := True\<rparr>)"

definition popSuspendAutoEat :: "suspend_state \<Rightarrow> suspend_state" where
  "popSuspendAutoEat s =
     (let c = num_or_0 (suspendAutoEatCount s);
          n = max 0 (c - 1)
      in s\<lparr>suspendAutoEatCount := Some n, suspendAutoEat := (n > 0)\<rparr>)"

datatype suspend_call = Push | Pop

fun suspend_step :: "suspend_state \<Rightarrow> suspend_call \<Rightarrow> suspend_state" where
  "suspend_step s Push = pushSuspendAutoEat s"
| "suspend_step s Pop = popSuspendAutoEat s"

definition suspend_run :: "suspend_call list \<Rightarrow> suspend_state" where
  "suspend_run calls = foldl suspend_step suspend_init calls"

subsection \<open>Equip operations\<close>

text \<open>
  The bot as the equip helpers see it: the suspension state, the names of the items of
  \<^verbatim>\<open>bot.inventory.items()\<close> in order, and a log of the calls of \<^verbatim>\<open>bot.equip\<close>: the
  item, the destination, and the value of \<^verbatim>\<open>__suspendAutoEat\<close> at the moment of the
  call, which is what the auto-eat interval reads if it fires while the equip is awaited.
  Whether the awaited \<^verbatim>\<open>bot.equip\<close> resolves or rejects is given by the world.
\<close>

record equip_bot =
  susp :: suspend_state
  inventory_names :: "string list"
  equip_calls :: "(string \<times> string \<times> bool) list"

definition bot_equip :: "string \<Rightarrow> string \<Rightarrow> equip_bot \<Rightarrow> equip_bot" where
  "bot_equip item destination b =
     b\<lparr>equip_calls := equip_calls b @ [(item, destination, suspendAutoEat (susp b))]\<rparr>"

definition hasArrows :: "equip_bot \<Rightarrow> bool" where
  "hasArrows b = list_ex (\<lambda>n. str_includes n ''arrow'') (inventory_names b)"

text \<open>
  \<^verbatim>\<open>equipBowIfAvailable\<close>: the equip is between a push and a pop in a \<^verbatim>\<open>finally\<close>.
  A rejected equip is \<open>Inl\<close>, after the pop.
\<close>

definition equipBowIfAvailable :: "bool \<Rightarrow> equip_bot \<Rightarrow> (js_error + bool) \<times> equip_bot" where
  "equipBowIfAvailable equip_resolves b =
     (case find (\<lambda>n. n = ''bow'') (inventory_names b) of
        Some bow \<Rightarrow>
          if hasArrows b then
            (let b1 = b\<lparr>susp := pushSuspendAutoEat (susp b)\<rparr>;
                 b2 = bot_equip bow ''hand'' b1;
                 b3 = b2\<lparr>susp := popSuspendAutoEat (susp b2)\<rparr>
             in (if equip_resolves then Inr True else Inl (Error ''equip failed''), b3))
          else (Inr False, b)
      | None \<Rightarrow> (Inr False, b))"

text \<open>
  \<^verbatim>\<open>equipBestMeleeWeapon\<close>: the first name of the preference list that the inventory
  holds is equipped, by a bare \<^verbatim>\<open>await bot.equip(it, 'hand')\<close>.
\<close>

definition melee_preference :: "string list" where
  "melee_preference =
     [''netherite_sword'', ''diamond_sword'', ''iron_sword'', ''stone_sword'', ''golden_sword'',
      ''wooden_sword'', ''netherite_axe'', ''diamond_axe'', ''iron_axe'', ''stone_axe'',
      ''golden_axe'', ''wooden_axe'']"

fun equipBestMeleeWeapon_loop ::
  "string list \<Rightarrow> bool \<Rightarrow> equip_bot \<Rightarrow> (js_error + bool) \<times> equip_bot" where
  "equipBestMeleeWeapon_loop [] equip_resolves b = (Inr False, b)"
| "equipBestMeleeWeapon_loop (name # names) equip_resolves b =
     (case find (\<lambda>n. n = name) (inventory_names b) of
        Some it \<Rightarrow>
          (if equip_resolves then Inr True else Inl (Error ''equip failed''),
           bot_equip it ''hand'' b)
      | None \<Rightarrow> equipBestMeleeWeapon_loop names equip_resolves b)"

definition equipBestMeleeWeapon :: "bool \<Rightarrow> equip_bot \<Rightarrow> (js_error + bool) \<times> equip_bot" where
  "equipBestMeleeWeapon equip_resolves b =
     equipBestMeleeWeapon_loop melee_preference equip_resolves b"

text \<open>
  \<^verbatim>\<open>equipItem\<close> (the tool): the item is looked up by name; the equip is between a
  push and a pop in a \<^verbatim>\<open>finally\<close>. The durability read after it changes nothing here.
\<close>

definition equipItem ::
  "string \<Rightarrow> string option \<Rightarrow> bool \<Rightarrow> equip_bot \<Rightarrow> (js_error + string) \<times> equip_bot" where
  "equipItem itemName destination equip_resolves b =
     (let dest = (case destination of None \<Rightarrow> ''hand'' | Some d \<Rightarrow> if d = [] then ''hand'' else d)
      in case find (\<lambda>n. n = itemName) (inventory_names b) of
        None \<Rightarrow>
          (Inl (Error (''Item '' @ [quote] @ itemName @ [quote] @ '' not found in inventory'')), b)
      | Some item \<Rightarrow>
          (let b1 = b\<lparr>susp := pushSuspendAutoEat (susp b)\<rparr>;
               b2 = bot_equip item dest b1;
               b3 = b2\<lparr>susp := popSuspendAutoEat (susp b2)\<rparr>
           in (if equip_resolves then Inr dest else Inl (Error ''equip failed''), b3)))"

text \<open>
  The weapon choice of the \<^verbatim>\<open>entityHurt\<close> handler, of \<^verbatim>\<open>hunt\<close> and of
  \<^verbatim>\<open>attackSomeone\<close>:
  \<^verbatim>\<open>if (!(await equipBowIfAvailable(bot)) || dist <= 8) await equipBestMeleeWeapon(bot)\<close>.
  A rejection of either equip ends the choice.
\<close>

definition equip_for_fight :: "bool \<Rightarrow> bool \<Rightarrow> bool \<Rightarrow> equip_bot \<Rightarrow> (js_error + unit) \<times> equip_bot" where
  "equip_for_fight dist_le_8 bow_resolves melee_resolves b =
     (case equipBowIfAvailable bow_resolves b of
        (Inl e, b1) \<Rightarrow> (Inl e, b1)
      | (Inr got_bow, b1) \<Rightarrow>
          if \<not> got_bow \<or> dist_le_8 then
            (case equipBestMeleeWeapon melee_resolves b1 of
               (Inl e, b2) \<Rightarrow> (Inl e, b2)
             | (Inr _, b2) \<Rightarrow> (Inr (), b2))
          else (Inr (), b1))"

text \<open>The suspension state is consistent: the count is not negative and the flag says
  whether it is positive.\<close>

definition suspend_ok :: "suspend_state \<Rightarrow> bool" where
  "suspend_ok s =
     (0 \<le> num_or_0 (suspendAutoEatCount s) \<and>
      suspendAutoEat s = (0 < num_or_0 (suspendAutoEatCount s)))"

text \<open>The entries that a call added to the log of \<^verbatim>\<open>bot.equip\<close> calls.\<close>

definition new_equips :: "equip_bot \<Rightarrow> equip_bot \<Rightarrow> (string \<times> string \<times> bool) list" where
  "new_equips b b' = drop (length (equip_calls b)) (equip_calls b')"

subsection \<open>Status reporter: \<^verbatim>\<open>getStatus\<close>, \<^verbatim>\<open>sendToolCall\<close>\<close>

text \<open>
  The one-shot event slots and live counters of a bot. The payload of a slot is the
  object the event handler stored; an empty slot (\<^verbatim>\<open>null\<close> or \<^verbatim>\<open>undefined\<close>) is \<open>None\<close>.
\<close>

record damage_info =
  dmg_from :: string
  dmg_time :: int

record broken_info =
  brk_slot :: int
  brk_itemName :: string
  brk_time :: int

record defense_info =
  def_target :: string
  def_time :: int

record death_info =
  death_time :: int
  death_cause :: string

record hunger_info =
  hw_needed :: int
  hw_current :: int
  hw_time :: int

record effect_info =
  eff_id :: int
  eff_amplifier :: int
  eff_duration :: int

record status_bot =
  health :: real
  food :: real
  lastDamage :: "damage_info option"
  lastBroken :: "broken_info option"
  lastDefense :: "defense_info option"
  lastDeath :: "death_info option"
  lastHungerWarning :: "hunger_info option"
  effects :: "effect_info list"

text \<open>
  The object \<^verbatim>\<open>getStatus\<close> returns. Its \<^verbatim>\<open>env\<close> part (position, time of day, biome,
  area) is read from the world and touches no slot; it is the value \<open>env\<close> here.
\<close>

record 'e status =
  st_health :: real
  st_food :: real
  st_lastDamage :: "damage_info option"
  st_lastBroken :: "broken_info option"
  st_lastDefense :: "defense_info option"
  st_lastDeath :: "death_info option"
  st_lastHungerWarning :: "hunger_info option"
  st_effects :: "effect_info list"
  st_env :: 'e

text \<open>\<^verbatim>\<open>getStatus\<close> reads the five slots, sets the five slots to \<^verbatim>\<open>null\<close>, and returns
  what it read.\<close>

definition getStatus :: "'e \<Rightarrow> status_bot \<Rightarrow> 'e status \<times> status_bot" where
  "getStatus env b =
     (let last = lastDamage b;
          lastBroken' = lastBroken b;
          lastDefense' = lastDefense b;
          lastDeath' = lastDeath b;
          lastHungerWarning' = lastHungerWarning b;
          b' = b\<lparr>lastBroken := None, lastDamage := None, lastDefense := None,
                 lastDeath := None, lastHungerWarning := None\<rparr>
      in (\<lparr>st_health = health b, st_food = food b, st_lastDamage = last,
           st_lastBroken = lastBroken', st_lastDefense = lastDefense',
           st_lastDeath = lastDeath', st_lastHungerWarning = lastHungerWarning',
           st_effects = effects b, st_env = env\<rparr>, b'))"

text \<open>The \<^verbatim>\<open>entityHurt\<close> handler stores the damage event (its first statement).\<close>

definition on_entityHurt :: "damage_info \<Rightarrow> status_bot \<Rightarrow> status_bot" where
  "on_entityHurt d b = b\<lparr>lastDamage := Some d\<rparr>"

text \<open>
  \<^verbatim>\<open>sendToolCall\<close>. The bot is looked up by \<^verbatim>\<open>args.username\<close> in the registry,
  \<^verbatim>\<open>statusBefore = getStatus(b)\<close> is taken, the tool runs, \<^verbatim>\<open>after = getStatus(b)\<close> is
  taken, and the response carries the action's result, \<^verbatim>\<open>status: after\<close> and the delta.
  The tool is a function of the registry (it may change bots, and events may arrive while
  it is awaited) that resolves (\<open>Inr\<close>) or rejects (\<open>Inl\<close>); \<open>None\<close> is a tool name the
  \<^verbatim>\<open>switch\<close> does not know. A rejection is answered by \<^verbatim>\<open>{ ok: false, error }\<close>
  with no status. \<^verbatim>\<open>getStatus\<close> does not throw here, so the \<^verbatim>\<open>catch\<close> around the
  second snapshot is not entered.
\<close>

record delta =
  healthDelta :: real
  foodDelta :: real
  delta_lastDamage :: "damage_info option"

datatype ('r, 'e) response =
    Reply "'r option" "string option" "'e status option" "delta option"
  | Unknown_tool
  | Failed string

definition registry_apply :: "string \<Rightarrow> ('b \<Rightarrow> 'a \<times> 'b) \<Rightarrow> 'b registry \<Rightarrow> 'a option \<times> 'b registry" where
  "registry_apply k f bots =
     (case bots_get bots k of
        None \<Rightarrow> (None, bots)
      | Some b \<Rightarrow> (case f b of (a, b') \<Rightarrow> (Some a, bots_set k b' bots)))"

definition sendToolCall ::
  "'e \<Rightarrow> string option \<Rightarrow>
   (status_bot registry \<Rightarrow> (js_error + 'r option) \<times> status_bot registry) option \<Rightarrow>
   status_bot registry \<Rightarrow> ('r, 'e) response \<times> status_bot registry" where
  "sendToolCall env username tool bots =
     (let botName = (case username of None \<Rightarrow> [] | Some u \<Rightarrow> u);
          (statusBefore, bots1) =
             (if botName \<noteq> [] then registry_apply botName (getStatus env) bots else (None, bots))
      in case tool of
           None \<Rightarrow> (Unknown_tool, bots1)
         | Some run \<Rightarrow>
             (case run bots1 of
                (Inl (Error msg), bots2) \<Rightarrow> (Failed msg, bots2)
              | (Inr action, bots2) \<Rightarrow>
                  (let (after, bots3) =
                         (if botName \<noteq> [] then registry_apply botName (getStatus env) bots2
                          else (None, bots2));
                       d = (case (after, statusBefore) of
                              (Some a, Some sb) \<Rightarrow>
                                Some \<lparr>healthDelta = st_health a - st_health sb,
                                      foodDelta = st_food a - st_food sb,
                                      delta_lastDamage = st_lastDamage a\<rparr>
                            | _ \<Rightarrow> None)
                   in (Reply action (if botName \<noteq> [] then Some botName else None) after d,
                       bots3))))"

text \<open>The one-shot events a response shows to its caller.\<close>

definition shown_damage :: "('r, 'e) response \<Rightarrow> damage_info option" where
  "shown_damage r =
     (case r of Reply a n (Some st) d \<Rightarrow> st_lastDamage st | _ \<Rightarrow> None)"

subsection \<open>Auto-shield: the projectile scan and the damage handler\<close>

text \<open>
  \<^verbatim>\<open>bot.__autoShield = { enabled, durationMs }\<close>, \<^verbatim>\<open>bot.__shieldLastRaised\<close>, and a log
  of the calls of \<^verbatim>\<open>raiseShieldFor\<close>: what triggered the call, the time, the duration.
\<close>

datatype shield_trigger = Scan | Hurt

record shield_bot =
  autoShield_enabled :: bool
  autoShield_durationMs :: "int option"
  shieldLastRaised :: "int option"
  raises :: "(shield_trigger \<times> int \<times> int) list"

text \<open>An entity of \<^verbatim>\<open>bot.entities\<close>: its name (\<^verbatim>\<open>e.name || e.displayName || ''\<close>) and,
  when it has a position, its distance to the bot.\<close>

record entity =
  ent_name :: string
  ent_distance :: "real option"

definition shield_init :: shield_bot where
  "shield_init = \<lparr>autoShield_enabled = True, autoShield_durationMs = Some 800,
                  shieldLastRaised = None, raises = []\<rparr>"

definition shield_duration :: "shield_bot \<Rightarrow> int" where
  "shield_duration b = (case autoShield_durationMs b of None \<Rightarrow> 800 | Some d \<Rightarrow> d)"

definition isProj :: "string \<Rightarrow> bool" where
  "isProj n =
     (str_includes n ''arrow'' \<or> str_includes n ''trident'' \<or> str_includes n ''snowball'' \<or>
      str_includes n ''fireball'' \<or> str_includes n ''projectile'')"

definition projectile_near :: "entity list \<Rightarrow> bool" where
  "projectile_near es =
     list_ex (\<lambda>e. case ent_distance e of
                     None \<Rightarrow> False
                   | Some d \<Rightarrow> isProj (toLowerCase (ent_name e)) \<and> d \<le> 6) es"

text \<open>One run of the callback of \<^verbatim>\<open>setInterval(..., 400)\<close> at time \<open>now\<close>.\<close>

definition shieldScanIntervalMs :: int where
  "shieldScanIntervalMs = 400"

definition shield_scan :: "int \<Rightarrow> entity list \<Rightarrow> shield_bot \<Rightarrow> shield_bot" where
  "shield_scan now es b =
     (if \<not> autoShield_enabled b then b
      else let last = num_or_0 (shieldLastRaised b)
           in if now - last < 600 then b
              else if projectile_near es
                   then b\<lparr>shieldLastRaised := Some now,
                          raises := raises b @ [(Scan, now, shield_duration b)]\<rparr>
                   else b)"

text \<open>The auto-shield part of the \<^verbatim>\<open>entityHurt\<close> handler, for damage to the bot itself.\<close>

definition hurt_autoshield :: "int \<Rightarrow> shield_bot \<Rightarrow> shield_bot" where
  "hurt_autoshield now b =
     (if autoShield_enabled b
      then b\<lparr>raises := raises b @ [(Hurt, now, shield_duration b)]\<rparr>
      else b)"

text \<open>The \<^verbatim>\<open>autoShield\<close> configuration call replaces \<^verbatim>\<open>__autoShield\<close>.\<close>

definition autoShield_configure :: "bool \<Rightarrow> int \<Rightarrow> shield_bot \<Rightarrow> shield_bot" where
  "autoShield_configure enable durationMs b =
     b\<lparr>autoShield_enabled := enable, autoShield_durationMs := Some durationMs\<rparr>"

datatype shield_event = ScanTick int "entity list" | HurtEvent int | Configure bool int

fun shield_step :: "shield_bot \<Rightarrow> shield_event \<Rightarrow> shield_bot" where
  "shield_step b (ScanTick now es) = shield_scan now es b"
| "shield_step b (HurtEvent now) = hurt_autoshield now b"
| "shield_step b (Configure enable durationMs) = autoShield_configure enable durationMs b"

definition shield_run :: "shield_event list \<Rightarrow> shield_bot" where
  "shield_run evs = foldl shield_step shield_init evs"

text \<open>The times of the raises a trigger kind made, and of all raises; a list of times is
  spaced when each is at least 600 ms after every earlier one.\<close>

definition raise_times :: "shield_trigger \<Rightarrow> shield_bot \<Rightarrow> int list" where
  "raise_times tr b = map (\<lambda>(k, t, d). t) (filter (\<lambda>(k, t, d). k = tr) (raises b))"

definition all_raise_times :: "shield_bot \<Rightarrow> int list" where
  "all_raise_times b = map (\<lambda>(k, t, d). t) (raises b)"

definition spaced600 :: "int list \<Rightarrow> bool" where
  "spaced600 ts = sorted_wrt (\<lambda>a c. a + 600 \<le> c) ts"

text \<open>The invariant of the scan's rate limit: the scan's raises are spaced, and none is
  later than \<^verbatim>\<open>__shieldLastRaised\<close>.\<close>

definition shield_inv :: "shield_bot \<Rightarrow> bool" where
  "shield_inv b =
     (spaced600 (raise_times Scan b) \<and>
      (\<forall>t \<in> set (raise_times Scan b). t \<le> num_or_0 (shieldLastRaised b)))"

subsection \<open>Progress watchdog of navigation: \<^verbatim>\<open>pathfindToPredicate\<close>, \<^verbatim>\<open>goToKnownLocation\<close>\<close>

text \<open>
  Both functions set a pathfinder goal and poll. Each pass of the loop observes the clock
  and the distance to the target once (the body runs without suspension up to
  \<^verbatim>\<open>await bot.waitForTicks(5)\<close>); the observations of a run are a list, the first one
  taken at \<^verbatim>\<open>start\<close>. Distances are real numbers; \<^verbatim>\<open>best = Infinity\<close> is \<open>None\<close>.
  A run whose observations end before the loop does has no result (\<open>None\<close>).
\<close>

datatype nav_error = Target_not_found_nearby | navigation_stalled | navigation_timeout

record nav_obs =
  obs_now :: int
  obs_dist :: real

record nav_state =
  lastProgressAt :: int
  best :: "real option"

definition idleMs :: int where
  "idleMs = 15000"

text \<open>\<^verbatim>\<open>dist + 0.25 < best\<close>\<close>

definition improves :: "real \<Rightarrow> real option \<Rightarrow> bool" where
  "improves d b = (case b of None \<Rightarrow> True | Some v \<Rightarrow> d + 0.25 < v)"

text \<open>\<^verbatim>\<open>dist <= Math.max(1, range) + 0.5\<close>\<close>

definition close_enough :: "real \<Rightarrow> real \<Rightarrow> bool" where
  "close_enough rng d = (d \<le> max 1 rng + 0.5)"

text \<open>\<^verbatim>\<open>if (dist + 0.25 < best) { best = dist; lastProgressAt = Date.now(); }\<close>\<close>

definition watch :: "nav_obs \<Rightarrow> nav_state \<Rightarrow> nav_state" where
  "watch ob s =
     (if improves (obs_dist ob) (best s)
      then s\<lparr>best := Some (obs_dist ob), lastProgressAt := obs_now ob\<rparr>
      else s)"

text \<open>The check after the loop of \<^verbatim>\<open>pathfindToPredicate\<close>.\<close>

definition pathfind_after :: "int \<Rightarrow> int \<Rightarrow> int \<Rightarrow> nav_error + unit" where
  "pathfind_after start timeoutMs now =
     (if now - start \<ge> timeoutMs then Inl navigation_timeout else Inr ())"

fun pathfind_wait ::
  "int \<Rightarrow> real \<Rightarrow> int \<Rightarrow> nav_state \<Rightarrow> nav_obs list \<Rightarrow> (nav_error + unit) option" where
  "pathfind_wait start rng timeoutMs s [] = None"
| "pathfind_wait start rng timeoutMs s (ob # obs) =
     (if obs_now ob - start < timeoutMs then
        if close_enough rng (obs_dist ob)
        then Some (pathfind_after start timeoutMs (obs_now ob))
        else let s' = watch ob s
             in if obs_now ob - lastProgressAt s' > idleMs
                then Some (Inl navigation_stalled)
                else pathfind_wait start rng timeoutMs s' obs
      else Some (pathfind_after start timeoutMs (obs_now ob)))"

text \<open>
  \<^verbatim>\<open>pathfindToPredicate(bot, predicate, maxDistance, range = 1, timeoutMs = 45000)\<close>;
  \<open>found\<close> says whether \<^verbatim>\<open>bot.findBlock\<close> found a block. \<open>Inr ()\<close> is the return of
  the block.
\<close>

definition pathfindToPredicate ::
  "bool \<Rightarrow> real \<Rightarrow> int \<Rightarrow> nav_obs list \<Rightarrow> (nav_error + unit) option" where
  "pathfindToPredicate found rng timeoutMs obs =
     (if \<not> found then Some (Inl Target_not_found_nearby)
      else case obs of
             [] \<Rightarrow> None
           | ob0 # _ \<Rightarrow>
               pathfind_wait (obs_now ob0) rng timeoutMs
                 \<lparr>lastProgressAt = obs_now ob0, best = None\<rparr> obs)"

text \<open>
  \<^verbatim>\<open>goToKnownLocation\<close>: the same loop, but a stall only leaves the loop
  (\<^verbatim>\<open>break; // stalled\<close>), and the result is
  \<^verbatim>\<open>{ ok: arrived, arrived, distance: dist, timedOut: !arrived }\<close>; the distance is read
  again right after the loop.
\<close>

record goto_result =
  ok :: bool
  arrived :: bool
  distance :: real
  timedOut :: bool

fun goTo_wait :: "int \<Rightarrow> real \<Rightarrow> int \<Rightarrow> nav_state \<Rightarrow> nav_obs list \<Rightarrow> (bool \<times> real) option" where
  "goTo_wait start rng maxMs s [] = None"
| "goTo_wait start rng maxMs s (ob # obs) =
     (if obs_now ob - start < maxMs then
        if close_enough rng (obs_dist ob) then Some (True, obs_dist ob)
        else let s' = watch ob s
             in if obs_now ob - lastProgressAt s' > 15000
                then Some (False, obs_dist ob)
                else goTo_wait start rng maxMs s' obs
      else Some (False, obs_dist ob))"

definition goToKnownLocation :: "real option \<Rightarrow> int option \<Rightarrow> nav_obs list \<Rightarrow> goto_result option" where
  "goToKnownLocation range_param maxMs_param obs =
     (let rng = (case range_param of None \<Rightarrow> 1 | Some r \<Rightarrow> if r = 0 then 1 else r);
          maxMs = (case maxMs_param of None \<Rightarrow> 60000 | Some m \<Rightarrow> m)
      in case obs of
           [] \<Rightarrow> None
         | ob0 # _ \<Rightarrow>
             (case goTo_wait (obs_now ob0) rng maxMs
                     \<lparr>lastProgressAt = obs_now ob0, best = None\<rparr> obs of
                None \<Rightarrow> None
              | Some (arr, d) \<Rightarrow>
                  Some \<lparr>ok = arr, arrived = arr, distance = d, timedOut = \<not> arr\<rparr>))"

text \<open>
  A pass of the loop that goes on to the next one: the deadline has not passed, the
  target is not reached and the idle window is not exceeded. A prefix of observations is
  quiet when every pass over it goes on.
\<close>

definition goes_on :: "int \<Rightarrow> real \<Rightarrow> int \<Rightarrow> nav_state \<Rightarrow> nav_obs \<Rightarrow> bool" where
  "goes_on start rng timeoutMs s ob =
     (obs_now ob - start < timeoutMs \<and> \<not> close_enough rng (obs_dist ob) \<and>
      \<not> obs_now ob - lastProgressAt (watch ob s) > 15000)"

fun quiet :: "int \<Rightarrow> real \<Rightarrow> int \<Rightarrow> nav_state \<Rightarrow> nav_obs list \<Rightarrow> bool" where
  "quiet start rng timeoutMs s [] = True"
| "quiet start rng timeoutMs s (ob # obs) =
     (goes_on start rng timeoutMs s ob \<and> quiet start rng timeoutMs (watch ob s) obs)"

definition watched :: "nav_state \<Rightarrow> nav_obs list \<Rightarrow> nav_state" where
  "watched s obs = foldl (\<lambda>s ob. watch ob s) s obs"

subsection \<open>Crafting planner: \<^verbatim>\<open>computeMaxCraftable\<close>, \<^verbatim>\<open>computeMissingFor\<close>, \<^verbatim>\<open>craftItems\<close>\<close>

text \<open>
  \<^verbatim>\<open>Record<number, number>\<close>: an object whose keys are numbers, here an association list
  with distinct keys in the order in which the keys were created (\<open>AList.update\<close>
  replaces the value of an old key in place and appends a new key). The ids that the
  planner reads are \<^verbatim>\<open>Number(ing.id)\<close> and \<^verbatim>\<open>Number(cell.id)\<close>: integers, and the
  recipe library marks an empty cell of a grid by the id \<open>-1\<close>. \<^verbatim>\<open>Object.keys\<close> lists
  the keys that are array indices (the integers from 0 on) in ascending order and then
  the other keys (here the negative ids) in the order of their creation.
  \<^verbatim>\<open>m[id] || 0\<close> is \<open>rec_get\<close>; \<^verbatim>\<open>m[id] = (m[id] || 0) + c\<close> is \<open>rec_add\<close>.
\<close>

type_synonym num_record = "(int \<times> int) list"

definition rec_get :: "num_record \<Rightarrow> int \<Rightarrow> int" where
  "rec_get m k = (case map_of m k of None \<Rightarrow> 0 | Some v \<Rightarrow> v)"

definition rec_add :: "int \<Rightarrow> int \<Rightarrow> num_record \<Rightarrow> num_record" where
  "rec_add k c m = AList.update k (rec_get m k + c) m"

definition rec_keys :: "num_record \<Rightarrow> int list" where
  "rec_keys m = sort (filter (\<lambda>k. 0 \<le> k) (map fst m)) @ filter (\<lambda>k. k < 0) (map fst m)"

record inv_item =
  item_type :: int
  item_name :: string
  item_count :: int

text \<open>\<^verbatim>\<open>for (const it of bot.inventory.items()) invMap[it.type] = (invMap[it.type] || 0) + it.count\<close>\<close>

definition invMap_of :: "inv_item list \<Rightarrow> num_record" where
  "invMap_of items = foldl (\<lambda>m it. rec_add (item_type it) (item_count it) m) [] items"

text \<open>
  A recipe as the planner reads it. \<^verbatim>\<open>ingredients\<close> is an array or not (\<open>None\<close>); its
  entries are objects \<^verbatim>\<open>{ id, count? }\<close> or falsy (\<open>None\<close>). \<^verbatim>\<open>inShape\<close> is an array or
  not; each row is an array or not; a cell is an object \<^verbatim>\<open>{ id }\<close>, given by its id, or
  falsy (\<open>None\<close>). A cell object is truthy whatever its id is, so the empty cell
  \<^verbatim>\<open>{ id: -1 }\<close> of the recipe library is \<open>Some (-1)\<close>. \<^verbatim>\<open>requiresTable\<close> is read when
  the recipe is selected.
\<close>

record ingredient =
  ing_id :: int
  ing_count :: "int option"

record recipe =
  ingredients :: "ingredient option list option"
  inShape :: "int option list option list option"
  requiresTable :: bool

text \<open>The entries of an array that are not skipped (\<^verbatim>\<open>if (!ing) continue\<close>,
  \<^verbatim>\<open>if (!Array.isArray(row)) continue\<close>).\<close>

fun non_null :: "'a option list \<Rightarrow> 'a list" where
  "non_null [] = []"
| "non_null (None # xs) = non_null xs"
| "non_null (Some x # xs) = x # non_null xs"

text \<open>\<^verbatim>\<open>Number(ing.count ?? 1)\<close>\<close>

definition count_or_1 :: "ingredient \<Rightarrow> int" where
  "count_or_1 ing = (case ing_count ing of None \<Rightarrow> 1 | Some c \<Rightarrow> c)"

text \<open>The two loops that fill \<^verbatim>\<open>perUnitReq\<close> in \<^verbatim>\<open>computeMaxCraftable\<close>.\<close>

definition add_ingredients :: "ingredient option list \<Rightarrow> num_record \<Rightarrow> num_record" where
  "add_ingredients ings m =
     foldl (\<lambda>m ing. case ing of None \<Rightarrow> m | Some i \<Rightarrow> rec_add (ing_id i) (count_or_1 i) m) m ings"

definition add_shape :: "int option list option list \<Rightarrow> num_record \<Rightarrow> num_record" where
  "add_shape rows m =
     foldl (\<lambda>m row. case row of
                      None \<Rightarrow> m
                    | Some cells \<Rightarrow>
                        foldl (\<lambda>m cell. case cell of None \<Rightarrow> m | Some k \<Rightarrow> rec_add k 1 m) m cells)
       m rows"

definition perUnitReq :: "recipe \<Rightarrow> num_record" where
  "perUnitReq r =
     (let m1 = (case ingredients r of None \<Rightarrow> [] | Some ings \<Rightarrow> add_ingredients ings []);
          m2 = (case inShape r of None \<Rightarrow> m1 | Some rows \<Rightarrow> add_shape rows m1)
      in m2)"

text \<open>The two loops that fill \<^verbatim>\<open>reqMap\<close> in \<^verbatim>\<open>computeMissingFor(units)\<close>: each entry
  adds \<^verbatim>\<open>count * units\<close>, each cell \<^verbatim>\<open>1 * units\<close>.\<close>

definition reqMap :: "int \<Rightarrow> recipe \<Rightarrow> num_record" where
  "reqMap units r =
     (let m1 = (case ingredients r of
                  None \<Rightarrow> []
                | Some ings \<Rightarrow>
                    foldl (\<lambda>m ing. case ing of None \<Rightarrow> m
                                   | Some i \<Rightarrow> rec_add (ing_id i) (count_or_1 i * units) m) [] ings);
          m2 = (case inShape r of
                  None \<Rightarrow> m1
                | Some rows \<Rightarrow>
                    foldl (\<lambda>m row. case row of
                                     None \<Rightarrow> m
                                   | Some cells \<Rightarrow>
                                       foldl (\<lambda>m cell. case cell of None \<Rightarrow> m
                                                       | Some k \<Rightarrow> rec_add k (1 * units) m) m cells)
                      m1 rows)
      in m2)"

record missing_item =
  mi_id :: int
  mi_name :: string
  mi_count :: int

text \<open>
  The list of short ingredients both functions build: for each key in the order of
  \<^verbatim>\<open>Object.keys\<close>, an entry with \<^verbatim>\<open>need - have\<close> when \<^verbatim>\<open>have < need\<close>. \<open>name_of\<close> is
  \<^verbatim>\<open>mcData.items[id]?.name || String(id)\<close>, a lookup in the game data.
\<close>

definition missing_of :: "(int \<Rightarrow> string) \<Rightarrow> num_record \<Rightarrow> num_record \<Rightarrow> missing_item list" where
  "missing_of name_of invMap req =
     map (\<lambda>k. \<lparr>mi_id = k, mi_name = name_of k, mi_count = rec_get req k - rec_get invMap k\<rparr>)
       (filter (\<lambda>k. rec_get invMap k < rec_get req k) (rec_keys req))"

definition computeMissingFor ::
  "(int \<Rightarrow> string) \<Rightarrow> inv_item list \<Rightarrow> recipe \<Rightarrow> int \<Rightarrow> missing_item list" where
  "computeMissingFor name_of stock r units = missing_of name_of (invMap_of stock) (reqMap units r)"

text \<open>
  \<^verbatim>\<open>computeMaxCraftable(unitsLimit)\<close>. \<^verbatim>\<open>Math.floor(have / needPer)\<close> is integer
  division rounding down, for a negative \<^verbatim>\<open>needPer\<close> too. The numbers of the model are
  integers, so \<^verbatim>\<open>Number.isFinite(unitsLimit)\<close> holds; a per-unit requirement of zero would
  make the quotient infinite or \<^verbatim>\<open>NaN\<close>, which is outside the model: the result is
  \<open>None\<close> then.
\<close>

record max_craftable =
  craftable :: int
  missing :: "missing_item list"

definition computeMaxCraftable ::
  "(int \<Rightarrow> string) \<Rightarrow> inv_item list \<Rightarrow> recipe \<Rightarrow> int \<Rightarrow> max_craftable option" where
  "computeMaxCraftable name_of stock r unitsLimit =
     (let invMap = invMap_of stock;
          req = perUnitReq r
      in if list_ex (\<lambda>k. rec_get req k = 0) (rec_keys req) then None
         else
           (let mx = foldl (\<lambda>m k. min m (rec_get invMap k div rec_get req k)) unitsLimit
                       (rec_keys req);
                ms = (if mx \<le> 0 then missing_of name_of invMap req else [])
            in Some \<lparr>craftable = max 0 (min mx unitsLimit), missing = ms\<rparr>))"

text \<open>
  The production loop of \<^verbatim>\<open>craftItems\<close>, entered once a recipe is selected. Each pass
  awaits one \<^verbatim>\<open>craftWithTimeout(1, 8000)\<close>; the world answers with whether it resolved
  or rejected (and the message), the inventory afterwards and the clock afterwards.
\<close>

datatype craft_attempt = Craft_resolves | Craft_rejects string

record craft_obs =
  attempt :: craft_attempt
  inv_after :: "inv_item list"
  now_after :: int

record craft_state =
  crafted :: int
  cs_now :: int
  cs_lastProgressAt :: int
  cs_reason :: "string option"
  cs_errors :: "string list"
  cs_inv :: "inv_item list"

definition invCountByName :: "inv_item list \<Rightarrow> string \<Rightarrow> int" where
  "invCountByName stock n = foldl (\<lambda>a b. a + item_count b) 0 (filter (\<lambda>i. item_name i = n) stock)"

text \<open>\<^verbatim>\<open>reason = reason || r\<close>\<close>

definition reason_or :: "string option \<Rightarrow> string \<Rightarrow> string option" where
  "reason_or cur r = (case cur of None \<Rightarrow> Some r | Some c \<Rightarrow> if c = [] then Some r else Some c)"

fun craft_loop ::
  "int \<Rightarrow> int \<Rightarrow> string \<Rightarrow> int \<Rightarrow> craft_state \<Rightarrow> craft_obs list \<Rightarrow> craft_state option" where
  "craft_loop cnt deadline nm countBefore s [] =
     (if crafted s < cnt \<and> cs_now s < deadline then None else Some s)"
| "craft_loop cnt deadline nm countBefore s (ob # obs) =
     (if crafted s < cnt \<and> cs_now s < deadline then
        (case attempt ob of
           Craft_rejects msg \<Rightarrow>
             Some (s\<lparr>cs_errors := cs_errors s @ [msg],
                     cs_reason :=
                       (if str_includes msg ''timeout'' \<or> str_includes msg ''craft_timeout''
                        then Some ''craft_timeout''
                        else reason_or (cs_reason s) ''missing_resources''),
                     cs_now := now_after ob, cs_inv := inv_after ob\<rparr>)
         | Craft_resolves \<Rightarrow>
             (let now_count = invCountByName (inv_after ob) nm;
                  delta = max 0 (now_count - (countBefore + crafted s))
              in if delta \<le> 0
                 then Some (s\<lparr>cs_errors := cs_errors s @ [''no_output_from_craft''],
                              cs_reason := reason_or (cs_reason s) ''unknown'',
                              cs_now := now_after ob, cs_inv := inv_after ob\<rparr>)
                 else
                   (let s1 = s\<lparr>crafted := crafted s + delta, cs_lastProgressAt := now_after ob,
                                cs_now := now_after ob, cs_inv := inv_after ob\<rparr>
                    in if now_after ob - cs_lastProgressAt s1 > 12000
                       then Some (s1\<lparr>cs_reason := reason_or (cs_reason s1) ''craft_stalled''\<rparr>)
                       else craft_loop cnt deadline nm countBefore s1 obs)))
      else Some s)"

text \<open>The result object; \<^verbatim>\<open>missingItems\<close> is \<open>None\<close> in the two early returns that have
  no such field.\<close>

record craft_result =
  cr_ok :: bool
  cr_requested :: int
  cr_crafted :: int
  cr_remaining :: int
  cr_usedTable :: bool
  cr_timedOut :: bool
  cr_reason :: "string option"
  cr_missingItems :: "missing_item list option"
  cr_errors :: "string list"

text \<open>The lines after the loop: \<^verbatim>\<open>timedOut\<close>, \<^verbatim>\<open>missingItems\<close> and the result object.\<close>

definition craft_finish ::
  "(int \<Rightarrow> string) \<Rightarrow> recipe \<Rightarrow> int \<Rightarrow> int \<Rightarrow> bool \<Rightarrow> craft_state \<Rightarrow> craft_result" where
  "craft_finish name_of r cnt deadline usedTable s =
     (let timedOut' = (cs_now s \<ge> deadline \<and> crafted s < cnt);
          missingItems' =
            (if crafted s < cnt
             then computeMissingFor name_of (cs_inv s) r (max 1 (cnt - crafted s))
             else [])
      in \<lparr>cr_ok = crafted s > 0, cr_requested = cnt, cr_crafted = crafted s,
          cr_remaining = max 0 (cnt - crafted s), cr_usedTable = usedTable,
          cr_timedOut = timedOut', cr_reason = cs_reason s,
          cr_missingItems = Some missingItems', cr_errors = cs_errors s\<rparr>)"

text \<open>
  \<^verbatim>\<open>craftItems\<close> from the selected recipe on: \<open>inv0\<close> is the inventory and \<open>start\<close> the
  clock when the loop is entered, \<open>maxMs\<close> is \<^verbatim>\<open>params.maxMs\<close> (60000 when missing),
  \<open>nm\<close> is \<^verbatim>\<open>item.name\<close>.
\<close>

definition craft_produce ::
  "(int \<Rightarrow> string) \<Rightarrow> recipe \<Rightarrow> string \<Rightarrow> int \<Rightarrow> int option \<Rightarrow> bool \<Rightarrow> inv_item list \<Rightarrow> int \<Rightarrow>
   craft_obs list \<Rightarrow> craft_result option" where
  "craft_produce name_of r nm cnt maxMs usedTable inv0 start obs =
     (let deadline = start + (case maxMs of None \<Rightarrow> 60000 | Some m \<Rightarrow> m);
          countBefore = invCountByName inv0 nm;
          s0 = \<lparr>crafted = 0, cs_now = start, cs_lastProgressAt = start, cs_reason = None,
                cs_errors = [], cs_inv = inv0\<rparr>
      in map_option (craft_finish name_of r cnt deadline usedTable)
           (craft_loop cnt deadline nm countBefore s0 obs))"

text \<open>
  The parameters of the tool call (\<open>None\<close> is a missing parameter) and the world as
  \<^verbatim>\<open>craftItems\<close> meets it, in the order of the code: the item of that name in the game
  data (its \<^verbatim>\<open>name\<close> field; \<open>None\<close> when there is none), the recipes without a table,
  whether a crafting table is found within 16 blocks, whether the inventory holds one,
  the id of the crafting table in the game data, whether there is a block under the bot,
  how \<^verbatim>\<open>bot.equip\<close> and \<^verbatim>\<open>bot.placeBlock\<close> settle (\<open>None\<close>: resolved, \<open>Some msg\<close>:
  rejected with that message), whether a block is read back at the place of the table,
  the clock and the distance to the table at each pass of the walk towards it, the
  recipes in the context reached, the lookup of item names, and the inventory, the clock
  and the craft attempts of the production loop.
\<close>

record craft_params =
  cp_username :: "string option"
  cp_itemName :: "string option"
  cp_name :: "string option"
  cp_count :: "int option"
  cp_maxMs :: "int option"

record craft_world =
  crw_item :: "string option"
  crw_recipesNoTable :: "recipe list"
  crw_tableNearby :: bool
  crw_tableItem :: bool
  crw_tableId :: "int option"
  crw_ref :: bool
  crw_equip :: "string option"
  crw_placeBlock :: "string option"
  crw_placed :: bool
  crw_walk :: "(int \<times> real) list"
  crw_recipes :: "recipe list"
  crw_name_of :: "int \<Rightarrow> string"
  crw_stock :: "inv_item list"
  crw_start :: int
  crw_obs :: "craft_obs list"

text \<open>
  The part that looks for a crafting table or places one. \<open>Inl\<close> is the end of the
  action there: one of the two \<^verbatim>\<open>missing_table\<close> results, or the rejection of
  \<^verbatim>\<open>bot.equip\<close> or \<^verbatim>\<open>bot.placeBlock\<close>, which nothing catches. \<open>Inr\<close> says whether
  \<^verbatim>\<open>tableBlock\<close> is set afterwards.
\<close>

definition craft_table :: "craft_world \<Rightarrow> int \<Rightarrow> craft_result outcome + bool" where
  "craft_table w cnt =
     (if crw_recipesNoTable w = [] \<and> \<not> crw_tableNearby w then
        if \<not> crw_tableItem w then
          Inl (Returned
                 \<lparr>cr_ok = False, cr_requested = cnt, cr_crafted = 0, cr_remaining = cnt,
                  cr_usedTable = False, cr_timedOut = False, cr_reason = Some ''missing_table'',
                  cr_missingItems =
                    Some [\<lparr>mi_id = (case crw_tableId w of None \<Rightarrow> - 1 | Some i \<Rightarrow> i),
                           mi_name = ''crafting_table'', mi_count = 1\<rparr>],
                  cr_errors = [''crafting_table required but not found nearby or in inventory'']\<rparr>)
        else if \<not> crw_ref w then
          Inl (Returned
                 \<lparr>cr_ok = False, cr_requested = cnt, cr_crafted = 0, cr_remaining = cnt,
                  cr_usedTable = False, cr_timedOut = False, cr_reason = Some ''missing_table'',
                  cr_missingItems = None,
                  cr_errors = [''No support block to place crafting_table'']\<rparr>)
        else (case crw_equip w of
                Some msg \<Rightarrow> Inl (Threw msg)
              | None \<Rightarrow>
                  (case crw_placeBlock w of
                     Some msg \<Rightarrow> Inl (Threw msg)
                   | None \<Rightarrow> Inr (crw_placed w)))
      else Inr (crw_tableNearby w))"

text \<open>
  The walk towards the table: \<^verbatim>\<open>while (Date.now() - start < 15000) { if (d <= 3) break;
  await bot.waitForTicks(5) }\<close>, one observation of clock and distance per pass.
\<close>

fun craft_walk :: "int \<Rightarrow> (int \<times> real) list \<Rightarrow> unit option" where
  "craft_walk start [] = None"
| "craft_walk start ((now, d) # obs) =
     (if now - start < 15000 then if d \<le> 3 then Some () else craft_walk start obs
      else Some ())"

text \<open>\<^verbatim>\<open>(tableBlock && recipes.find(r => r.requiresTable)) || recipes[0]\<close> on a list that
  is not empty.\<close>

definition select_recipe :: "bool \<Rightarrow> recipe \<Rightarrow> recipe list \<Rightarrow> recipe" where
  "select_recipe tableBlock r0 rs =
     (if tableBlock
      then (case find requiresTable (r0 # rs) of Some r \<Rightarrow> r | None \<Rightarrow> r0)
      else r0)"

text \<open>The action that \<^verbatim>\<open>craftItems\<close> passes to \<^verbatim>\<open>withTask\<close>.\<close>

definition craft_action :: "craft_params \<Rightarrow> craft_world \<Rightarrow> craft_result outcome option" where
  "craft_action params w =
     (let itemName = str_or (cp_itemName params) (str_or (cp_name params) ''stick'');
          cnt = num_or_1 (cp_count params)
      in case crw_item w of
           None \<Rightarrow> Some (Threw (''Unknown item '' @ itemName))
         | Some item_nm \<Rightarrow>
             (case craft_table w cnt of
                Inl out \<Rightarrow> Some out
              | Inr tableBlock \<Rightarrow>
                  (case (if tableBlock
                         then (case crw_walk w of [] \<Rightarrow> None
                               | (t0, d0) # rest \<Rightarrow> craft_walk t0 (crw_walk w))
                         else Some ()) of
                     None \<Rightarrow> None
                   | Some u \<Rightarrow>
                       (case crw_recipes w of
                          [] \<Rightarrow>
                            Some (Returned
                              \<lparr>cr_ok = False, cr_requested = cnt, cr_crafted = 0,
                               cr_remaining = cnt, cr_usedTable = tableBlock, cr_timedOut = False,
                               cr_reason = Some ''no_recipe'', cr_missingItems = None,
                               cr_errors = [''No recipe for item in current context'']\<rparr>)
                        | r0 # rs \<Rightarrow>
                            map_option Returned
                              (craft_produce (crw_name_of w) (select_recipe tableBlock r0 rs)
                                 item_nm cnt (cp_maxMs params) tableBlock (crw_stock w)
                                 (crw_start w) (crw_obs w))))))"

text \<open>
  \<^verbatim>\<open>craftItems(params)\<close>: the bot is resolved by \<^verbatim>\<open>getBotOrThrow\<close> (a bot of the
  registry is given by its \<^verbatim>\<open>__task\<close> field), and the action runs under the task guard
  of that bot; \<open>h\<close> is the number of the invocation. \<open>Inl\<close> is the error thrown by
  \<^verbatim>\<open>getBotOrThrow\<close>; otherwise the result is that of \<^verbatim>\<open>withTask\<close> with the task state
  it leaves.
\<close>

definition craftItems ::
  "nat \<Rightarrow> craft_params \<Rightarrow> task option registry \<Rightarrow> craft_world \<Rightarrow>
   (js_error + (task_error + craft_result outcome) \<times> task) option" where
  "craftItems h params bots w =
     (case getBotOrThrow (Some (str_or (cp_username params) [])) bots of
        Inl e \<Rightarrow> Some (Inl e)
      | Inr bt \<Rightarrow> map_option Inr (withTask_await h bt (craft_action params w)))"

text \<open>
  The requirement in the words of the specification: the shapeless entries and the
  cells of the shaped grid merged by ingredient id, an entry counting with its count
  and each cell, repeated or not, counting once.
\<close>

definition spec_perUnit :: "recipe \<Rightarrow> int \<Rightarrow> int" where
  "spec_perUnit r k =
     (case ingredients r of
        None \<Rightarrow> 0
      | Some ings \<Rightarrow> sum_list (map (\<lambda>i. if ing_id i = k then count_or_1 i else 0)
                                 (non_null ings))) +
     (case inShape r of
        None \<Rightarrow> 0
      | Some rows \<Rightarrow> int (count_list (concat (non_null rows)) (Some k)))"

definition spec_ids :: "recipe \<Rightarrow> int set" where
  "spec_ids r =
     (case ingredients r of None \<Rightarrow> {} | Some ings \<Rightarrow> ing_id ` set (non_null ings)) \<union>
     (case inShape r of None \<Rightarrow> {} | Some rows \<Rightarrow> {k. Some k \<in> set (concat (non_null rows))})"

text \<open>The counts of a recipe are positive when every count that is given is; an
  inventory is well formed when no stack has a negative count.\<close>

definition recipe_ok :: "recipe \<Rightarrow> bool" where
  "recipe_ok r =
     (case ingredients r of
        None \<Rightarrow> True
      | Some ings \<Rightarrow> list_all (\<lambda>i. 0 < count_or_1 i) (non_null ings))"

definition inv_ok :: "inv_item list \<Rightarrow> bool" where
  "inv_ok stock = list_all (\<lambda>it. 0 \<le> item_count it) stock"

definition have_of :: "inv_item list \<Rightarrow> int \<Rightarrow> int" where
  "have_of stock k = sum_list (map item_count (filter (\<lambda>it. item_type it = k) stock))"

text \<open>
  Examples: buttons (item 9) need one plank (item 7) each; the bot holds three planks
  and five buttons are requested. Three crafts succeed, the fourth is rejected.
  \<open>ex_recipe\<close> gives no count for the plank. \<open>lib_recipe\<close> is the same recipe as the
  recipe library returns it: the entries of a shapeless recipe carry the count \<open>-1\<close>.
  \<open>lib_pickaxe\<close> is a shaped recipe as the library returns it: three planks, two sticks
  (item 8) and four empty cells with the id \<open>-1\<close>.
\<close>

definition ex_recipe :: recipe where
  "ex_recipe =
     \<lparr>ingredients = Some [Some \<lparr>ing_id = 7, ing_count = None\<rparr>], inShape = None,
      requiresTable = False\<rparr>"

definition lib_recipe :: recipe where
  "lib_recipe =
     \<lparr>ingredients = Some [Some \<lparr>ing_id = 7, ing_count = Some (- 1)\<rparr>], inShape = None,
      requiresTable = False\<rparr>"

definition lib_pickaxe :: recipe where
  "lib_pickaxe =
     \<lparr>ingredients = None,
      inShape = Some [Some [Some 7, Some 7, Some 7],
                      Some [Some (- 1), Some 8, Some (- 1)],
                      Some [Some (- 1), Some 8, Some (- 1)]],
      requiresTable = True\<rparr>"

definition ex_names :: "int \<Rightarrow> string" where
  "ex_names k = (if k = 7 then ''plank'' else if k = 8 then ''stick''
                 else if k = 9 then ''button'' else ''-1'')"

definition ex_stock :: "inv_item list" where
  "ex_stock = [\<lparr>item_type = 7, item_name = ''plank'', item_count = 3\<rparr>]"

definition ex_tools_stock :: "inv_item list" where
  "ex_tools_stock =
     [\<lparr>item_type = 7, item_name = ''plank'', item_count = 3\<rparr>,
      \<lparr>item_type = 8, item_name = ''stick'', item_count = 2\<rparr>]"

definition ex_obs :: "craft_obs list" where
  "ex_obs =
     [\<lparr>attempt = Craft_resolves,
       inv_after = [\<lparr>item_type = 7, item_name = ''plank'', item_count = 2\<rparr>,
                    \<lparr>item_type = 9, item_name = ''button'', item_count = 1\<rparr>],
       now_after = 1500\<rparr>,
      \<lparr>attempt = Craft_resolves,
       inv_after = [\<lparr>item_type = 7, item_name = ''plank'', item_count = 1\<rparr>,
                    \<lparr>item_type = 9, item_name = ''button'', item_count = 2\<rparr>],
       now_after = 2000\<rparr>,
      \<lparr>attempt = Craft_resolves,
       inv_after = [\<lparr>item_type = 9, item_name = ''button'', item_count = 3\<rparr>],
       now_after = 2500\<rparr>,
      \<lparr>attempt = Craft_rejects ''missing ingredient'',
       inv_after = [\<lparr>item_type = 9, item_name = ''button'', item_count = 3\<rparr>],
       now_after = 3000\<rparr>]"

text \<open>The call \<^verbatim>\<open>craftItems({ itemName: 'button', count: 5 })\<close> and its world: the button
  needs no table, and the recipes found are the one given.\<close>

definition ex_craft_params :: craft_params where
  "ex_craft_params =
     \<lparr>cp_username = None, cp_itemName = Some ''button'', cp_name = None, cp_count = Some 5,
      cp_maxMs = None\<rparr>"

definition ex_craft_world :: "recipe \<Rightarrow> craft_world" where
  "ex_craft_world r =
     \<lparr>crw_item = Some ''button'', crw_recipesNoTable = [r], crw_tableNearby = False,
      crw_tableItem = False, crw_tableId = Some 58, crw_ref = True, crw_equip = None,
      crw_placeBlock = None, crw_placed = False, crw_walk = [], crw_recipes = [r],
      crw_name_of = ex_names, crw_stock = ex_stock, crw_start = 1000, crw_obs = ex_obs\<rparr>"

definition craft_bots :: "task option registry" where
  "craft_bots = [(''Steve'', None)]"

subsection \<open>Smelting and cooking: \<^verbatim>\<open>chooseDeviceForItem\<close>, \<^verbatim>\<open>cookOrSmeltOnDevice\<close>, \<^verbatim>\<open>cookOnCampfire\<close>, \<^verbatim>\<open>smeltItem\<close>\<close>

datatype device = furnace | smoker | blast_furnace | campfire

fun device_name :: "device \<Rightarrow> string" where
  "device_name furnace = ''furnace''"
| "device_name smoker = ''smoker''"
| "device_name blast_furnace = ''blast_furnace''"
| "device_name campfire = ''campfire''"

definition isLikelyFood :: "string \<Rightarrow> bool" where
  "isLikelyFood itemName =
     (let n = toLowerCase itemName
      in list_ex (\<lambda>x. str_includes n x)
           [''beef'', ''porkchop'', ''mutton'', ''chicken'', ''cod'', ''salmon'', ''rabbit'',
            ''potato'', ''kelp'', ''sweet_berries''] \<or>
         startsWith n ''raw_'' \<or> str_includes n ''raw'')"

definition isLikelyOre :: "string \<Rightarrow> bool" where
  "isLikelyOre itemName =
     (let n = toLowerCase itemName
      in if endsWith n ''_ore'' then True
         else if startsWith n ''raw_'' then True
         else list_ex (\<lambda>x. str_includes n x)
                [''iron_ore'', ''gold_ore'', ''copper_ore'', ''ancient_debris''])"

definition chooseDeviceForItem :: "string \<Rightarrow> string option \<Rightarrow> device" where
  "chooseDeviceForItem itemName prefer =
     (let p = toLowerCase (case prefer of None \<Rightarrow> [] | Some s \<Rightarrow> s)
      in if p = ''furnace'' then furnace
         else if p = ''smoker'' then smoker
         else if p = ''blast_furnace'' then blast_furnace
         else if p = ''campfire'' then campfire
         else if isLikelyFood itemName then smoker
         else if isLikelyOre itemName then blast_furnace
         else furnace)"

text \<open>
  The device sequence that \<^verbatim>\<open>smeltItem\<close> builds; \<^verbatim>\<open>preferDevice\<close> is \<open>None\<close> when
  \<^verbatim>\<open>params.preferDevice\<close> is falsy.
\<close>

definition smelt_sequence :: "string \<Rightarrow> string option \<Rightarrow> device list" where
  "smelt_sequence itemName preferDevice =
     (let isFoodItem = isLikelyFood itemName;
          isOreItem = isLikelyOre itemName
      in if truthy_str preferDevice then
           (let p = the preferDevice;
                s1 = (if p = ''campfire'' then [campfire]
                      else if p = ''smoker'' then [smoker]
                      else if p = ''blast_furnace'' then [blast_furnace]
                      else [furnace]);
                s2 = (if furnace \<notin> set s1 then s1 @ [furnace] else s1);
                s3 = (if isFoodItem \<and> campfire \<notin> set s2 then s2 @ [campfire] else s2)
            in s3)
         else if isFoodItem then [smoker, furnace, campfire]
         else if isOreItem then [blast_furnace, furnace]
         else [furnace])"

text \<open>
  One attempt on a furnace-like device. The world of the attempt: whether a device is
  near and opens, the counts of the inventory stacks of the item, the fuel slot and the
  inventory at the start, whether the first \<^verbatim>\<open>putFuel\<close> and the \<^verbatim>\<open>putInput\<close>s
  resolve, the clock when polling starts, and one observation per pass of the polling
  loop: the clock after \<^verbatim>\<open>takeOutput\<close>, the output taken (name and count, \<open>None\<close>
  when there is none or the call rejects), the fuel slot, the inventory, whether
  \<^verbatim>\<open>putFuel\<close> resolves, and the clock after it.
\<close>

record poll_obs =
  po_now :: int
  po_out :: "(string \<times> int option) option"
  po_fuelItem :: bool
  po_inventory :: "string list"
  po_putFuel_resolves :: bool
  po_now_refuel :: int

record furnace_world =
  fw_deviceNearby :: bool
  fw_opens :: bool
  fw_stacks :: "int list"
  fw_fuelItem :: bool
  fw_inventory :: "string list"
  fw_putFuel_resolves :: bool
  fw_putInput_resolves :: bool
  fw_start :: int
  fw_polls :: "poll_obs list"

definition fuel_preference :: "string list" where
  "fuel_preference =
     [''coal'', ''charcoal'', ''coal_block'', ''lava_bucket'', ''stick'', ''oak_planks'',
      ''spruce_planks'', ''birch_planks'', ''jungle_planks'', ''acacia_planks'',
      ''dark_oak_planks'', ''mangrove_planks'', ''cherry_planks'', ''bamboo_planks'',
      ''crimson_planks'', ''warped_planks'']"

definition findFuel :: "string option \<Rightarrow> string list \<Rightarrow> string option" where
  "findFuel fuelName names =
     (if truthy_str fuelName then find (\<lambda>n. n = the fuelName) names
      else find (\<lambda>n. n \<in> set fuel_preference) names)"

text \<open>
  The loop that inserts the inputs: the first stack with a positive count gives
  \<^verbatim>\<open>batch = Math.min(nxt.count, toProcess - inserted)\<close>. When the stack is not more
  than what is still to insert, the batch is the whole stack and the next pass sees the
  next stack; otherwise the batch is what is still to insert, \<^verbatim>\<open>inserted\<close> reaches
  \<^verbatim>\<open>toProcess\<close> and the loop ends.
\<close>

fun insert_inputs :: "int \<Rightarrow> int \<Rightarrow> int list \<Rightarrow> int" where
  "insert_inputs toProcess inserted [] = inserted"
| "insert_inputs toProcess inserted (c # cs) =
     (if inserted < toProcess then
        if c > 0 then
          (if c \<le> toProcess - inserted
           then insert_inputs toProcess (inserted + c) cs
           else inserted + (toProcess - inserted))
        else insert_inputs toProcess inserted cs
      else inserted)"

record poll_state =
  outputs :: int
  ps_lastProgressAt :: int
  lastOutName :: "string option"
  outOfFuel :: bool
  refuelAttempts :: nat
  ps_now :: int

text \<open>
  \<open>ps_now\<close> is the clock as the code reads it next: at the loop test of the next pass
  or, after a \<^verbatim>\<open>break\<close>, in the line that computes \<^verbatim>\<open>timedOut\<close>. A pass awaits
  \<^verbatim>\<open>takeOutput\<close> (the clock is then \<open>po_now\<close>) and, when it refuels, \<^verbatim>\<open>putFuel\<close>
  (the clock is then \<open>po_now_refuel\<close>, whether \<^verbatim>\<open>putFuel\<close> resolves or rejects).
\<close>

text \<open>The \<^verbatim>\<open>takeOutput\<close> part of a pass.\<close>

definition take_output :: "poll_obs \<Rightarrow> poll_state \<Rightarrow> poll_state" where
  "take_output ob s =
     (case po_out ob of
        Some (nm, c) \<Rightarrow>
          s\<lparr>outputs := outputs s + (case c of None \<Rightarrow> 1 | Some v \<Rightarrow> v),
            lastOutName := Some nm, ps_lastProgressAt := po_now ob, ps_now := po_now ob\<rparr>
      | None \<Rightarrow> s\<lparr>ps_now := po_now ob\<rparr>)"

fun poll_loop ::
  "string option \<Rightarrow> int \<Rightarrow> int \<Rightarrow> poll_state \<Rightarrow> poll_obs list \<Rightarrow> poll_state option" where
  "poll_loop fuelName outputsTarget deadline s [] =
     (if outputs s < outputsTarget \<and> ps_now s < deadline then None else Some s)"
| "poll_loop fuelName outputsTarget deadline s (ob # obs) =
     (if outputs s < outputsTarget \<and> ps_now s < deadline then
        (let s1 = take_output ob s
         in if po_now ob - ps_lastProgressAt s1 > 15000 then
              if \<not> po_fuelItem ob then
                if findFuel fuelName (po_inventory ob) \<noteq> None \<and> refuelAttempts s1 < 2 then
                  if po_putFuel_resolves ob
                  then poll_loop fuelName outputsTarget deadline
                         (s1\<lparr>refuelAttempts := Suc (refuelAttempts s1),
                             ps_lastProgressAt := po_now_refuel ob, ps_now := po_now_refuel ob\<rparr>) obs
                  else Some (s1\<lparr>outOfFuel := True, ps_now := po_now_refuel ob\<rparr>)
                else Some (s1\<lparr>outOfFuel := True\<rparr>)
              else Some s1
            else poll_loop fuelName outputsTarget deadline s1 obs)
      else Some s)"

record furnace_result =
  fr_ok :: bool
  fr_deviceUsed :: device
  fr_outputsCollected :: int
  fr_requested :: int
  fr_remaining :: int
  fr_timedOut :: bool
  fr_stalled :: bool
  fr_outOfFuel :: bool
  fr_reason :: "string option"
  fr_output :: "string option"

text \<open>The lines after the polling loop.\<close>

definition poll_finish :: "device \<Rightarrow> int \<Rightarrow> int \<Rightarrow> int \<Rightarrow> poll_state \<Rightarrow> furnace_result" where
  "poll_finish dev cnt outputsTarget deadline s =
     (let timedOut' = (outputs s < outputsTarget \<and> ps_now s \<ge> deadline);
          stalled' = (outputs s < outputsTarget \<and> \<not> timedOut' \<and> \<not> outOfFuel s);
          reason' = (if outOfFuel s then Some ''out_of_fuel''
                     else if timedOut' then Some ''timed_out''
                     else if stalled' then Some ''stalled'' else None)
      in \<lparr>fr_ok = outputs s \<ge> outputsTarget, fr_deviceUsed = dev,
          fr_outputsCollected = outputs s, fr_requested = cnt,
          fr_remaining = max 0 (cnt - outputs s), fr_timedOut = timedOut',
          fr_stalled = stalled', fr_outOfFuel = outOfFuel s, fr_reason = reason',
          fr_output = lastOutName s\<rparr>)"

text \<open>
  \<^verbatim>\<open>cookOrSmeltOnDevice(bot, device, itemName, fuelName, count, totalMaxMs)\<close>. A
  rejection (no device near, a rejected open, \<^verbatim>\<open>putFuel\<close> or \<^verbatim>\<open>putInput\<close>) is
  \<open>Inl\<close>. The early return for missing fuel has only some of the fields; the others
  are shown as false or absent.
\<close>

definition cookOrSmeltOnDevice ::
  "device \<Rightarrow> string \<Rightarrow> string option \<Rightarrow> int \<Rightarrow> int option \<Rightarrow> furnace_world \<Rightarrow>
   (js_error + furnace_result) option" where
  "cookOrSmeltOnDevice dev itemName fuelName cnt totalMaxMs w =
     (if \<not> fw_deviceNearby w then Some (Inl (Error (''No '' @ device_name dev @ '' nearby'')))
      else if \<not> fw_opens w then Some (Inl (Error ''openFurnace failed''))
      else
        (let available = foldl (\<lambda>a b. a + b) 0 (fw_stacks w);
             toProcess = max 1 (min cnt available)
         in if toProcess \<le> 0
            then Some (Inl (Error (''Missing input '' @ [quote] @ itemName @ [quote])))
            else if \<not> fw_fuelItem w \<and> findFuel fuelName (fw_inventory w) = None
            then Some (Inr \<lparr>fr_ok = False, fr_deviceUsed = dev, fr_outputsCollected = 0,
                            fr_requested = cnt, fr_remaining = cnt, fr_timedOut = False,
                            fr_stalled = False, fr_outOfFuel = True,
                            fr_reason = Some ''missing_fuel'', fr_output = None\<rparr>)
            else if \<not> fw_fuelItem w \<and> \<not> fw_putFuel_resolves w
            then Some (Inl (Error ''putFuel failed''))
            else if list_ex (\<lambda>c. c > 0) (fw_stacks w) \<and> \<not> fw_putInput_resolves w
            then Some (Inl (Error ''putInput failed''))
            else
              (let inserted = insert_inputs toProcess 0 (fw_stacks w);
                   outputsTarget = inserted;
                   deadline = fw_start w +
                     (case totalMaxMs of None \<Rightarrow> max 90000 (60000 * outputsTarget) | Some m \<Rightarrow> m);
                   s0 = \<lparr>outputs = 0, ps_lastProgressAt = fw_start w, lastOutName = None,
                         outOfFuel = False, refuelAttempts = 0, ps_now = fw_start w\<rparr>
               in map_option (\<lambda>s. Inr (poll_finish dev cnt outputsTarget deadline s))
                    (poll_loop fuelName outputsTarget deadline s0 (fw_polls w)))))"

text \<open>
  \<^verbatim>\<open>cookOnCampfire\<close>: after the preparations it waits until 45 s have passed since
  \<^verbatim>\<open>start\<close>, tries for up to 5 s to walk to a dropped item, and returns
  \<^verbatim>\<open>{ ok: !timedOut, timedOut }\<close> with \<^verbatim>\<open>timedOut = Date.now() - start >= maxMs\<close>. The
  world gives whether each preparation succeeds, the clock at \<^verbatim>\<open>start\<close>, the clock
  after each \<^verbatim>\<open>waitForTicks(10)\<close> of the wait, and the clock at the final read.
\<close>

record campfire_world =
  cw_campfireNearby :: bool
  cw_hasInput :: bool
  cw_equip_resolves :: bool
  cw_block_present :: bool
  cw_activate_resolves :: bool
  cw_start :: int
  cw_waits :: "int list"
  cw_end :: int

record campfire_result =
  cf_ok :: bool
  cf_timedOut :: bool

fun campfire_wait :: "int \<Rightarrow> int \<Rightarrow> int list \<Rightarrow> int option" where
  "campfire_wait start now [] = (if now - start < 45000 then None else Some now)"
| "campfire_wait start now (t # ts) =
     (if now - start < 45000 then campfire_wait start t ts else Some now)"

definition cookOnCampfire :: "string \<Rightarrow> campfire_world \<Rightarrow> (js_error + campfire_result) option" where
  "cookOnCampfire itemName w =
     (if \<not> cw_campfireNearby w then Some (Inl (Error ''No campfire nearby''))
      else if \<not> cw_hasInput w
      then Some (Inl (Error (''Missing input '' @ [quote] @ itemName @ [quote])))
      else if \<not> cw_equip_resolves w then Some (Inl (Error ''equip failed''))
      else if \<not> cw_block_present w then Some (Inl (Error ''Campfire vanished''))
      else if \<not> cw_activate_resolves w then Some (Inl (Error ''activateBlock failed''))
      else case campfire_wait (cw_start w) (cw_start w) (cw_waits w) of
             None \<Rightarrow> None
           | Some t \<Rightarrow>
               (let timedOut' = (cw_end w - cw_start w \<ge> 45000)
                in Some (Inr \<lparr>cf_ok = \<not> timedOut', cf_timedOut = timedOut'\<rparr>)))"

text \<open>The loop of \<^verbatim>\<open>smeltItem\<close> over the sequence. \<open>run\<close> is the attempt on a device:
  no result yet, a rejection, or a result.\<close>

datatype attempt_result = Furnace_result furnace_result | Campfire_result campfire_result

fun result_ok :: "attempt_result \<Rightarrow> bool" where
  "result_ok (Furnace_result r) = fr_ok r"
| "result_ok (Campfire_result r) = cf_ok r"

fun result_timedOut :: "attempt_result \<Rightarrow> bool" where
  "result_timedOut (Furnace_result r) = fr_timedOut r"
| "result_timedOut (Campfire_result r) = cf_timedOut r"

datatype smelt_result =
    Smelt_ok attempt_result "device list"
  | Smelt_failed "device list" "string list"

fun smelt_loop ::
  "(device \<Rightarrow> (js_error + attempt_result) option) \<Rightarrow> device list \<Rightarrow> device list \<Rightarrow>
   string list \<Rightarrow> smelt_result option" where
  "smelt_loop run [] attempts errors = Some (Smelt_failed attempts errors)"
| "smelt_loop run (dev # rest) attempts errors =
     (case run dev of
        None \<Rightarrow> None
      | Some (Inl (Error msg)) \<Rightarrow>
          smelt_loop run rest (attempts @ [dev]) (errors @ [device_name dev @ '': '' @ msg])
      | Some (Inr r) \<Rightarrow>
          if result_ok r then Some (Smelt_ok r (attempts @ [dev]))
          else smelt_loop run rest (attempts @ [dev])
                 (errors @ [if dev = campfire then ''campfire_failed''
                            else device_name dev @ ''_failed'' @
                                 (if result_timedOut r then '':timedOut'' else [])]))"

text \<open>The attempt \<^verbatim>\<open>smeltItem\<close> makes on a device, in the world of that attempt.\<close>

record smelt_world =
  sw_furnace :: "device \<Rightarrow> furnace_world"
  sw_campfire :: campfire_world

definition run_device ::
  "string \<Rightarrow> string option \<Rightarrow> int \<Rightarrow> smelt_world \<Rightarrow> device \<Rightarrow> (js_error + attempt_result) option" where
  "run_device itemName fuelName cnt w dev =
     (if dev = campfire
      then map_option (map_sum (\<lambda>e. e) Campfire_result) (cookOnCampfire itemName (sw_campfire w))
      else map_option (map_sum (\<lambda>e. e) Furnace_result)
             (cookOrSmeltOnDevice dev itemName fuelName cnt None (sw_furnace w dev)))"

text \<open>
  The parameters of the tool call as \<^verbatim>\<open>smeltItem\<close> reads them: \<open>None\<close> is a missing
  parameter. \<^verbatim>\<open>String(params.itemName || 'iron_ore')\<close> is \<open>str_or itemName ''iron_ore''\<close>,
  \<^verbatim>\<open>params.preferDevice ? String(params.preferDevice) : undefined\<close> is \<open>str_opt\<close>,
  \<^verbatim>\<open>Number(params.count ?? 1)\<close> is \<open>num_or_1\<close>.
\<close>

record smelt_params =
  sp_username :: "string option"
  sp_itemName :: "string option"
  sp_preferDevice :: "string option"
  sp_fuelName :: "string option"
  sp_count :: "int option"

text \<open>The action that \<^verbatim>\<open>smeltItem\<close> passes to \<^verbatim>\<open>withTask\<close>. Every rejection of an
  attempt is caught inside the loop, so the action does not throw.\<close>

definition smelt_action :: "smelt_params \<Rightarrow> smelt_world \<Rightarrow> smelt_result option" where
  "smelt_action params w =
     (let itemName = str_or (sp_itemName params) ''iron_ore'';
          preferDevice = str_opt (sp_preferDevice params);
          fuelName = str_opt (sp_fuelName params);
          cnt = num_or_1 (sp_count params)
      in smelt_loop (run_device itemName fuelName cnt w) (smelt_sequence itemName preferDevice) [] [])"

text \<open>
  \<^verbatim>\<open>smeltItem(params)\<close>: the bot is resolved by \<^verbatim>\<open>getBotOrThrow\<close> (a bot of the
  registry is given by its \<^verbatim>\<open>__task\<close> field), and the action runs under the task guard
  of that bot; \<open>h\<close> is the number of the invocation. \<open>Inl\<close> is the error thrown by
  \<^verbatim>\<open>getBotOrThrow\<close>; otherwise the result is that of \<^verbatim>\<open>withTask\<close> with the task state
  it leaves. \<^verbatim>\<open>cookItem\<close> calls \<^verbatim>\<open>smeltItem\<close> with the same parameters.
\<close>

definition smeltItem ::
  "nat \<Rightarrow> smelt_params \<Rightarrow> task option registry \<Rightarrow> smelt_world \<Rightarrow>
   (js_error + (task_error + smelt_result outcome) \<times> task) option" where
  "smeltItem h params bots w =
     (case getBotOrThrow (Some (str_or (sp_username params) [])) bots of
        Inl e \<Rightarrow> Some (Inl e)
      | Inr bt \<Rightarrow>
          map_option Inr (withTask_await h bt (map_option Returned (smelt_action params w))))"

definition cookItem ::
  "nat \<Rightarrow> smelt_params \<Rightarrow> task option registry \<Rightarrow> smelt_world \<Rightarrow>
   (js_error + (task_error + smelt_result outcome) \<times> task) option" where
  "cookItem h params bots w = smeltItem h params bots w"

text \<open>An attempt that makes the loop go on to the next device.\<close>

definition attempt_fails :: "(device \<Rightarrow> (js_error + attempt_result) option) \<Rightarrow> device \<Rightarrow> bool" where
  "attempt_fails run dev =
     (case run dev of
        None \<Rightarrow> False
      | Some (Inl e) \<Rightarrow> True
      | Some (Inr r) \<Rightarrow> \<not> result_ok r)"

text \<open>
  Example worlds. A smoker that holds fuel, takes two pieces of beef, gives one cooked
  piece after 10 s and then nothing for 16 s; a furnace that takes the piece left and
  cooks it; a blast furnace whose fuel slot is empty at every stall, with coal in the
  inventory; no campfire.
\<close>

definition ex_smoker :: furnace_world where
  "ex_smoker =
     \<lparr>fw_deviceNearby = True, fw_opens = True, fw_stacks = [2], fw_fuelItem = True,
      fw_inventory = [''beef''], fw_putFuel_resolves = True, fw_putInput_resolves = True,
      fw_start = 0,
      fw_polls =
        [\<lparr>po_now = 10000, po_out = Some (''cooked_beef'', Some 1), po_fuelItem = True,
          po_inventory = [], po_putFuel_resolves = True, po_now_refuel = 10000\<rparr>,
         \<lparr>po_now = 26000, po_out = None, po_fuelItem = True,
          po_inventory = [], po_putFuel_resolves = True, po_now_refuel = 26000\<rparr>]\<rparr>"

definition ex_furnace :: furnace_world where
  "ex_furnace =
     \<lparr>fw_deviceNearby = True, fw_opens = True, fw_stacks = [1], fw_fuelItem = True,
      fw_inventory = [''beef''], fw_putFuel_resolves = True, fw_putInput_resolves = True,
      fw_start = 30000,
      fw_polls =
        [\<lparr>po_now = 40000, po_out = Some (''cooked_beef'', Some 1), po_fuelItem = True,
          po_inventory = [], po_putFuel_resolves = True, po_now_refuel = 40000\<rparr>]\<rparr>"

definition ex_stall :: "int \<Rightarrow> poll_obs" where
  "ex_stall t =
     \<lparr>po_now = t, po_out = None, po_fuelItem = False, po_inventory = [''coal''],
      po_putFuel_resolves = True, po_now_refuel = t + 100\<rparr>"

definition ex_blast :: furnace_world where
  "ex_blast =
     \<lparr>fw_deviceNearby = True, fw_opens = True, fw_stacks = [1], fw_fuelItem = True,
      fw_inventory = [''iron_ore'', ''coal''], fw_putFuel_resolves = True,
      fw_putInput_resolves = True, fw_start = 0,
      fw_polls = [ex_stall 16000, ex_stall 32000, ex_stall 48000]\<rparr>"

definition ex_no_campfire :: campfire_world where
  "ex_no_campfire =
     \<lparr>cw_campfireNearby = False, cw_hasInput = True, cw_equip_resolves = True,
      cw_block_present = True, cw_activate_resolves = True, cw_start = 0, cw_waits = [],
      cw_end = 0\<rparr>"

definition ex_world :: smelt_world where
  "ex_world =
     \<lparr>sw_furnace = (\<lambda>d. if d = smoker then ex_smoker
                         else if d = blast_furnace then ex_blast else ex_furnace),
      sw_campfire = ex_no_campfire\<rparr>"

text \<open>One bot, with no task running; the parameters of the two example calls.\<close>

definition ex_bots :: "task option registry" where
  "ex_bots = [(''Steve'', None)]"

definition ex_beef_params :: smelt_params where
  "ex_beef_params =
     \<lparr>sp_username = None, sp_itemName = Some ''beef'', sp_preferDevice = None,
      sp_fuelName = None, sp_count = Some 2\<rparr>"

definition ex_default_params :: smelt_params where
  "ex_default_params =
     \<lparr>sp_username = None, sp_itemName = None, sp_preferDevice = None,
      sp_fuelName = None, sp_count = None\<rparr>"

section \<open>Theorems\<close>

subsection \<open>Single-flight task guard\<close>

lemma withTask_running:
  "running (getTask bt) \<Longrightarrow> withTask h bt fn = (Inl another_task_running, getTask bt)"
  by (simp add: withTask_def withTask_enter_def)

lemma withTask_idle:
  "\<not> running (getTask bt) \<Longrightarrow>
   withTask h bt fn =
     (Inr (fst (fn ((getTask bt)\<lparr>running := True, abort := Some h\<rparr>))),
      (snd (fn ((getTask bt)\<lparr>running := True, abort := Some h\<rparr>)))\<lparr>running := False, abort := None\<rparr>)"
  by (simp add: withTask_def withTask_enter_def withTask_exit_def split: prod.splits)

lemma guard_inv_init: "guard_inv sched_init"
  by (simp add: guard_inv_def sched_init_def getTask_def)

lemma guard_inv_step: "guard_inv s \<Longrightarrow> guard_inv (sched_step s e)"
proof (cases e)
  case Invoke
  assume inv: "guard_inv s"
  show ?thesis
  proof (cases "running (tsk s)")
    case True
    with inv Invoke show ?thesis
      by (auto simp: guard_inv_def withTask_enter_def less_Suc_eq)
  next
    case False
    with inv have "in_body s = []" by (simp add: guard_inv_def)
    with inv Invoke False show ?thesis
      by (simp add: guard_inv_def withTask_enter_def)
  qed
next
  case (Settle i r)
  assume inv: "guard_inv s"
  show ?thesis
  proof (cases "i \<in> set (in_body s)")
    case True
    with inv have "in_body s = [i]"
      by (cases "in_body s") (auto simp: guard_inv_def)
    with Settle show ?thesis
      by (simp add: guard_inv_def withTask_exit_def)
  next
    case False
    with inv Settle show ?thesis by simp
  qed
next
  case Cancel
  assume "guard_inv s"
  with Cancel show ?thesis
    by (auto simp: guard_inv_def split: option.splits)
qed

lemma guard_inv_foldl: "guard_inv s \<Longrightarrow> guard_inv (foldl sched_step s evs)"
  by (induction evs arbitrary: s) (simp_all add: guard_inv_step)

lemma guard_inv_run: "guard_inv (sched_run evs)"
  unfolding sched_run_def by (rule guard_inv_foldl [OF guard_inv_init])


lemma two_overlapping:
  "sched_run [Invoke, Invoke, Settle 0 r] =
     \<lparr>tsk = \<lparr>running = False, abort = None\<rparr>, next_id = 2, in_body = [], rejected = [1],
      settled = [(0, r)], aborted = []\<rparr>"
  by (simp add: sched_run_def sched_init_def getTask_def withTask_enter_def withTask_exit_def
      numeral_2_eq_2)

lemma two_overlapping_cancelled:
  "sched_run [Invoke, Cancel, Invoke, Settle 0 r] =
     \<lparr>tsk = \<lparr>running = False, abort = None\<rparr>, next_id = 2, in_body = [], rejected = [1],
      settled = [(0, r)], aborted = [0]\<rparr>"
  by (simp add: sched_run_def sched_init_def getTask_def withTask_enter_def withTask_exit_def
      numeral_2_eq_2)

text \<open>A tool whose action leaves the task state alone: the guard rejects at once while a
  task runs, and otherwise hands on how the action settles and resets the task state.\<close>

lemma withTask_await_idle:
  "\<not> running (getTask bt) \<Longrightarrow>
   withTask_await h bt body =
     map_option (\<lambda>r. (Inr r, (getTask bt)\<lparr>running := False, abort := None\<rparr>)) body"
  by (cases body) (simp_all add: withTask_await_def withTask_enter_def withTask_exit_def Let_def)

lemma withTask_await_busy:
  "running (getTask bt) \<Longrightarrow>
   withTask_await h bt body = Some (Inl another_task_running, getTask bt)"
  by (simp add: withTask_await_def withTask_enter_def Let_def)

lemma withTask_await_settled:
  "withTask_await h bt (Some r) = Some (withTask h bt (\<lambda>t. (r, t)))"
  by (simp add: withTask_await_def withTask_def Let_def split: sum.splits)

text \<open>
  Claim C1. \<^verbatim>\<open>withTask\<close> fails at once with \<^verbatim>\<open>another_task_running\<close>, changing nothing
  and not running the action, when \<^verbatim>\<open>running\<close> is set. Otherwise the action runs with
  \<^verbatim>\<open>running = true\<close> and a fresh abort handle, and however it ends (it returns, it
  throws, or it ends after a cancellation; the action is any function and its outcome any
  value) the \<^verbatim>\<open>finally\<close> block leaves \<^verbatim>\<open>running = false\<close> and \<^verbatim>\<open>abort = null\<close>.
  In every interleaving of invocations, settlements and cancellations on one bot at most
  one action body is open, the flag is set exactly while one is, and a call made while
  it is set is rejected without touching the task. Of two overlapping invocations the
  first runs its body, the second is rejected, and the flag is clear once the first has
  settled, with any outcome and also after a cancellation.
\<close>

theorem withTask_single_flight:
  "(running (getTask bt) \<longrightarrow> withTask h bt fn = (Inl another_task_running, getTask bt)) \<and>
   (\<not> running (getTask bt) \<longrightarrow>
      withTask h bt fn =
        (Inr (fst (fn ((getTask bt)\<lparr>running := True, abort := Some h\<rparr>))),
         (snd (fn ((getTask bt)\<lparr>running := True, abort := Some h\<rparr>)))
           \<lparr>running := False, abort := None\<rparr>)) \<and>
   (\<not> running (getTask bt) \<longrightarrow>
      \<not> running (snd (withTask h bt fn)) \<and> abort (snd (withTask h bt fn)) = None) \<and>
   guard_inv (sched_run evs) \<and>
   length (in_body (sched_run evs)) \<le> 1 \<and>
   (in_body (sched_run evs) = [] \<longrightarrow>
      \<not> running (tsk (sched_run evs)) \<and> abort (tsk (sched_run evs)) = None) \<and>
   (running (tsk s) \<longrightarrow>
      tsk (sched_step s Invoke) = tsk s \<and> in_body (sched_step s Invoke) = in_body s \<and>
      rejected (sched_step s Invoke) = rejected s @ [next_id s]) \<and>
   sched_run [Invoke, Invoke, Settle 0 r] =
     \<lparr>tsk = \<lparr>running = False, abort = None\<rparr>, next_id = 2, in_body = [], rejected = [1],
      settled = [(0, r)], aborted = []\<rparr> \<and>
   sched_run [Invoke, Cancel, Invoke, Settle 0 r] =
     \<lparr>tsk = \<lparr>running = False, abort = None\<rparr>, next_id = 2, in_body = [], rejected = [1],
      settled = [(0, r)], aborted = [0]\<rparr>"
proof -
  have inv: "guard_inv (sched_run evs)" by (rule guard_inv_run)
  have a: "running (getTask bt) \<longrightarrow> withTask h bt fn = (Inl another_task_running, getTask bt)"
    by (simp add: withTask_running)
  have b: "\<not> running (getTask bt) \<longrightarrow>
      withTask h bt fn =
        (Inr (fst (fn ((getTask bt)\<lparr>running := True, abort := Some h\<rparr>))),
         (snd (fn ((getTask bt)\<lparr>running := True, abort := Some h\<rparr>)))
           \<lparr>running := False, abort := None\<rparr>)"
    by (simp add: withTask_idle)
  have c: "\<not> running (getTask bt) \<longrightarrow>
      \<not> running (snd (withTask h bt fn)) \<and> abort (snd (withTask h bt fn)) = None"
    by (simp add: withTask_idle)
  have d: "length (in_body (sched_run evs)) \<le> 1" using inv by (simp add: guard_inv_def)
  have e: "in_body (sched_run evs) = [] \<longrightarrow>
      \<not> running (tsk (sched_run evs)) \<and> abort (tsk (sched_run evs)) = None"
    using inv by (simp add: guard_inv_def)
  have f: "running (tsk s) \<longrightarrow>
      tsk (sched_step s Invoke) = tsk s \<and> in_body (sched_step s Invoke) = in_body s \<and>
      rejected (sched_step s Invoke) = rejected s @ [next_id s]"
    by (simp add: withTask_enter_def)
  from a b c inv d e f two_overlapping [of r] two_overlapping_cancelled [of r]
  show ?thesis by blast
qed

theorem withTask_single_flight_witness:
  "withTask 7 (Some \<lparr>running = True, abort = Some 3\<rparr>) (\<lambda>t. (Returned (5::int), t)) =
     (Inl another_task_running, \<lparr>running = True, abort = Some 3\<rparr>) \<and>
   withTask 7 None (\<lambda>t. (Threw ''dig_timeout'', t)) =
     (Inr (Threw ''dig_timeout'' :: int outcome), \<lparr>running = False, abort = None\<rparr>) \<and>
   length (in_body (sched_run [Invoke, Invoke, Cancel])) \<le> 1 \<and>
   rejected (sched_step (sched_run [Invoke]) Invoke) = [1]"
proof -
  have busy: "running (getTask (Some \<lparr>running = True, abort = Some 3\<rparr>))"
    by (simp add: getTask_def)
  have idle: "\<not> running (getTask None)" by (simp add: getTask_def)
  have started: "running (tsk (sched_run [Invoke]))"
    by (simp add: sched_run_def sched_init_def getTask_def withTask_enter_def)
  have r0: "rejected (sched_run [Invoke]) = []" and n0: "next_id (sched_run [Invoke]) = 1"
    by (simp_all add: sched_run_def sched_init_def getTask_def withTask_enter_def)
  from busy idle started r0 n0
    withTask_single_flight [where bt = "Some \<lparr>running = True, abort = Some 3\<rparr>" and h = 7
      and fn = "\<lambda>t. (Returned (5::int), t)" and evs = "[Invoke, Invoke, Cancel]"
      and s = "sched_run [Invoke]"]
    withTask_single_flight [where bt = None and h = 7
      and fn = "\<lambda>t. (Threw ''dig_timeout'' :: int outcome, t)"]
  show ?thesis by (simp add: getTask_def)
qed

subsection \<open>Bot registry\<close>

lemma update_fresh: "map_of r k = None \<Longrightarrow> AList.update k v r = r @ [(k, v)]"
  by (induction r) auto

lemma delete_filter: "AList.delete k r = filter (\<lambda>(k', v). k' \<noteq> k) r"
  by (induction r) auto

lemma sorted_wrt_filter_joined:
  "sorted_wrt (<) (map (\<lambda>(k, b). joined b) r) \<Longrightarrow>
   sorted_wrt (<) (map (\<lambda>(k, b). joined b) (filter P r))"
  by (induction r) (auto simp: case_prod_beta)

lemma reg_inv_delete:
  assumes "reg_inv s"
  shows "reg_inv (s\<lparr>reg := bots_delete k (reg s)\<rparr>)"
proof -
  have d: "distinct (map fst (bots_delete k (reg s)))"
    using assms by (simp add: reg_inv_def bots_delete_def distinct_delete)
  have m: "\<forall>(k', b) \<in> set (bots_delete k (reg s)). bot_username b = k' \<and> joined b < joins s"
    using assms by (auto simp: reg_inv_def bots_delete_def delete_filter)
  have so: "sorted_wrt (<) (map (\<lambda>(k, b). joined b) (bots_delete k (reg s)))"
    using assms by (simp add: reg_inv_def bots_delete_def delete_filter sorted_wrt_filter_joined)
  from d m so show ?thesis by (simp add: reg_inv_def)
qed

lemma reg_inv_join:
  assumes inv: "reg_inv s" and fresh: "\<not> bots_has (reg s) u"
  shows "reg_inv (s\<lparr>reg := bots_set u \<lparr>bot_username = u, joined = joins s\<rparr> (reg s),
                    joins := Suc (joins s)\<rparr>)"
proof -
  from fresh have none: "map_of (reg s) u = None" by (simp add: bots_has_def)
  then have upd: "bots_set u \<lparr>bot_username = u, joined = joins s\<rparr> (reg s) =
      reg s @ [(u, \<lparr>bot_username = u, joined = joins s\<rparr>)]"
    by (simp add: bots_set_def update_fresh)
  from none have notin: "u \<notin> fst ` set (reg s)" by (simp add: map_of_eq_None_iff)
  have d: "distinct (map fst (reg s @ [(u, \<lparr>bot_username = u, joined = joins s\<rparr>)]))"
    using inv notin by (simp add: reg_inv_def)
  have m: "\<forall>(k', b) \<in> set (reg s @ [(u, \<lparr>bot_username = u, joined = joins s\<rparr>)]).
             bot_username b = k' \<and> joined b < Suc (joins s)"
    using inv by (auto simp: reg_inv_def less_Suc_eq)
  have so: "sorted_wrt (<) (map (\<lambda>(k, b). joined b) (reg s @ [(u, \<lparr>bot_username = u, joined = joins s\<rparr>)]))"
    using inv by (auto simp: reg_inv_def sorted_wrt_append)
  from d m so upd show ?thesis by (simp add: reg_inv_def)
qed

lemma reg_inv_step: "reg_inv s \<Longrightarrow> reg_inv (reg_step s e)"
proof (cases e)
  case (Join u)
  assume "reg_inv s"
  with Join show ?thesis by (simp add: reg_inv_join)
next
  case (End_of u b)
  assume "reg_inv s"
  with End_of show ?thesis by (simp add: reg_inv_delete)
next
  case (Leave u)
  assume "reg_inv s"
  with Leave show ?thesis by (simp add: reg_inv_delete split: sum.splits)
next
  case LeaveAll
  assume "reg_inv s"
  with LeaveAll show ?thesis by (simp add: reg_inv_def)
qed

lemma reg_inv_foldl: "reg_inv s \<Longrightarrow> reg_inv (foldl reg_step s evs)"
  by (induction evs arbitrary: s) (simp_all add: reg_inv_step)

lemma reg_inv_run: "reg_inv (reg_run evs)"
  unfolding reg_run_def by (rule reg_inv_foldl) (simp add: reg_inv_def reg_init_def)

lemma getBot_named_found:
  "u \<noteq> [] \<Longrightarrow> map_of bots u = Some b \<Longrightarrow> getBotOrThrow (Some u) bots = Inr b"
  by (simp add: getBotOrThrow_def truthy_str_def bots_has_def bots_get_def)

lemma getBot_named_missing:
  "u \<noteq> [] \<Longrightarrow> map_of bots u = None \<Longrightarrow>
   getBotOrThrow (Some u) bots = Inl (Error (''Bot '' @ [quote] @ u @ [quote] @ '' not found''))"
  by (simp add: getBotOrThrow_def truthy_str_def bots_has_def bots_get_def)

lemma getBot_anonymous:
  "\<not> truthy_str username \<Longrightarrow>
   getBotOrThrow username bots =
     (case bots of [] \<Rightarrow> Inl (Error ''No active bots. Use joinGame first.'')
      | (k, first) # rest \<Rightarrow> Inr first)"
  by (simp add: getBotOrThrow_def bots_values_def split: list.splits)

lemma first_is_earliest:
  assumes "reg_inv s" and "getBotOrThrow None (reg s) = Inr b" and "(k, b') \<in> set (reg s)"
  shows "joined b \<le> joined b'"
proof (cases "reg s")
  case Nil
  with assms(3) show ?thesis by simp
next
  case (Cons p rest)
  obtain k0 b0 where p: "p = (k0, b0)" by (cases p)
  from assms(2) Cons p have b: "b = b0"
    by (simp add: getBot_anonymous truthy_str_def)
  from assms(1) Cons p have "\<forall>x \<in> set rest. joined b0 < (case x of (k, c) \<Rightarrow> joined c)"
    by (simp add: reg_inv_def)
  with assms(3) Cons p b show ?thesis by auto
qed

lemma reg_run_snoc: "reg_run (evs @ [e]) = reg_step (reg_run evs) e"
  by (simp add: reg_run_def)

lemma reg_run_append: "reg_run (evs @ post) = foldl reg_step (reg_run evs) post"
  by (simp add: reg_run_def)

lemma getBot_in_registry:
  "getBotOrThrow w r = Inr c \<Longrightarrow> \<exists>k. (k, c) \<in> set r"
proof (cases "truthy_str w \<and> bots_has r (the w)")
  case True
  assume g: "getBotOrThrow w r = Inr c"
  from True obtain v where v: "map_of r (the w) = Some v" by (auto simp: bots_has_def)
  with g True have "v = c" by (simp add: getBotOrThrow_def bots_get_def)
  with v have "(the w, c) \<in> set r" by (simp add: map_of_SomeD)
  then show ?thesis by blast
next
  case False
  assume g: "getBotOrThrow w r = Inr c"
  with False show ?thesis
    by (cases r) (auto simp: getBotOrThrow_def bots_values_def split: if_splits)
qed

lemma registered_key:
  assumes "reg_inv s" and "(k, c) \<in> set (reg s)"
  shows "bot_username c = k" and "map_of (reg s) k = Some c" and "joined c < joins s"
proof -
  from assms show "bot_username c = k" by (auto simp: reg_inv_def)
  from assms show "map_of (reg s) k = Some c" by (simp add: reg_inv_def)
  from assms show "joined c < joins s" by (auto simp: reg_inv_def)
qed

lemma delete_is_removal:
  assumes inv: "reg_inv s" and c: "map_of (reg s) n = Some c"
  shows "bots_delete n (reg s) = filter (\<lambda>(k, v). v \<noteq> c) (reg s)"
proof -
  from c have mem: "(n, c) \<in> set (reg s)" by (rule map_of_SomeD)
  have "\<And>k v. (k, v) \<in> set (reg s) \<Longrightarrow> (k \<noteq> n) = (v \<noteq> c)"
  proof -
    fix k v assume kv: "(k, v) \<in> set (reg s)"
    from registered_key [OF inv kv] have kv1: "bot_username v = k" and kv2: "map_of (reg s) k = Some v"
      by simp_all
    from registered_key [OF inv mem] have nc: "bot_username c = n" by simp
    show "(k \<noteq> n) = (v \<noteq> c)"
    proof (cases "k = n")
      case True
      with kv2 c show ?thesis by simp
    next
      case False
      with kv1 nc show ?thesis by blast
    qed
  qed
  then have "filter (\<lambda>(k, v). k \<noteq> n) (reg s) = filter (\<lambda>(k, v). v \<noteq> c) (reg s)"
    by (intro filter_cong) auto
  then show ?thesis by (simp add: bots_delete_def delete_filter)
qed

lemma step_join_fresh:
  "\<not> bots_has (reg s) n \<Longrightarrow>
   reg (reg_step s (Join n)) = reg s @ [(n, \<lparr>bot_username = n, joined = joins s\<rparr>)]"
  by (simp add: bots_has_def bots_set_def update_fresh)

lemma step_join_taken: "bots_has (reg s) n \<Longrightarrow> reg_step s (Join n) = s"
  by simp

lemma step_end:
  "reg_inv s \<Longrightarrow> bots_get (reg s) n = Some c \<Longrightarrow>
   reg (reg_step s (End_of n c)) = filter (\<lambda>(k, v). v \<noteq> c) (reg s)"
  by (simp add: bots_get_def delete_is_removal)

lemma step_end_stale: "bots_get (reg s) n \<noteq> Some c \<Longrightarrow> reg_step s (End_of n c) = s"
  by simp

lemma step_leave:
  assumes inv: "reg_inv s" and g: "getBotOrThrow w (reg s) = Inr c"
  shows "reg (reg_step s (Leave w)) = filter (\<lambda>(k, v). v \<noteq> c) (reg s)"
proof -
  from getBot_in_registry [OF g] obtain k where k: "(k, c) \<in> set (reg s)" by blast
  from registered_key [OF inv k] have "map_of (reg s) (bot_username c) = Some c" by simp
  from delete_is_removal [OF inv this] g show ?thesis by simp
qed

lemma step_leave_fails: "getBotOrThrow w (reg s) = Inl e \<Longrightarrow> reg_step s (Leave w) = s"
  by simp

text \<open>A bot that has left the registry is never registered again: a later join creates a
  bot with a larger join number.\<close>

lemma gone_step: "gone c s \<Longrightarrow> gone c (reg_step s e)"
proof -
  assume g: "gone c s"
  then have inv: "reg_inv (reg_step s e)" by (simp add: gone_def reg_inv_step)
  have j: "joined c < joins (reg_step s e)"
    using g by (cases e) (auto simp: gone_def split: sum.splits)
  have "c \<notin> snd ` set (reg (reg_step s e))"
  proof (cases e)
    case (Join n)
    show ?thesis
    proof (cases "bots_has (reg s) n")
      case True
      with g Join show ?thesis by (simp add: gone_def)
    next
      case False
      from g have "c \<noteq> \<lparr>bot_username = n, joined = joins s\<rparr>" by (auto simp: gone_def)
      with g Join False step_join_fresh [OF False] show ?thesis
        by (auto simp: gone_def simp del: reg_step.simps)
    qed
  next
    case (End_of n b)
    with g show ?thesis
      by (auto simp: gone_def bots_delete_def delete_filter)
  next
    case (Leave w)
    with g show ?thesis
      by (auto simp: gone_def bots_delete_def delete_filter split: sum.splits)
  next
    case LeaveAll
    then show ?thesis by simp
  qed
  with inv j show ?thesis by (simp add: gone_def)
qed

lemma gone_foldl: "gone c s \<Longrightarrow> gone c (foldl reg_step s post)"
  by (induction post arbitrary: s) (simp_all add: gone_step)

lemma ended_is_gone:
  assumes inv: "reg_inv s" and mem: "(n, c) \<in> set (reg s)"
  shows "gone c (reg_step s (End_of n c))"
proof -
  from registered_key [OF inv mem] have m: "bots_get (reg s) n = Some c" and j: "joined c < joins s"
    by (simp_all add: bots_get_def)
  from step_end [OF inv m] have "c \<notin> snd ` set (reg (reg_step s (End_of n c)))" by auto
  moreover from m j have "joined c < joins (reg_step s (End_of n c))" by simp
  moreover from inv have "reg_inv (reg_step s (End_of n c))" by (rule reg_inv_step)
  ultimately show ?thesis by (simp add: gone_def)
qed

lemma ended_never_resolved:
  assumes mem: "(n, c) \<in> set (reg (reg_run evs))"
  shows "getBotOrThrow w (reg (reg_run (evs @ End_of n c # post))) \<noteq> Inr c"
proof
  assume g: "getBotOrThrow w (reg (reg_run (evs @ End_of n c # post))) = Inr c"
  from ended_is_gone [OF reg_inv_run mem]
  have "gone c (foldl reg_step (reg_step (reg_run evs) (End_of n c)) post)" by (rule gone_foldl)
  then have "c \<notin> snd ` set (reg (reg_run (evs @ End_of n c # post)))"
    by (simp add: gone_def reg_run_def)
  moreover from getBot_in_registry [OF g] have "c \<in> snd ` set (reg (reg_run (evs @ End_of n c # post)))"
    by force
  ultimately show False by simp
qed

text \<open>
  Claim C10. With a non-empty user name \<^verbatim>\<open>getBotOrThrow\<close> returns the bot registered
  under exactly that name, or throws \<^verbatim>\<open>Bot '<username>' not found\<close>. With the name
  omitted (\<^verbatim>\<open>undefined\<close>) or empty it returns the first bot of the registry in insertion
  order without failing, and throws \<^verbatim>\<open>No active bots. Use joinGame first.\<close> only when
  the registry is empty. After any sequence of joins, \<^verbatim>\<open>end\<close> events and leaves, the
  bot returned for an omitted or empty name is the one that joined earliest among the
  bots still registered. The registry follows the connections: a join under a free name
  appends the new bot after all the others and a join under a taken name changes nothing;
  the \<^verbatim>\<open>end\<close> event of a registered bot and a \<^verbatim>\<open>leaveGame\<close> that resolves a bot
  remove exactly that bot and keep the order of the others, the \<^verbatim>\<open>end\<close> event of a
  bot that is not the registered one changes nothing, and \<^verbatim>\<open>disconnectAll\<close> empties the
  registry. A bot whose connection has ended is never returned again, whatever happens
  afterwards and whatever name is asked for.
\<close>

theorem getBotOrThrow_resolution:
  "(u \<noteq> [] \<and> map_of bots u = Some b \<longrightarrow> getBotOrThrow (Some u) bots = Inr b) \<and>
   (u \<noteq> [] \<and> map_of bots u = None \<longrightarrow>
      getBotOrThrow (Some u) bots = Inl (Error (''Bot '' @ [quote] @ u @ [quote] @ '' not found''))) \<and>
   getBotOrThrow None [] = (Inl (Error ''No active bots. Use joinGame first.'') :: js_error + 'b) \<and>
   getBotOrThrow (Some []) [] = (Inl (Error ''No active bots. Use joinGame first.'') :: js_error + 'b) \<and>
   getBotOrThrow None ((k, first) # rest) = Inr first \<and>
   getBotOrThrow (Some []) ((k, first) # rest) = Inr first \<and>
   (reg (reg_run evs) \<noteq> [] \<longrightarrow>
      (\<exists>e. getBotOrThrow None (reg (reg_run evs)) = Inr e \<and>
           getBotOrThrow (Some []) (reg (reg_run evs)) = Inr e \<and>
           (\<forall>(n, c) \<in> set (reg (reg_run evs)). joined e \<le> joined c))) \<and>
   (\<not> bots_has (reg (reg_run evs)) n \<longrightarrow>
      reg (reg_run (evs @ [Join n])) =
        reg (reg_run evs) @ [(n, \<lparr>bot_username = n, joined = joins (reg_run evs)\<rparr>)]) \<and>
   (bots_has (reg (reg_run evs)) n \<longrightarrow> reg_run (evs @ [Join n]) = reg_run evs) \<and>
   (bots_get (reg (reg_run evs)) n = Some c \<longrightarrow>
      reg (reg_run (evs @ [End_of n c])) = filter (\<lambda>(k, v). v \<noteq> c) (reg (reg_run evs))) \<and>
   (bots_get (reg (reg_run evs)) n \<noteq> Some c \<longrightarrow> reg_run (evs @ [End_of n c]) = reg_run evs) \<and>
   (getBotOrThrow w (reg (reg_run evs)) = Inr c \<longrightarrow>
      reg (reg_run (evs @ [Leave w])) = filter (\<lambda>(k, v). v \<noteq> c) (reg (reg_run evs))) \<and>
   (getBotOrThrow w (reg (reg_run evs)) = Inl err \<longrightarrow> reg_run (evs @ [Leave w]) = reg_run evs) \<and>
   reg (reg_run (evs @ [LeaveAll])) = [] \<and>
   ((n, c) \<in> set (reg (reg_run evs)) \<longrightarrow>
      getBotOrThrow w (reg (reg_run (evs @ End_of n c # post))) \<noteq> Inr c)"
proof -
  have inv: "reg_inv (reg_run evs)" by (rule reg_inv_run)
  have last: "reg (reg_run evs) \<noteq> [] \<longrightarrow>
      (\<exists>e. getBotOrThrow None (reg (reg_run evs)) = Inr e \<and>
           getBotOrThrow (Some []) (reg (reg_run evs)) = Inr e \<and>
           (\<forall>(n, c) \<in> set (reg (reg_run evs)). joined e \<le> joined c))"
  proof
    assume ne: "reg (reg_run evs) \<noteq> []"
    then obtain k0 b0 rest0 where r: "reg (reg_run evs) = (k0, b0) # rest0"
      by (cases "reg (reg_run evs)") auto
    then have g1: "getBotOrThrow None (reg (reg_run evs)) = Inr b0"
      and g2: "getBotOrThrow (Some []) (reg (reg_run evs)) = Inr b0"
      by (simp_all add: getBot_anonymous truthy_str_def)
    have "\<forall>(n, c) \<in> set (reg (reg_run evs)). joined b0 \<le> joined c"
      using first_is_earliest [OF inv g1] by auto
    with g1 g2 show "\<exists>e. getBotOrThrow None (reg (reg_run evs)) = Inr e \<and>
           getBotOrThrow (Some []) (reg (reg_run evs)) = Inr e \<and>
           (\<forall>(n, c) \<in> set (reg (reg_run evs)). joined e \<le> joined c)"
      by blast
  qed
  have k1: "u \<noteq> [] \<and> map_of bots u = Some b \<longrightarrow> getBotOrThrow (Some u) bots = Inr b"
    by (simp add: getBot_named_found)
  have k2: "u \<noteq> [] \<and> map_of bots u = None \<longrightarrow>
        getBotOrThrow (Some u) bots = Inl (Error (''Bot '' @ [quote] @ u @ [quote] @ '' not found''))"
    by (simp add: getBot_named_missing)
  have k3: "getBotOrThrow None [] = (Inl (Error ''No active bots. Use joinGame first.'') :: js_error + 'b)"
    by (simp add: getBot_anonymous truthy_str_def)
  have k4: "getBotOrThrow (Some []) [] = (Inl (Error ''No active bots. Use joinGame first.'') :: js_error + 'b)"
    by (simp add: getBot_anonymous truthy_str_def)
  have k5: "getBotOrThrow None ((k, first) # rest) = Inr first"
    by (simp add: getBot_anonymous truthy_str_def)
  have k6: "getBotOrThrow (Some []) ((k, first) # rest) = Inr first"
    by (simp add: getBot_anonymous truthy_str_def)
  have j1: "\<not> bots_has (reg (reg_run evs)) n \<longrightarrow>
      reg (reg_run (evs @ [Join n])) =
        reg (reg_run evs) @ [(n, \<lparr>bot_username = n, joined = joins (reg_run evs)\<rparr>)]"
    unfolding reg_run_snoc by (rule impI) (rule step_join_fresh)
  have j2: "bots_has (reg (reg_run evs)) n \<longrightarrow> reg_run (evs @ [Join n]) = reg_run evs"
    unfolding reg_run_snoc by (rule impI) (rule step_join_taken)
  have e1: "bots_get (reg (reg_run evs)) n = Some c \<longrightarrow>
      reg (reg_run (evs @ [End_of n c])) = filter (\<lambda>(k, v). v \<noteq> c) (reg (reg_run evs))"
    unfolding reg_run_snoc by (rule impI) (rule step_end [OF inv])
  have e2: "bots_get (reg (reg_run evs)) n \<noteq> Some c \<longrightarrow> reg_run (evs @ [End_of n c]) = reg_run evs"
    unfolding reg_run_snoc by (rule impI) (rule step_end_stale)
  have l1: "getBotOrThrow w (reg (reg_run evs)) = Inr c \<longrightarrow>
      reg (reg_run (evs @ [Leave w])) = filter (\<lambda>(k, v). v \<noteq> c) (reg (reg_run evs))"
    unfolding reg_run_snoc by (rule impI) (rule step_leave [OF inv])
  have l2: "getBotOrThrow w (reg (reg_run evs)) = Inl err \<longrightarrow> reg_run (evs @ [Leave w]) = reg_run evs"
    unfolding reg_run_snoc by (rule impI) (rule step_leave_fails)
  have la: "reg (reg_run (evs @ [LeaveAll])) = []"
    by (simp add: reg_run_snoc)
  have en: "(n, c) \<in> set (reg (reg_run evs)) \<longrightarrow>
      getBotOrThrow w (reg (reg_run (evs @ End_of n c # post))) \<noteq> Inr c"
    by (rule impI) (rule ended_never_resolved)
  show ?thesis
    by (intro conjI k1 k2 k3 k4 k5 k6 last j1 j2 e1 e2 l1 l2 la en)
qed

lemma reg_example:
  "reg (reg_run [Join ''alex'', Join ''bo'', Join ''cy'', Leave (Some ''alex'')]) =
     [(''bo'', \<lparr>bot_username = ''bo'', joined = 1\<rparr>), (''cy'', \<lparr>bot_username = ''cy'', joined = 2\<rparr>)]"
  by (simp add: reg_run_def reg_init_def bots_has_def bots_set_def bots_delete_def bots_get_def
      getBotOrThrow_def truthy_str_def)

lemma reg_example_joined:
  "reg (reg_run [Join ''alex'', Join ''bo'', Join ''cy'']) =
     [(''alex'', \<lparr>bot_username = ''alex'', joined = 0\<rparr>),
      (''bo'', \<lparr>bot_username = ''bo'', joined = 1\<rparr>), (''cy'', \<lparr>bot_username = ''cy'', joined = 2\<rparr>)]"
  by (simp add: reg_run_def reg_init_def bots_has_def bots_set_def)

theorem getBotOrThrow_resolution_witness:
  "getBotOrThrow (Some ''cy'')
      (reg (reg_run [Join ''alex'', Join ''bo'', Join ''cy'', Leave (Some ''alex'')])) =
     Inr \<lparr>bot_username = ''cy'', joined = 2\<rparr> \<and>
   getBotOrThrow (Some ''alex'')
      (reg (reg_run [Join ''alex'', Join ''bo'', Join ''cy'', Leave (Some ''alex'')])) =
     Inl (Error (''Bot '' @ [quote] @ ''alex'' @ [quote] @ '' not found'')) \<and>
   getBotOrThrow None
      (reg (reg_run [Join ''alex'', Join ''bo'', Join ''cy'', Leave (Some ''alex'')])) =
     Inr \<lparr>bot_username = ''bo'', joined = 1\<rparr> \<and>
   (\<exists>e. getBotOrThrow (Some [])
          (reg (reg_run [Join ''alex'', Join ''bo'', Join ''cy'', Leave (Some ''alex'')])) = Inr e \<and>
        joined e \<le> 1 \<and> joined e \<le> 2) \<and>
   reg (reg_run ([Join ''alex'', Join ''bo'', Join ''cy''] @
                 [End_of ''alex'' \<lparr>bot_username = ''alex'', joined = 0\<rparr>])) =
     [(''bo'', \<lparr>bot_username = ''bo'', joined = 1\<rparr>), (''cy'', \<lparr>bot_username = ''cy'', joined = 2\<rparr>)] \<and>
   getBotOrThrow None
      (reg (reg_run ([Join ''alex'', Join ''bo'', Join ''cy''] @
                     End_of ''alex'' \<lparr>bot_username = ''alex'', joined = 0\<rparr> # [Join ''alex'']))) \<noteq>
     Inr \<lparr>bot_username = ''alex'', joined = 0\<rparr>"
proof -
  let ?r = "reg (reg_run [Join ''alex'', Join ''bo'', Join ''cy'', Leave (Some ''alex'')])"
  let ?j = "[Join ''alex'', Join ''bo'', Join ''cy'']"
  let ?a = "\<lparr>bot_username = ''alex'', joined = 0\<rparr>"
  have ne: "?r \<noteq> []" by (simp add: reg_example)
  have cy: "''cy'' \<noteq> [] \<and> map_of ?r ''cy'' = Some \<lparr>bot_username = ''cy'', joined = 2\<rparr>"
    by (simp add: reg_example)
  have alex: "''alex'' \<noteq> [] \<and> map_of ?r ''alex'' = None"
    by (simp add: reg_example)
  note T = getBotOrThrow_resolution [where u = "''cy''" and bots = ?r
      and b = "\<lparr>bot_username = ''cy'', joined = 2\<rparr>"
      and evs = "[Join ''alex'', Join ''bo'', Join ''cy'', Leave (Some ''alex'')]"]
  from cy T [THEN conjunct1]
  have one: "getBotOrThrow (Some ''cy'') ?r = Inr \<lparr>bot_username = ''cy'', joined = 2\<rparr>"
    by (rule rev_mp)
  from ne T [THEN conjunct2, THEN conjunct2, THEN conjunct2, THEN conjunct2, THEN conjunct2,
      THEN conjunct2, THEN conjunct1]
  have ex: "\<exists>e. getBotOrThrow None ?r = Inr e \<and> getBotOrThrow (Some []) ?r = Inr e \<and>
           (\<forall>(n, c) \<in> set ?r. joined e \<le> joined c)"
    by (rule rev_mp)
  note U = getBotOrThrow_resolution [where u = "''alex''" and bots = ?r]
  from alex U [THEN conjunct2, THEN conjunct1]
  have two: "getBotOrThrow (Some ''alex'') ?r =
      Inl (Error (''Bot '' @ [quote] @ ''alex'' @ [quote] @ '' not found''))"
    by (rule rev_mp)
  have three: "getBotOrThrow None ?r = Inr \<lparr>bot_username = ''bo'', joined = 1\<rparr>"
    by (simp add: reg_example getBot_anonymous truthy_str_def)
  from ex have four: "\<exists>e. getBotOrThrow (Some []) ?r = Inr e \<and> joined e \<le> 1 \<and> joined e \<le> 2"
    by (auto simp: reg_example)
  note V = getBotOrThrow_resolution [where evs = ?j and n = "''alex''" and c = ?a
      and w = None and post = "[Join ''alex'']"]
  have reg_a: "bots_get (reg (reg_run ?j)) ''alex'' = Some ?a"
    by (simp add: reg_example_joined bots_get_def)
  from reg_a V [THEN conjunct2, THEN conjunct2, THEN conjunct2, THEN conjunct2, THEN conjunct2,
      THEN conjunct2, THEN conjunct2, THEN conjunct2, THEN conjunct2, THEN conjunct1]
  have "reg (reg_run (?j @ [End_of ''alex'' ?a])) = filter (\<lambda>(k, v). v \<noteq> ?a) (reg (reg_run ?j))"
    by (rule rev_mp)
  then have five: "reg (reg_run (?j @ [End_of ''alex'' ?a])) =
      [(''bo'', \<lparr>bot_username = ''bo'', joined = 1\<rparr>), (''cy'', \<lparr>bot_username = ''cy'', joined = 2\<rparr>)]"
    by (simp add: reg_example_joined)
  have mem: "(''alex'', ?a) \<in> set (reg (reg_run ?j))"
    by (simp add: reg_example_joined)
  from mem V [THEN conjunct2, THEN conjunct2, THEN conjunct2, THEN conjunct2, THEN conjunct2,
      THEN conjunct2, THEN conjunct2, THEN conjunct2, THEN conjunct2, THEN conjunct2,
      THEN conjunct2, THEN conjunct2, THEN conjunct2, THEN conjunct2]
  have six: "getBotOrThrow None (reg (reg_run (?j @ End_of ''alex'' ?a # [Join ''alex'']))) \<noteq> Inr ?a"
    by (rule rev_mp)
  from one two three four five six show ?thesis by blast
qed

subsection \<open>Suspension counter\<close>

lemma suspend_ok_init: "suspend_ok suspend_init"
  by (simp add: suspend_ok_def suspend_init_def num_or_0_def)

lemma suspend_ok_push: "suspend_ok s \<Longrightarrow> suspend_ok (pushSuspendAutoEat s)"
  by (simp add: suspend_ok_def pushSuspendAutoEat_def num_or_0_def Let_def)

lemma suspend_ok_pop: "suspend_ok (popSuspendAutoEat s)"
  by (simp add: suspend_ok_def popSuspendAutoEat_def num_or_0_def Let_def)

lemma suspend_ok_step: "suspend_ok s \<Longrightarrow> suspend_ok (suspend_step s c)"
  by (cases c) (simp_all add: suspend_ok_push suspend_ok_pop)

lemma suspend_ok_foldl: "suspend_ok s \<Longrightarrow> suspend_ok (foldl suspend_step s calls)"
  by (induction calls arbitrary: s) (simp_all add: suspend_ok_step)

lemma push_pop_count:
  "0 \<le> num_or_0 (suspendAutoEatCount s) \<Longrightarrow>
   num_or_0 (suspendAutoEatCount (popSuspendAutoEat (pushSuspendAutoEat s))) =
     num_or_0 (suspendAutoEatCount s)"
  by (simp add: popSuspendAutoEat_def pushSuspendAutoEat_def num_or_0_def Let_def)

lemma push_pop_flag:
  "suspend_ok s \<Longrightarrow>
   suspendAutoEat (popSuspendAutoEat (pushSuspendAutoEat s)) = suspendAutoEat s"
  by (simp add: suspend_ok_def popSuspendAutoEat_def pushSuspendAutoEat_def num_or_0_def Let_def)

text \<open>
  Claim C4. Starting from a fresh bot, after every sequence of \<^verbatim>\<open>pushSuspendAutoEat\<close>
  and \<^verbatim>\<open>popSuspendAutoEat\<close> calls, balanced or not, \<^verbatim>\<open>__suspendAutoEatCount\<close> is
  not negative and \<^verbatim>\<open>__suspendAutoEat\<close> equals \<open>count > 0\<close>. A pop establishes both
  from any state whatever; a pop at zero leaves zero.
\<close>

theorem suspend_count_never_negative:
  "0 \<le> num_or_0 (suspendAutoEatCount (suspend_run calls)) \<and>
   suspendAutoEat (suspend_run calls) = (0 < num_or_0 (suspendAutoEatCount (suspend_run calls))) \<and>
   suspend_ok (suspend_run calls) \<and>
   suspend_ok (popSuspendAutoEat s) \<and>
   (suspend_ok s \<longrightarrow> suspend_ok (pushSuspendAutoEat s)) \<and>
   (num_or_0 (suspendAutoEatCount s) \<le> 0 \<longrightarrow>
      suspendAutoEatCount (popSuspendAutoEat s) = Some 0)"
proof -
  have ok: "suspend_ok (suspend_run calls)"
    unfolding suspend_run_def by (rule suspend_ok_foldl [OF suspend_ok_init])
  have z: "num_or_0 (suspendAutoEatCount s) \<le> 0 \<longrightarrow>
      suspendAutoEatCount (popSuspendAutoEat s) = Some 0"
    by (simp add: popSuspendAutoEat_def Let_def)
  from ok z show ?thesis
    by (simp add: suspend_ok_def [of "suspend_run calls"] suspend_ok_pop suspend_ok_push)
qed

theorem suspend_count_never_negative_witness:
  "suspendAutoEatCount (suspend_run [Pop, Push, Push, Pop, Pop, Pop]) = Some 0 \<and>
   \<not> suspendAutoEat (suspend_run [Pop, Push, Push, Pop, Pop, Pop]) \<and>
   0 \<le> num_or_0 (suspendAutoEatCount (suspend_run [Pop, Push, Push, Pop])) \<and>
   suspendAutoEat (suspend_run [Pop, Push, Push, Pop]) \<and>
   suspend_ok (pushSuspendAutoEat suspend_init)"
proof -
  have a: "suspendAutoEatCount (suspend_run [Pop, Push, Push, Pop, Pop, Pop]) = Some 0"
    by (simp add: suspend_run_def suspend_init_def pushSuspendAutoEat_def popSuspendAutoEat_def
        num_or_0_def Let_def)
  have b: "suspendAutoEatCount (suspend_run [Pop, Push, Push, Pop]) = Some 1"
    by (simp add: suspend_run_def suspend_init_def pushSuspendAutoEat_def popSuspendAutoEat_def
        num_or_0_def Let_def)
  from a b suspend_ok_init
    suspend_count_never_negative [of "[Pop, Push, Push, Pop, Pop, Pop]" suspend_init]
    suspend_count_never_negative [of "[Pop, Push, Push, Pop]" suspend_init]
  show ?thesis by (simp add: num_or_0_def)
qed

subsection \<open>Equip operations and the suspension flag\<close>

text \<open>
  The equip helpers that bracket \<^verbatim>\<open>bot.equip\<close>: every call they log was made with the
  flag set, and the count and the flag are back at their values when they return,
  whether the equip resolved or rejected.
\<close>

lemma equipItem_bracketed:
  assumes "suspend_ok (susp b)"
  shows "(\<forall>e \<in> set (new_equips b (snd (equipItem itemName destination equip_resolves b))).
            snd (snd e)) \<and>
         num_or_0 (suspendAutoEatCount (susp (snd (equipItem itemName destination equip_resolves b)))) =
           num_or_0 (suspendAutoEatCount (susp b)) \<and>
         suspendAutoEat (susp (snd (equipItem itemName destination equip_resolves b))) =
           suspendAutoEat (susp b)"
proof (cases "find (\<lambda>n. n = itemName) (inventory_names b)")
  case None
  then show ?thesis by (simp add: equipItem_def new_equips_def Let_def)
next
  case (Some item)
  from assms have c: "0 \<le> num_or_0 (suspendAutoEatCount (susp b))" by (simp add: suspend_ok_def)
  from Some show ?thesis
    using push_pop_count [OF c] push_pop_flag [OF assms]
    by (simp add: equipItem_def new_equips_def bot_equip_def Let_def pushSuspendAutoEat_def)
qed

lemma equipBowIfAvailable_bracketed:
  assumes "suspend_ok (susp b)"
  shows "(\<forall>e \<in> set (new_equips b (snd (equipBowIfAvailable equip_resolves b))). snd (snd e)) \<and>
         num_or_0 (suspendAutoEatCount (susp (snd (equipBowIfAvailable equip_resolves b)))) =
           num_or_0 (suspendAutoEatCount (susp b)) \<and>
         suspendAutoEat (susp (snd (equipBowIfAvailable equip_resolves b))) =
           suspendAutoEat (susp b)"
proof (cases "find (\<lambda>n. n = ''bow'') (inventory_names b)")
  case None
  then show ?thesis by (simp add: equipBowIfAvailable_def new_equips_def)
next
  case (Some bow)
  from assms have c: "0 \<le> num_or_0 (suspendAutoEatCount (susp b))" by (simp add: suspend_ok_def)
  from Some show ?thesis
    using push_pop_count [OF c] push_pop_flag [OF assms]
    by (simp add: equipBowIfAvailable_def new_equips_def bot_equip_def Let_def
        pushSuspendAutoEat_def)
qed

text \<open>
  Claim C3 (the code departs from it). \<^verbatim>\<open>equipBestMeleeWeapon\<close> calls \<^verbatim>\<open>bot.equip\<close>
  with no push before and no pop after it: for a fresh bot that holds an iron sword,
  the call is logged with \<^verbatim>\<open>__suspendAutoEat\<close> false and the count is never touched.
  The same holds through the weapon choice of the damage handler when the bot has no bow.
\<close>

theorem equipBestMeleeWeapon_not_suspended:
  "equipBestMeleeWeapon True
      \<lparr>susp = suspend_init, inventory_names = [''bread'', ''iron_sword''], equip_calls = []\<rparr> =
     (Inr True,
      \<lparr>susp = suspend_init, inventory_names = [''bread'', ''iron_sword''],
       equip_calls = [(''iron_sword'', ''hand'', False)]\<rparr>) \<and>
   equip_for_fight True True True
      \<lparr>susp = suspend_init, inventory_names = [''bread'', ''iron_sword''], equip_calls = []\<rparr> =
     (Inr (),
      \<lparr>susp = suspend_init, inventory_names = [''bread'', ''iron_sword''],
       equip_calls = [(''iron_sword'', ''hand'', False)]\<rparr>)"
  by (simp add: equipBestMeleeWeapon_def equip_for_fight_def equipBowIfAvailable_def
      melee_preference_def bot_equip_def suspend_init_def)

theorem equipBestMeleeWeapon_not_suspended_witness:
  "map (\<lambda>(item, destination, suspended). suspended)
      (equip_calls (snd (equipBestMeleeWeapon True
         \<lparr>susp = suspend_init, inventory_names = [''bread'', ''iron_sword''],
          equip_calls = []\<rparr>))) = [False] \<and>
   suspendAutoEatCount (susp (snd (equipBestMeleeWeapon True
         \<lparr>susp = suspend_init, inventory_names = [''bread'', ''iron_sword''],
          equip_calls = []\<rparr>))) = None"
  using equipBestMeleeWeapon_not_suspended by (simp add: suspend_init_def)

lemma equipItem_same_sword_suspended:
  "snd (equipItem ''iron_sword'' None True
      \<lparr>susp = suspend_init, inventory_names = [''bread'', ''iron_sword''], equip_calls = []\<rparr>) =
     \<lparr>susp = \<lparr>suspendAutoEatCount = Some 0, suspendAutoEat = False\<rparr>,
      inventory_names = [''bread'', ''iron_sword''],
      equip_calls = [(''iron_sword'', ''hand'', True)]\<rparr>"
  by (simp add: equipItem_def bot_equip_def suspend_init_def pushSuspendAutoEat_def
      popSuspendAutoEat_def num_or_0_def Let_def)

subsection \<open>Status reporter\<close>

lemma getStatus_reads:
  "st_lastDamage (fst (getStatus env b)) = lastDamage b \<and>
   st_lastBroken (fst (getStatus env b)) = lastBroken b \<and>
   st_lastDefense (fst (getStatus env b)) = lastDefense b \<and>
   st_lastDeath (fst (getStatus env b)) = lastDeath b \<and>
   st_lastHungerWarning (fst (getStatus env b)) = lastHungerWarning b"
  by (simp add: getStatus_def Let_def)

lemma getStatus_clears:
  "lastDamage (snd (getStatus env b)) = None \<and>
   lastBroken (snd (getStatus env b)) = None \<and>
   lastDefense (snd (getStatus env b)) = None \<and>
   lastDeath (snd (getStatus env b)) = None \<and>
   lastHungerWarning (snd (getStatus env b)) = None"
  by (simp add: getStatus_def Let_def)

lemma getStatus_twice_after_damage:
  "st_lastDamage (fst (getStatus env (on_entityHurt d b))) = Some d \<and>
   st_lastDamage (fst (getStatus env' (snd (getStatus env (on_entityHurt d b))))) = None"
  by (simp add: getStatus_def on_entityHurt_def Let_def)

lemma registry_apply_get:
  "bots_get bots k = Some b \<Longrightarrow>
   registry_apply k f bots = (Some (fst (f b)), bots_set k (snd (f b)) bots)"
  by (simp add: registry_apply_def split: prod.splits)

lemma bots_get_set: "bots_get (bots_set k v bots) k = Some v"
  by (simp add: bots_get_def bots_set_def update_conv')

text \<open>
  Whatever one-shot events a bot holds when a tool call for it is dispatched, a tool
  that leaves them alone gets a response that shows none of them, and they are gone
  afterwards: the \<^verbatim>\<open>statusBefore\<close> snapshot has read and cleared them, and only its
  health and food are used.
\<close>

lemma sendToolCall_pending_never_shown:
  assumes "u \<noteq> []" and "bots_get bots u = Some b"
    and "\<And>bs. run bs = (Inr action, bs)"
  shows "shown_damage (fst (sendToolCall env (Some u) (Some run) bots)) = None \<and>
         (\<exists>b'. bots_get (snd (sendToolCall env (Some u) (Some run) bots)) u = Some b' \<and>
               lastDamage b' = None)"
proof -
  let ?b1 = "snd (getStatus env b)"
  let ?bots1 = "bots_set u ?b1 bots"
  have before: "registry_apply u (getStatus env) bots = (Some (fst (getStatus env b)), ?bots1)"
    by (rule registry_apply_get [OF assms(2)])
  have get1: "bots_get ?bots1 u = Some ?b1" by (rule bots_get_set)
  have after: "registry_apply u (getStatus env) ?bots1 =
      (Some (fst (getStatus env ?b1)), bots_set u (snd (getStatus env ?b1)) ?bots1)"
    by (rule registry_apply_get [OF get1])
  have none: "st_lastDamage (fst (getStatus env ?b1)) = None"
    by (simp add: getStatus_def Let_def)
  have cleared: "lastDamage (snd (getStatus env ?b1)) = None"
    by (simp add: getStatus_def Let_def)
  from assms(1) before after none cleared show ?thesis
    by (simp add: sendToolCall_def assms(3) shown_damage_def bots_get_set Let_def)
qed

text \<open>
  Claim C2 (the code departs from it). \<^verbatim>\<open>getStatus\<close> itself is read-and-clear, as
  the lemmas above show. But \<^verbatim>\<open>sendToolCall\<close> calls it twice, before and after the
  tool, and shows only the second result. A bot that was hurt by a zombie before the
  call \<^verbatim>\<open>getPosition {username: "Steve"}\<close> arrives: the response carries
  \<^verbatim>\<open>status.lastDamage = null\<close> and \<^verbatim>\<open>delta.lastDamage = null\<close>, and the slot is empty
  afterwards, so the damage event is shown to no caller.
\<close>

theorem sendToolCall_drops_pending_event:
  "sendToolCall () (Some ''Steve'') (Some (\<lambda>bots. (Inr (Some ''getPosition''), bots)))
      [(''Steve'',
        \<lparr>health = 20, food = 20,
         lastDamage = Some \<lparr>dmg_from = ''zombie'', dmg_time = 1000\<rparr>,
         lastBroken = None, lastDefense = None, lastDeath = None, lastHungerWarning = None,
         effects = []\<rparr>)] =
     (Reply (Some ''getPosition'') (Some ''Steve'')
        (Some \<lparr>st_health = 20, st_food = 20, st_lastDamage = None, st_lastBroken = None,
               st_lastDefense = None, st_lastDeath = None, st_lastHungerWarning = None,
               st_effects = [], st_env = ()\<rparr>)
        (Some \<lparr>healthDelta = 0, foodDelta = 0, delta_lastDamage = None\<rparr>),
      [(''Steve'',
        \<lparr>health = 20, food = 20, lastDamage = None,
         lastBroken = None, lastDefense = None, lastDeath = None, lastHungerWarning = None,
         effects = []\<rparr>)])"
  by (simp add: sendToolCall_def registry_apply_def bots_get_def bots_set_def getStatus_def Let_def)

theorem sendToolCall_drops_pending_event_witness:
  "shown_damage (fst (sendToolCall () (Some ''Steve'')
      (Some (\<lambda>bots. (Inr (Some ''getPosition''), bots)))
      [(''Steve'',
        \<lparr>health = 20, food = 20,
         lastDamage = Some \<lparr>dmg_from = ''zombie'', dmg_time = 1000\<rparr>,
         lastBroken = None, lastDefense = None, lastDeath = None, lastHungerWarning = None,
         effects = []\<rparr>)])) = None"
  using sendToolCall_drops_pending_event by (simp add: shown_damage_def)

subsection \<open>Auto-shield rate limit\<close>

lemma shield_inv_init: "shield_inv shield_init"
  by (simp add: shield_inv_def shield_init_def raise_times_def spaced600_def)

lemma shield_inv_scan: "shield_inv b \<Longrightarrow> shield_inv (shield_scan now es b)"
  by (auto simp: shield_inv_def shield_scan_def raise_times_def spaced600_def Let_def
      sorted_wrt_append num_or_0_def split: option.splits)

lemma shield_inv_step: "shield_inv b \<Longrightarrow> shield_inv (shield_step b e)"
proof (cases e)
  case (ScanTick now es)
  assume "shield_inv b"
  with ScanTick show ?thesis by (simp add: shield_inv_scan)
next
  case (HurtEvent now)
  assume "shield_inv b"
  with HurtEvent show ?thesis
    by (simp add: shield_inv_def hurt_autoshield_def raise_times_def)
next
  case (Configure en d)
  assume "shield_inv b"
  with Configure show ?thesis
    by (simp add: shield_inv_def autoShield_configure_def raise_times_def)
qed

lemma shield_inv_foldl: "shield_inv b \<Longrightarrow> shield_inv (foldl shield_step b evs)"
  by (induction evs arbitrary: b) (simp_all add: shield_inv_step)

lemma shield_inv_run: "shield_inv (shield_run evs)"
  unfolding shield_run_def by (rule shield_inv_foldl [OF shield_inv_init])

lemma two_ticks:
  assumes "600 \<le> t" "projectile_near es" "projectile_near es'"
  shows "raises (shield_run [ScanTick t es, ScanTick (t + shieldScanIntervalMs) es']) = [(Scan, t, 800)]"
  using assms
  by (simp add: shield_run_def shield_init_def shield_scan_def num_or_0_def Let_def
      shieldScanIntervalMs_def shield_duration_def)

text \<open>
  Claim C9, as stated, fails: the rate limit is in the 400 ms scan only. The damage
  handler raises the shield with no look at \<^verbatim>\<open>__shieldLastRaised\<close> and without setting
  it. An arrow 3 blocks away at the scan of time 1000 and damage at time 1100, both with
  auto-shield enabled, give two raises 100 ms apart.
\<close>

theorem autoshield_hurt_not_rate_limited:
  "\<not> spaced600 (all_raise_times (shield_run
      [ScanTick 1000 [\<lparr>ent_name = ''arrow'', ent_distance = Some 3\<rparr>], HurtEvent 1100]))"
  by (simp add: shield_run_def shield_init_def shield_scan_def num_or_0_def Let_def
      hurt_autoshield_def projectile_near_def isProj_def toLowerCase_def lower_char_def
      all_raise_times_def spaced600_def shield_duration_def)

text \<open>
  Claim C9, amended. The scan runs on a 400 ms timer and looks for an entity with a
  projectile name within 6 blocks. Among the raises made by the scan, any two are at
  least 600 ms apart, in every interleaving of scans, damage events and configuration
  calls: a qualifying scan less than 600 ms after the last scan raise changes nothing,
  a qualifying scan 600 ms or more after it raises the shield and records the time, and
  of two qualifying scans one timer period apart only the first raises. A raise from
  the damage handler is made whenever auto-shield is enabled and leaves
  \<^verbatim>\<open>__shieldLastRaised\<close> as it was.
\<close>

theorem shield_scan_rate_limited:
  "spaced600 (raise_times Scan (shield_run evs)) \<and>
   shieldScanIntervalMs = 400 \<and>
   projectile_near [\<lparr>ent_name = n, ent_distance = Some d\<rparr>] = (isProj (toLowerCase n) \<and> d \<le> 6) \<and>
   (autoShield_enabled b \<and> now - num_or_0 (shieldLastRaised b) < 600 \<longrightarrow>
      shield_scan now es b = b) \<and>
   (autoShield_enabled b \<and> 600 \<le> now - num_or_0 (shieldLastRaised b) \<and> projectile_near es \<longrightarrow>
      shield_scan now es b =
        b\<lparr>shieldLastRaised := Some now, raises := raises b @ [(Scan, now, shield_duration b)]\<rparr>) \<and>
   (600 \<le> t \<and> projectile_near es \<and> projectile_near es' \<longrightarrow>
      raises (shield_run [ScanTick t es, ScanTick (t + shieldScanIntervalMs) es']) =
        [(Scan, t, 800)]) \<and>
   (autoShield_enabled b \<longrightarrow>
      hurt_autoshield now b = b\<lparr>raises := raises b @ [(Hurt, now, shield_duration b)]\<rparr>)"
proof -
  have a: "spaced600 (raise_times Scan (shield_run evs))"
    using shield_inv_run [of evs] by (simp add: shield_inv_def)
  have c: "projectile_near [\<lparr>ent_name = n, ent_distance = Some d\<rparr>] =
      (isProj (toLowerCase n) \<and> d \<le> 6)"
    by (simp add: projectile_near_def)
  have d: "autoShield_enabled b \<and> now - num_or_0 (shieldLastRaised b) < 600 \<longrightarrow>
      shield_scan now es b = b"
    by (simp add: shield_scan_def Let_def)
  have e: "autoShield_enabled b \<and> 600 \<le> now - num_or_0 (shieldLastRaised b) \<and>
      projectile_near es \<longrightarrow>
      shield_scan now es b =
        b\<lparr>shieldLastRaised := Some now, raises := raises b @ [(Scan, now, shield_duration b)]\<rparr>"
    by (simp add: shield_scan_def Let_def)
  have f: "600 \<le> t \<and> projectile_near es \<and> projectile_near es' \<longrightarrow>
      raises (shield_run [ScanTick t es, ScanTick (t + shieldScanIntervalMs) es']) =
        [(Scan, t, 800)]"
    using two_ticks [of t es es'] by blast
  have g: "autoShield_enabled b \<longrightarrow>
      hurt_autoshield now b = b\<lparr>raises := raises b @ [(Hurt, now, shield_duration b)]\<rparr>"
    by (simp add: hurt_autoshield_def)
  from a c d e f g show ?thesis by (simp add: shieldScanIntervalMs_def)
qed

lemma arrow_near: "projectile_near [\<lparr>ent_name = ''Arrow'', ent_distance = Some 5\<rparr>]"
  by (simp add: projectile_near_def isProj_def toLowerCase_def lower_char_def)

theorem shield_scan_rate_limited_witness:
  "raises (shield_run [ScanTick 1000 [\<lparr>ent_name = ''Arrow'', ent_distance = Some 5\<rparr>],
                       ScanTick 1400 [\<lparr>ent_name = ''Arrow'', ent_distance = Some 5\<rparr>]]) =
     [(Scan, 1000, 800)] \<and>
   spaced600 (raise_times Scan (shield_run
      [ScanTick 1000 [\<lparr>ent_name = ''Arrow'', ent_distance = Some 5\<rparr>], HurtEvent 1100,
       ScanTick 1400 [\<lparr>ent_name = ''Arrow'', ent_distance = Some 5\<rparr>],
       ScanTick 1800 [\<lparr>ent_name = ''Arrow'', ent_distance = Some 5\<rparr>]])) \<and>
   shield_scan 1400 [\<lparr>ent_name = ''Arrow'', ent_distance = Some 5\<rparr>]
      (shield_init\<lparr>shieldLastRaised := Some 1000\<rparr>) = shield_init\<lparr>shieldLastRaised := Some 1000\<rparr> \<and>
   raises (shield_scan 1600 [\<lparr>ent_name = ''Arrow'', ent_distance = Some 5\<rparr>]
      (shield_init\<lparr>shieldLastRaised := Some 1000\<rparr>)) = [(Scan, 1600, 800)] \<and>
   raises (hurt_autoshield 1100 shield_init) = [(Hurt, 1100, 800)]"
proof -
  let ?es = "[\<lparr>ent_name = ''Arrow'', ent_distance = Some 5\<rparr>]"
  let ?b = "shield_init\<lparr>shieldLastRaised := Some 1000\<rparr>"
  have en: "autoShield_enabled ?b" "autoShield_enabled shield_init"
    by (simp_all add: shield_init_def)
  have early: "1400 - num_or_0 (shieldLastRaised ?b) < 600"
    and late: "600 \<le> 1600 - num_or_0 (shieldLastRaised ?b)"
    by (simp_all add: num_or_0_def)
  note T1 = shield_scan_rate_limited [where t = 1000 and es = ?es and es' = ?es
      and b = ?b and now = 1400
      and evs = "[ScanTick 1000 ?es, HurtEvent 1100, ScanTick 1400 ?es, ScanTick 1800 ?es]"]
  note T2 = shield_scan_rate_limited [where b = ?b and now = 1600 and es = ?es]
  note T3 = shield_scan_rate_limited [where b = shield_init and now = 1100]
  from T1 arrow_near have one:
    "raises (shield_run [ScanTick 1000 ?es, ScanTick 1400 ?es]) = [(Scan, 1000, 800)]"
    by (simp add: shieldScanIntervalMs_def)
  from T1 have two: "spaced600 (raise_times Scan (shield_run
      [ScanTick 1000 ?es, HurtEvent 1100, ScanTick 1400 ?es, ScanTick 1800 ?es]))"
    by blast
  from T1 en early have three: "shield_scan 1400 ?es ?b = ?b" by blast
  from T2 en late arrow_near have four:
    "raises (shield_scan 1600 ?es ?b) = [(Scan, 1600, 800)]"
    by (simp add: shield_init_def shield_duration_def)
  from T3 en have five: "raises (hurt_autoshield 1100 shield_init) = [(Hurt, 1100, 800)]"
    by (simp add: shield_init_def shield_duration_def)
  from one two three four five show ?thesis by blast
qed

subsection \<open>Progress watchdog of navigation\<close>

lemma watch_lastProgressAt:
  "lastProgressAt (watch ob s) = (if improves (obs_dist ob) (best s) then obs_now ob else lastProgressAt s)"
  by (simp add: watch_def)

lemma watch_best:
  "best (watch ob s) = (if improves (obs_dist ob) (best s) then Some (obs_dist ob) else best s)"
  by (simp add: watch_def)

lemma pathfind_quiet_prefix:
  "quiet start rng timeoutMs s pre \<Longrightarrow>
   pathfind_wait start rng timeoutMs s (pre @ rest) =
     pathfind_wait start rng timeoutMs (watched s pre) rest"
  by (induction pre arbitrary: s) (simp_all add: goes_on_def watched_def idleMs_def Let_def)

lemma goTo_quiet_prefix:
  "quiet start rng maxMs s pre \<Longrightarrow>
   goTo_wait start rng maxMs s (pre @ rest) = goTo_wait start rng maxMs (watched s pre) rest"
  by (induction pre arbitrary: s) (simp_all add: goes_on_def watched_def Let_def)

lemma pathfind_stalled:
  "obs_now ob - start < timeoutMs \<Longrightarrow> \<not> close_enough rng (obs_dist ob) \<Longrightarrow>
   obs_now ob - lastProgressAt (watch ob s) > 15000 \<Longrightarrow>
   pathfind_wait start rng timeoutMs s (ob # rest) = Some (Inl navigation_stalled)"
  by (simp add: idleMs_def Let_def)

lemma pathfind_timeout:
  "obs_now ob - start \<ge> timeoutMs \<Longrightarrow>
   pathfind_wait start rng timeoutMs s (ob # rest) = Some (Inl navigation_timeout)"
  by (simp add: pathfind_after_def)

lemma pathfind_arrived:
  "obs_now ob - start < timeoutMs \<Longrightarrow> close_enough rng (obs_dist ob) \<Longrightarrow>
   pathfind_wait start rng timeoutMs s (ob # rest) = Some (Inr ())"
  by (simp add: pathfind_after_def)

lemma pathfind_returns:
  "\<exists>ob \<in> set obs. obs_now ob - start \<ge> timeoutMs \<Longrightarrow>
   pathfind_wait start rng timeoutMs s obs \<noteq> None"
  by (induction obs arbitrary: s) (auto simp: Let_def)

lemma goTo_returns:
  "\<exists>ob \<in> set obs. obs_now ob - start \<ge> maxMs \<Longrightarrow>
   goTo_wait start rng maxMs s obs \<noteq> None"
  by (induction obs arbitrary: s) (auto simp: Let_def)

lemma goTo_stalled:
  "obs_now ob - start < maxMs \<Longrightarrow> \<not> close_enough rng (obs_dist ob) \<Longrightarrow>
   obs_now ob - lastProgressAt (watch ob s) > 15000 \<Longrightarrow>
   goTo_wait start rng maxMs s (ob # rest) = Some (False, obs_dist ob)"
  by (simp add: Let_def)

lemma goTo_deadline:
  "obs_now ob - start \<ge> maxMs \<Longrightarrow>
   goTo_wait start rng maxMs s (ob # rest) = Some (False, obs_dist ob)"
  by simp

lemma goTo_arrived:
  "obs_now ob - start < maxMs \<Longrightarrow> close_enough rng (obs_dist ob) \<Longrightarrow>
   goTo_wait start rng maxMs s (ob # rest) = Some (True, obs_dist ob)"
  by simp

lemma goToKnownLocation_flags:
  "goToKnownLocation rp mp obs = Some r \<Longrightarrow> timedOut r = (\<not> arrived r) \<and> ok r = arrived r"
  by (auto simp: goToKnownLocation_def Let_def split: list.splits option.splits)

text \<open>
  The watchdog of the two loops. The time of the last improvement is reset, and the best
  value lowered to the distance observed, exactly when the distance is more than 0.25
  below the best value seen (the first observation always counts, the best being
  infinite); otherwise both are kept. The idle window is 15 s.
  \<^verbatim>\<open>pathfindToPredicate\<close> has two distinct terminal errors: after any number of passes
  that went on, a pass before the deadline and away from the target with more than 15 s
  since the last improvement throws \<^verbatim>\<open>navigation_stalled\<close>; a pass at or after the
  deadline throws \<^verbatim>\<open>navigation_timeout\<close>; a pass before the deadline that is close
  enough returns the block. The loop returns at the latest at the first observation at
  or after the deadline. \<^verbatim>\<open>goToKnownLocation\<close> ends on the same three conditions but
  reports \<^verbatim>\<open>timedOut = !arrived\<close>: true for a stall as for the deadline, false on
  arrival.
\<close>

lemma watchdog_outcomes:
  "lastProgressAt (watch ob s) =
     (if improves (obs_dist ob) (best s) then obs_now ob else lastProgressAt s) \<and>
   best (watch ob s) =
     (if improves (obs_dist ob) (best s) then Some (obs_dist ob) else best s) \<and>
   improves d (Some v) = (d + 0.25 < v) \<and> improves d None \<and> idleMs = 15000 \<and>
   (quiet start rng timeoutMs s pre \<and> obs_now ob - start < timeoutMs \<and>
    \<not> close_enough rng (obs_dist ob) \<and>
    obs_now ob - lastProgressAt (watch ob (watched s pre)) > 15000 \<longrightarrow>
      pathfind_wait start rng timeoutMs s (pre @ ob # rest) = Some (Inl navigation_stalled) \<and>
      goTo_wait start rng timeoutMs s (pre @ ob # rest) = Some (False, obs_dist ob)) \<and>
   (quiet start rng timeoutMs s pre \<and> obs_now ob - start \<ge> timeoutMs \<longrightarrow>
      pathfind_wait start rng timeoutMs s (pre @ ob # rest) = Some (Inl navigation_timeout) \<and>
      goTo_wait start rng timeoutMs s (pre @ ob # rest) = Some (False, obs_dist ob)) \<and>
   (quiet start rng timeoutMs s pre \<and> obs_now ob - start < timeoutMs \<and>
    close_enough rng (obs_dist ob) \<longrightarrow>
      pathfind_wait start rng timeoutMs s (pre @ ob # rest) = Some (Inr ()) \<and>
      goTo_wait start rng timeoutMs s (pre @ ob # rest) = Some (True, obs_dist ob)) \<and>
   ((\<exists>o' \<in> set obs. obs_now o' - start \<ge> timeoutMs) \<longrightarrow>
      pathfind_wait start rng timeoutMs s obs \<noteq> None \<and>
      goTo_wait start rng timeoutMs s obs \<noteq> None) \<and>
   (goToKnownLocation rp mp obs = Some r \<longrightarrow> timedOut r = (\<not> arrived r) \<and> ok r = arrived r)"
proof -
  have a: "lastProgressAt (watch ob s) =
     (if improves (obs_dist ob) (best s) then obs_now ob else lastProgressAt s)"
    by (rule watch_lastProgressAt)
  have a': "best (watch ob s) =
     (if improves (obs_dist ob) (best s) then Some (obs_dist ob) else best s)"
    by (rule watch_best)
  have b: "improves d (Some v) = (d + 0.25 < v) \<and> improves d None \<and> idleMs = 15000"
    by (simp add: improves_def idleMs_def)
  have c: "quiet start rng timeoutMs s pre \<and> obs_now ob - start < timeoutMs \<and>
    \<not> close_enough rng (obs_dist ob) \<and>
    obs_now ob - lastProgressAt (watch ob (watched s pre)) > 15000 \<longrightarrow>
      pathfind_wait start rng timeoutMs s (pre @ ob # rest) = Some (Inl navigation_stalled) \<and>
      goTo_wait start rng timeoutMs s (pre @ ob # rest) = Some (False, obs_dist ob)"
    by (simp add: pathfind_quiet_prefix goTo_quiet_prefix idleMs_def Let_def)
  have d: "quiet start rng timeoutMs s pre \<and> obs_now ob - start \<ge> timeoutMs \<longrightarrow>
      pathfind_wait start rng timeoutMs s (pre @ ob # rest) = Some (Inl navigation_timeout) \<and>
      goTo_wait start rng timeoutMs s (pre @ ob # rest) = Some (False, obs_dist ob)"
    by (simp add: pathfind_quiet_prefix goTo_quiet_prefix pathfind_after_def)
  have e: "quiet start rng timeoutMs s pre \<and> obs_now ob - start < timeoutMs \<and>
    close_enough rng (obs_dist ob) \<longrightarrow>
      pathfind_wait start rng timeoutMs s (pre @ ob # rest) = Some (Inr ()) \<and>
      goTo_wait start rng timeoutMs s (pre @ ob # rest) = Some (True, obs_dist ob)"
    by (simp add: pathfind_quiet_prefix goTo_quiet_prefix pathfind_after_def)
  have f: "(\<exists>o' \<in> set obs. obs_now o' - start \<ge> timeoutMs) \<longrightarrow>
      pathfind_wait start rng timeoutMs s obs \<noteq> None \<and>
      goTo_wait start rng timeoutMs s obs \<noteq> None"
    using pathfind_returns [where obs = obs and start = start and timeoutMs = timeoutMs
        and rng = rng and s = s]
      goTo_returns [where obs = obs and start = start and maxMs = timeoutMs and rng = rng and s = s]
    by blast
  have g: "goToKnownLocation rp mp obs = Some r \<longrightarrow>
      timedOut r = (\<not> arrived r) \<and> ok r = arrived r"
    using goToKnownLocation_flags [of rp mp obs r] by blast
  from a a' b c d e f g show ?thesis by blast
qed

text \<open>
  Three runs of \<^verbatim>\<open>pathfindToPredicate\<close> with the default deadline of 45 s: the distance
  frozen for 16 s (stalled), the distance improving a little every 14 s until the
  deadline (timeout, not stalled), and the target reached after 9 s (neither).
\<close>

lemma pathfindToPredicate_runs:
  "pathfindToPredicate True 1 45000
     [\<lparr>obs_now = 0, obs_dist = 10\<rparr>, \<lparr>obs_now = 8000, obs_dist = 10\<rparr>,
      \<lparr>obs_now = 16000, obs_dist = 9.9\<rparr>] = Some (Inl navigation_stalled) \<and>
   pathfindToPredicate True 1 45000
     [\<lparr>obs_now = 0, obs_dist = 100\<rparr>, \<lparr>obs_now = 14000, obs_dist = 99\<rparr>,
      \<lparr>obs_now = 28000, obs_dist = 98\<rparr>, \<lparr>obs_now = 42000, obs_dist = 97\<rparr>,
      \<lparr>obs_now = 45000, obs_dist = 96.9\<rparr>] = Some (Inl navigation_timeout) \<and>
   pathfindToPredicate True 1 45000
     [\<lparr>obs_now = 0, obs_dist = 10\<rparr>, \<lparr>obs_now = 5000, obs_dist = 5\<rparr>,
      \<lparr>obs_now = 9000, obs_dist = 1.5\<rparr>] = Some (Inr ())"
proof -
  let ?s0 = "\<lparr>lastProgressAt = 0, best = None\<rparr>"
  let ?p1 = "[\<lparr>obs_now = 0, obs_dist = 10\<rparr>, \<lparr>obs_now = 8000, obs_dist = 10\<rparr>]"
  let ?o1 = "\<lparr>obs_now = 16000, obs_dist = 9.9\<rparr>"
  let ?p2 = "[\<lparr>obs_now = 0, obs_dist = 100\<rparr>, \<lparr>obs_now = 14000, obs_dist = 99\<rparr>,
      \<lparr>obs_now = 28000, obs_dist = 98\<rparr>, \<lparr>obs_now = 42000, obs_dist = 97\<rparr>]"
  let ?o2 = "\<lparr>obs_now = 45000, obs_dist = 96.9\<rparr>"
  let ?p3 = "[\<lparr>obs_now = 0, obs_dist = 10\<rparr>, \<lparr>obs_now = 5000, obs_dist = 5\<rparr>]"
  let ?o3 = "\<lparr>obs_now = 9000, obs_dist = 1.5\<rparr>"
  have q1: "quiet 0 1 45000 ?s0 ?p1 \<and> obs_now ?o1 - 0 < 45000 \<and>
      \<not> close_enough 1 (obs_dist ?o1) \<and>
      obs_now ?o1 - lastProgressAt (watch ?o1 (watched ?s0 ?p1)) > 15000"
    by (simp add: goes_on_def close_enough_def watch_def improves_def watched_def)
  have q2: "quiet 0 1 45000 ?s0 ?p2 \<and> obs_now ?o2 - 0 \<ge> 45000"
    by (simp add: goes_on_def close_enough_def watch_def improves_def)
  have q3: "quiet 0 1 45000 ?s0 ?p3 \<and> obs_now ?o3 - 0 < 45000 \<and> close_enough 1 (obs_dist ?o3)"
    by (simp add: goes_on_def close_enough_def watch_def improves_def)
  note T1 = watchdog_outcomes [where start = 0 and rng = 1 and timeoutMs = 45000 and s = ?s0
      and pre = ?p1 and ob = ?o1 and rest = "[]"]
  note T2 = watchdog_outcomes [where start = 0 and rng = 1 and timeoutMs = 45000 and s = ?s0
      and pre = ?p2 and ob = ?o2 and rest = "[]"]
  note T3 = watchdog_outcomes [where start = 0 and rng = 1 and timeoutMs = 45000 and s = ?s0
      and pre = ?p3 and ob = ?o3 and rest = "[]"]
  from q1 T1 have r1: "pathfind_wait 0 1 45000 ?s0 (?p1 @ ?o1 # []) = Some (Inl navigation_stalled)"
    by blast
  from q2 T2 have r2: "pathfind_wait 0 1 45000 ?s0 (?p2 @ ?o2 # []) = Some (Inl navigation_timeout)"
    by blast
  from q3 T3 have r3: "pathfind_wait 0 1 45000 ?s0 (?p3 @ ?o3 # []) = Some (Inr ())"
    by blast
  from r1 r2 r3 show ?thesis by (simp add: pathfindToPredicate_def)
qed

text \<open>
  Claim C5 (the code departs from it). The watchdog is to report a stall and a deadline
  as two distinct outcomes; \<^verbatim>\<open>goToKnownLocation\<close> does not. In the first run the bot comes from 20 to 10 blocks
  within 5 s and then creeps: 9.9 after 13 s and 9.8 after 21 s are not more than 0.25
  below the best value 10, so at 21 s the last improvement is 16 s old and the loop stops
  on the idle window, 39 s before the deadline of 60 s. In the second run the bot
  improves a little every 14 s and is stopped by the deadline. Both runs return
  \<^verbatim>\<open>ok: false, arrived: false, timedOut: true\<close>: the stall is reported as a timeout, and
  nothing in the result tells the two apart. On the same observations and with the same
  deadline \<^verbatim>\<open>pathfindToPredicate\<close> throws \<^verbatim>\<open>navigation_stalled\<close> for the first run
  and \<^verbatim>\<open>navigation_timeout\<close> for the second.
\<close>

theorem goToKnownLocation_stall_reported_as_timeout:
  "goToKnownLocation None None
     [\<lparr>obs_now = 0, obs_dist = 20\<rparr>, \<lparr>obs_now = 5000, obs_dist = 10\<rparr>,
      \<lparr>obs_now = 13000, obs_dist = 9.9\<rparr>, \<lparr>obs_now = 21000, obs_dist = 9.8\<rparr>] =
     Some \<lparr>ok = False, arrived = False, distance = 9.8, timedOut = True\<rparr> \<and>
   pathfindToPredicate True 1 60000
     [\<lparr>obs_now = 0, obs_dist = 20\<rparr>, \<lparr>obs_now = 5000, obs_dist = 10\<rparr>,
      \<lparr>obs_now = 13000, obs_dist = 9.9\<rparr>, \<lparr>obs_now = 21000, obs_dist = 9.8\<rparr>] =
     Some (Inl navigation_stalled) \<and>
   goToKnownLocation None None
     [\<lparr>obs_now = 0, obs_dist = 11.2\<rparr>, \<lparr>obs_now = 14000, obs_dist = 10.9\<rparr>,
      \<lparr>obs_now = 28000, obs_dist = 10.6\<rparr>, \<lparr>obs_now = 42000, obs_dist = 10.3\<rparr>,
      \<lparr>obs_now = 56000, obs_dist = 10\<rparr>, \<lparr>obs_now = 60000, obs_dist = 9.8\<rparr>] =
     Some \<lparr>ok = False, arrived = False, distance = 9.8, timedOut = True\<rparr> \<and>
   pathfindToPredicate True 1 60000
     [\<lparr>obs_now = 0, obs_dist = 11.2\<rparr>, \<lparr>obs_now = 14000, obs_dist = 10.9\<rparr>,
      \<lparr>obs_now = 28000, obs_dist = 10.6\<rparr>, \<lparr>obs_now = 42000, obs_dist = 10.3\<rparr>,
      \<lparr>obs_now = 56000, obs_dist = 10\<rparr>, \<lparr>obs_now = 60000, obs_dist = 9.8\<rparr>] =
     Some (Inl navigation_timeout)"
  by (simp add: goToKnownLocation_def pathfindToPredicate_def pathfind_after_def idleMs_def
      close_enough_def watch_def improves_def Let_def)

theorem goToKnownLocation_stall_reported_as_timeout_witness:
  "map_option timedOut (goToKnownLocation None None
     [\<lparr>obs_now = 0, obs_dist = 20\<rparr>, \<lparr>obs_now = 5000, obs_dist = 10\<rparr>,
      \<lparr>obs_now = 13000, obs_dist = 9.9\<rparr>, \<lparr>obs_now = 21000, obs_dist = 9.8\<rparr>]) =
     Some True \<and>
   Some True = map_option timedOut (goToKnownLocation None None
     [\<lparr>obs_now = 0, obs_dist = 11.2\<rparr>, \<lparr>obs_now = 14000, obs_dist = 10.9\<rparr>,
      \<lparr>obs_now = 28000, obs_dist = 10.6\<rparr>, \<lparr>obs_now = 42000, obs_dist = 10.3\<rparr>,
      \<lparr>obs_now = 56000, obs_dist = 10\<rparr>, \<lparr>obs_now = 60000, obs_dist = 9.8\<rparr>]) \<and>
   pathfindToPredicate True 1 60000
     [\<lparr>obs_now = 0, obs_dist = 20\<rparr>, \<lparr>obs_now = 5000, obs_dist = 10\<rparr>,
      \<lparr>obs_now = 13000, obs_dist = 9.9\<rparr>, \<lparr>obs_now = 21000, obs_dist = 9.8\<rparr>] \<noteq>
   pathfindToPredicate True 1 60000
     [\<lparr>obs_now = 0, obs_dist = 11.2\<rparr>, \<lparr>obs_now = 14000, obs_dist = 10.9\<rparr>,
      \<lparr>obs_now = 28000, obs_dist = 10.6\<rparr>, \<lparr>obs_now = 42000, obs_dist = 10.3\<rparr>,
      \<lparr>obs_now = 56000, obs_dist = 10\<rparr>, \<lparr>obs_now = 60000, obs_dist = 9.8\<rparr>]"
  using goToKnownLocation_stall_reported_as_timeout by simp

subsection \<open>Crafting planner\<close>

lemma rec_get_add: "rec_get (rec_add k c m) i = (if i = k then rec_get m k + c else rec_get m i)"
  by (simp add: rec_get_def rec_add_def update_conv')

lemma keys_add: "fst ` set (rec_add k c m) = insert k (fst ` set m)"
  by (simp add: rec_add_def update_conv' flip: dom_map_of_conv_image_fst)

lemma distinct_add: "distinct (map fst m) \<Longrightarrow> distinct (map fst (rec_add k c m))"
  by (simp add: rec_add_def distinct_update)

lemma rec_get_empty: "rec_get [] k = 0"
  by (simp add: rec_get_def)

lemma rec_keys_set: "set (rec_keys m) = fst ` set m"
  by (auto simp: rec_keys_def)

lemma rec_keys_distinct: "distinct (map fst m) \<Longrightarrow> distinct (rec_keys m)"
  by (auto simp: rec_keys_def)

text \<open>When no key is negative, \<^verbatim>\<open>Object.keys\<close> lists the keys in ascending order.\<close>

lemma rec_keys_sorted_list:
  assumes "distinct (map fst m)" and "\<forall>k \<in> fst ` set m. 0 \<le> k"
  shows "rec_keys m = sorted_list_of_set (fst ` set m)"
proof -
  from assms(2) have a: "filter (\<lambda>k. 0 \<le> k) (map fst m) = map fst m"
    by (intro filter_True) auto
  from assms(2) have b: "filter (\<lambda>k. k < 0) (map fst m) = []"
    by (auto simp: filter_empty_conv)
  from assms(1) a b show ?thesis
    by (simp add: rec_keys_def sorted_list_of_set_sort_remdups distinct_remdups_id flip: set_map)
qed

text \<open>The order of the keys does not depend on the values added.\<close>

lemma update_fst:
  "map fst m = map fst m' \<Longrightarrow> map fst (AList.update k v m) = map fst (AList.update k v' m')"
proof (induction m arbitrary: m')
  case Nil
  then show ?case by simp
next
  case (Cons p m)
  from Cons.prems obtain p' m2 where m': "m' = p' # m2" and h: "fst p = fst p'"
    and t: "map fst m = map fst m2"
    by (cases m') auto
  from Cons.IH [OF t] m' h t show ?case by simp
qed

lemma rec_add_fst:
  "map fst m = map fst m' \<Longrightarrow> map fst (rec_add k c m) = map fst (rec_add k c' m')"
  by (simp add: rec_add_def update_fst)

text \<open>The loop over the shapeless entries, with any weight \<open>g\<close> for an entry.\<close>

lemma ing_fold_get:
  "rec_get (foldl (\<lambda>m ing. case ing of None \<Rightarrow> m | Some i \<Rightarrow> rec_add (ing_id i) (g i) m) m ings) k =
     rec_get m k + sum_list (map (\<lambda>i. if ing_id i = k then g i else 0) (non_null ings))"
  by (induction ings arbitrary: m rule: non_null.induct) (simp_all add: rec_get_add)

lemma ing_fold_keys:
  "fst ` set (foldl (\<lambda>m ing. case ing of None \<Rightarrow> m | Some i \<Rightarrow> rec_add (ing_id i) (g i) m) m ings) =
     fst ` set m \<union> ing_id ` set (non_null ings)"
  by (induction ings arbitrary: m rule: non_null.induct) (simp_all add: keys_add)

lemma ing_fold_distinct:
  "distinct (map fst m) \<Longrightarrow>
   distinct (map fst (foldl (\<lambda>m ing. case ing of None \<Rightarrow> m
                                   | Some i \<Rightarrow> rec_add (ing_id i) (g i) m) m ings))"
  by (induction ings arbitrary: m rule: non_null.induct) (simp_all add: distinct_add)

lemma ing_fold_fst:
  "map fst m = map fst m' \<Longrightarrow>
   map fst (foldl (\<lambda>m ing. case ing of None \<Rightarrow> m | Some i \<Rightarrow> rec_add (ing_id i) (g i) m) m ings) =
   map fst (foldl (\<lambda>m ing. case ing of None \<Rightarrow> m | Some i \<Rightarrow> rec_add (ing_id i) (g' i) m) m' ings)"
proof (induction ings arbitrary: m m')
  case Nil
  then show ?case by simp
next
  case (Cons a ings)
  show ?case
  proof (cases a)
    case None
    with Cons.IH [OF Cons.prems] show ?thesis by simp
  next
    case (Some i)
    from Cons.prems have "map fst (rec_add (ing_id i) (g i) m) = map fst (rec_add (ing_id i) (g' i) m')"
      by (rule rec_add_fst)
    from Cons.IH [OF this] Some show ?thesis by simp
  qed
qed

text \<open>The loop over the cells of a row, and over the rows, with any weight \<open>w\<close> for a cell.\<close>

lemma row_fold_get:
  "rec_get (foldl (\<lambda>m cell. case cell of None \<Rightarrow> m | Some k \<Rightarrow> rec_add k w m) m row) k =
     rec_get m k + int (count_list row (Some k)) * w"
  by (induction row arbitrary: m rule: non_null.induct) (simp_all add: rec_get_add algebra_simps)

lemma row_fold_keys:
  "fst ` set (foldl (\<lambda>m cell. case cell of None \<Rightarrow> m | Some k \<Rightarrow> rec_add k w m) m row) =
     fst ` set m \<union> {k. Some k \<in> set row}"
  by (induction row arbitrary: m rule: non_null.induct) (auto simp: keys_add)

lemma row_fold_distinct:
  "distinct (map fst m) \<Longrightarrow>
   distinct (map fst (foldl (\<lambda>m cell. case cell of None \<Rightarrow> m | Some k \<Rightarrow> rec_add k w m) m row))"
  by (induction row arbitrary: m rule: non_null.induct) (simp_all add: distinct_add)

lemma row_fold_fst:
  "map fst m = map fst m' \<Longrightarrow>
   map fst (foldl (\<lambda>m cell. case cell of None \<Rightarrow> m | Some k \<Rightarrow> rec_add k w m) m row) =
   map fst (foldl (\<lambda>m cell. case cell of None \<Rightarrow> m | Some k \<Rightarrow> rec_add k w' m) m' row)"
proof (induction row arbitrary: m m')
  case Nil
  then show ?case by simp
next
  case (Cons a row)
  show ?case
  proof (cases a)
    case None
    with Cons.IH [OF Cons.prems] show ?thesis by simp
  next
    case (Some k)
    from Cons.prems have "map fst (rec_add k w m) = map fst (rec_add k w' m')"
      by (rule rec_add_fst)
    from Cons.IH [OF this] Some show ?thesis by simp
  qed
qed

lemma rows_fold_get:
  "rec_get (foldl (\<lambda>m row. case row of None \<Rightarrow> m
                          | Some cells \<Rightarrow> foldl (\<lambda>m cell. case cell of None \<Rightarrow> m
                                                        | Some k \<Rightarrow> rec_add k w m) m cells)
              m rows) k =
     rec_get m k + int (count_list (concat (non_null rows)) (Some k)) * w"
  by (induction rows arbitrary: m rule: non_null.induct)
    (simp_all add: row_fold_get algebra_simps)

lemma rows_fold_keys:
  "fst ` set (foldl (\<lambda>m row. case row of None \<Rightarrow> m
                            | Some cells \<Rightarrow> foldl (\<lambda>m cell. case cell of None \<Rightarrow> m
                                                          | Some k \<Rightarrow> rec_add k w m) m cells)
               m rows) =
     fst ` set m \<union> {k. Some k \<in> set (concat (non_null rows))}"
  by (induction rows arbitrary: m rule: non_null.induct) (auto simp: row_fold_keys)

lemma rows_fold_distinct:
  "distinct (map fst m) \<Longrightarrow>
   distinct (map fst (foldl (\<lambda>m row. case row of None \<Rightarrow> m
                                   | Some cells \<Rightarrow> foldl (\<lambda>m cell. case cell of None \<Rightarrow> m
                                                                 | Some k \<Rightarrow> rec_add k w m) m cells)
                        m rows))"
  by (induction rows arbitrary: m rule: non_null.induct) (simp_all add: row_fold_distinct)

lemma rows_fold_fst:
  "map fst m = map fst m' \<Longrightarrow>
   map fst (foldl (\<lambda>m row. case row of None \<Rightarrow> m
                          | Some cells \<Rightarrow> foldl (\<lambda>m cell. case cell of None \<Rightarrow> m
                                                        | Some k \<Rightarrow> rec_add k w m) m cells)
              m rows) =
   map fst (foldl (\<lambda>m row. case row of None \<Rightarrow> m
                          | Some cells \<Rightarrow> foldl (\<lambda>m cell. case cell of None \<Rightarrow> m
                                                        | Some k \<Rightarrow> rec_add k w' m) m cells)
              m' rows)"
proof (induction rows arbitrary: m m')
  case Nil
  then show ?case by simp
next
  case (Cons a rows)
  show ?case
  proof (cases a)
    case None
    with Cons.IH [OF Cons.prems] show ?thesis by simp
  next
    case (Some cells)
    from Cons.prems
    have "map fst (foldl (\<lambda>m cell. case cell of None \<Rightarrow> m | Some k \<Rightarrow> rec_add k w m) m cells) =
          map fst (foldl (\<lambda>m cell. case cell of None \<Rightarrow> m | Some k \<Rightarrow> rec_add k w' m) m' cells)"
      by (rule row_fold_fst)
    from Cons.IH [OF this] Some show ?thesis by simp
  qed
qed

lemma perUnitReq_spec: "rec_get (perUnitReq r) k = spec_perUnit r k"
  by (simp add: perUnitReq_def spec_perUnit_def add_ingredients_def add_shape_def
      ing_fold_get rows_fold_get rec_get_empty split: option.splits)

lemma perUnitReq_keys: "fst ` set (perUnitReq r) = spec_ids r"
  by (simp add: perUnitReq_def spec_ids_def add_ingredients_def add_shape_def
      ing_fold_keys rows_fold_keys split: option.splits)

lemma perUnitReq_distinct: "distinct (map fst (perUnitReq r))"
  by (simp add: perUnitReq_def add_ingredients_def add_shape_def
      ing_fold_distinct rows_fold_distinct split: option.splits)

lemma sum_list_scale: "sum_list (map (\<lambda>i. if P i then g i * (u::int) else 0) xs) =
    sum_list (map (\<lambda>i. if P i then g i else 0) xs) * u"
  by (induction xs) (simp_all add: algebra_simps)

lemma reqMap_spec: "rec_get (reqMap units r) k = spec_perUnit r k * units"
  by (simp add: reqMap_def spec_perUnit_def ing_fold_get rows_fold_get rec_get_empty
      sum_list_scale distrib_right split: option.splits)

lemma reqMap_keys: "fst ` set (reqMap units r) = spec_ids r"
  by (simp add: reqMap_def spec_ids_def ing_fold_keys rows_fold_keys split: option.splits)

lemma reqMap_distinct: "distinct (map fst (reqMap units r))"
  by (simp add: reqMap_def ing_fold_distinct rows_fold_distinct split: option.splits)

lemma reqMap_fst: "map fst (reqMap units r) = map fst (perUnitReq r)"
proof -
  have i: "\<And>ings. map fst (foldl (\<lambda>m ing. case ing of None \<Rightarrow> m
              | Some i \<Rightarrow> rec_add (ing_id i) (count_or_1 i * units) m) [] ings) =
          map fst (foldl (\<lambda>m ing. case ing of None \<Rightarrow> m
              | Some i \<Rightarrow> rec_add (ing_id i) (count_or_1 i) m) [] ings)"
    by (rule ing_fold_fst) simp
  show ?thesis
    unfolding reqMap_def perUnitReq_def add_ingredients_def add_shape_def Let_def
    apply (cases "ingredients r"; cases "inShape r"; simp add: i)
     apply (rule rows_fold_fst, simp)
    apply (rule rows_fold_fst, rule i)
    done
qed

lemma reqMap_rec_keys: "rec_keys (reqMap units r) = rec_keys (perUnitReq r)"
  by (simp add: rec_keys_def reqMap_fst)

lemma spec_ids_finite: "finite (spec_ids r)"
  by (simp flip: perUnitReq_keys)

lemma invMap_fold_get:
  "rec_get (foldl (\<lambda>m it. rec_add (item_type it) (item_count it) m) m stock) k =
     rec_get m k + sum_list (map item_count (filter (\<lambda>it. item_type it = k) stock))"
  by (induction stock arbitrary: m) (simp_all add: rec_get_add)

lemma invMap_have: "rec_get (invMap_of stock) k = have_of stock k"
  by (simp add: invMap_of_def have_of_def invMap_fold_get rec_get_empty)

lemma have_nonneg: "inv_ok stock \<Longrightarrow> 0 \<le> have_of stock k"
  unfolding inv_ok_def have_of_def
  by (induction stock) simp_all

lemma fold_min:
  "foldl (\<lambda>m k. min m (f k)) (a::int) ks = Min (insert a (f ` set ks))"
proof (induction ks arbitrary: a)
  case Nil
  then show ?case by simp
next
  case (Cons k ks)
  have "Min (insert (min a (f k)) (f ` set ks)) = Min (insert a (insert (f k) (f ` set ks)))"
    by (cases "set ks = {}") (simp_all add: min.assoc)
  with Cons show ?case by simp
qed

lemma spec_perUnit_pos:
  assumes "recipe_ok r" and "k \<in> spec_ids r"
  shows "0 < spec_perUnit r k"
proof -
  have ge: "\<And>ings. list_all (\<lambda>i. 0 < count_or_1 i) ings \<Longrightarrow>
      0 \<le> sum_list (map (\<lambda>i. if ing_id i = k then count_or_1 i else 0) ings)"
  proof -
    fix ings :: "ingredient list"
    show "list_all (\<lambda>i. 0 < count_or_1 i) ings \<Longrightarrow>
      0 \<le> sum_list (map (\<lambda>i. if ing_id i = k then count_or_1 i else 0) ings)"
      by (induction ings) auto
  qed
  have gt: "\<And>ings. list_all (\<lambda>i. 0 < count_or_1 i) ings \<Longrightarrow> k \<in> ing_id ` set ings \<Longrightarrow>
      0 < sum_list (map (\<lambda>i. if ing_id i = k then count_or_1 i else 0) ings)"
  proof -
    fix ings :: "ingredient list"
    show "list_all (\<lambda>i. 0 < count_or_1 i) ings \<Longrightarrow> k \<in> ing_id ` set ings \<Longrightarrow>
      0 < sum_list (map (\<lambda>i. if ing_id i = k then count_or_1 i else 0) ings)"
    proof (induction ings)
      case Nil
      then show ?case by simp
    next
      case (Cons i ings)
      from Cons.prems(1) have tl: "list_all (\<lambda>i. 0 < count_or_1 i) ings" and hd: "0 < count_or_1 i"
        by simp_all
      show ?case
      proof (cases "ing_id i = k")
        case True
        with ge [OF tl] hd show ?thesis by simp
      next
        case False
        with Cons.prems(2) have "k \<in> ing_id ` set ings" by auto
        with Cons.IH [OF tl] False show ?thesis by simp
      qed
    qed
  qed
  have cells: "\<And>cs. Some k \<in> set cs \<Longrightarrow> 0 < count_list cs (Some k)"
  proof -
    fix cs :: "int option list"
    assume "Some k \<in> set cs"
    then have "count_list cs (Some k) \<noteq> 0" by (simp add: count_list_0_iff)
    then show "0 < count_list cs (Some k)" by simp
  qed
  let ?a = "case ingredients r of None \<Rightarrow> 0
      | Some ings \<Rightarrow> sum_list (map (\<lambda>i. if ing_id i = k then count_or_1 i else 0) (non_null ings))"
  let ?b = "case inShape r of None \<Rightarrow> 0
      | Some rows \<Rightarrow> int (count_list (concat (non_null rows)) (Some k))"
  have a0: "0 \<le> ?a"
    using assms(1) by (auto simp: recipe_ok_def split: option.splits intro: ge)
  have b0: "0 \<le> ?b" by (simp split: option.splits)
  from assms(2) consider
      (ing) ings where "ingredients r = Some ings" "k \<in> ing_id ` set (non_null ings)"
    | (cell) rows where "inShape r = Some rows" "Some k \<in> set (concat (non_null rows))"
    by (auto simp: spec_ids_def split: option.splits)
  then have "0 < ?a + ?b"
  proof cases
    case ing
    with assms(1) have "0 < ?a" by (simp add: recipe_ok_def gt)
    with b0 show ?thesis by linarith
  next
    case cell
    then have "0 < ?b" using cells [of "concat (non_null rows)"] by simp
    with a0 show ?thesis by linarith
  qed
  then show ?thesis by (simp add: spec_perUnit_def)
qed

lemma computeMissingFor_spec:
  "computeMissingFor name_of stock r units =
     map (\<lambda>k. \<lparr>mi_id = k, mi_name = name_of k,
                mi_count = spec_perUnit r k * units - have_of stock k\<rparr>)
       (filter (\<lambda>k. have_of stock k < spec_perUnit r k * units) (rec_keys (perUnitReq r)))"
  by (simp add: computeMissingFor_def missing_of_def invMap_have reqMap_spec reqMap_rec_keys)

lemma computeMaxCraftable_spec:
  assumes "recipe_ok r"
  shows "\<exists>mc. computeMaxCraftable name_of stock r unitsLimit = Some mc \<and>
           craftable mc =
             max 0 (Min (insert unitsLimit
                      ((\<lambda>k. have_of stock k div spec_perUnit r k) ` spec_ids r)))"
proof -
  have keys: "set (rec_keys (perUnitReq r)) = spec_ids r"
    by (simp add: rec_keys_set perUnitReq_keys)
  have nz: "\<not> list_ex (\<lambda>k. rec_get (perUnitReq r) k = 0) (rec_keys (perUnitReq r))"
    using spec_perUnit_pos [OF assms] by (fastforce simp: list_ex_iff keys perUnitReq_spec)
  let ?f = "\<lambda>k. have_of stock k div spec_perUnit r k"
  let ?mx = "Min (insert unitsLimit (?f ` spec_ids r))"
  have mx: "foldl (\<lambda>m k. min m (rec_get (invMap_of stock) k div rec_get (perUnitReq r) k))
              unitsLimit (rec_keys (perUnitReq r)) = ?mx"
    by (simp add: invMap_have perUnitReq_spec fold_min keys)
  have le: "?mx \<le> unitsLimit"
    by (rule Min_le) (simp_all add: spec_ids_finite)
  then have "min ?mx unitsLimit = ?mx" by simp
  with nz mx show ?thesis
    by (simp add: computeMaxCraftable_def Let_def)
qed

lemma craft_loop_returns:
  "nat (cnt - crafted s) \<le> length obs \<Longrightarrow> craft_loop cnt deadline nm cb s obs \<noteq> None"
proof (induction obs arbitrary: s)
  case Nil
  then show ?case by simp
next
  case (Cons ob obs)
  show ?case
  proof (cases "crafted s < cnt \<and> cs_now s < deadline")
    case False
    then show ?thesis by auto
  next
    case True
    show ?thesis
    proof (cases "attempt ob")
      case (Craft_rejects msg)
      with True show ?thesis by simp
    next
      case Craft_resolves
      let ?delta = "max 0 (invCountByName (inv_after ob) nm - (cb + crafted s))"
      show ?thesis
      proof (cases "?delta \<le> 0")
        case True
        with \<open>crafted s < cnt \<and> cs_now s < deadline\<close> Craft_resolves show ?thesis
          by (simp add: Let_def)
      next
        case False
        let ?s1 = "s\<lparr>crafted := crafted s + ?delta, cs_lastProgressAt := now_after ob,
                      cs_now := now_after ob, cs_inv := inv_after ob\<rparr>"
        from False Cons.prems have "nat (cnt - crafted ?s1) \<le> length obs" by simp
        from Cons.IH [OF this] False \<open>crafted s < cnt \<and> cs_now s < deadline\<close> Craft_resolves
        show ?thesis by (simp add: Let_def)
      qed
    qed
  qed
qed

lemma craft_finish_report:
  "cr_ok (craft_finish name_of r cnt deadline usedTable s) = (0 < crafted s) \<and>
   cr_crafted (craft_finish name_of r cnt deadline usedTable s) = crafted s \<and>
   cr_requested (craft_finish name_of r cnt deadline usedTable s) = cnt \<and>
   cr_missingItems (craft_finish name_of r cnt deadline usedTable s) =
     Some (if crafted s < cnt
      then map (\<lambda>k. \<lparr>mi_id = k, mi_name = name_of k,
                      mi_count = spec_perUnit r k * max 1 (cnt - crafted s) - have_of (cs_inv s) k\<rparr>)
             (filter (\<lambda>k. have_of (cs_inv s) k < spec_perUnit r k * max 1 (cnt - crafted s))
                (rec_keys (perUnitReq r)))
      else [])"
  by (simp add: craft_finish_def Let_def computeMissingFor_spec)

text \<open>The guard and the bot of \<^verbatim>\<open>craftItems\<close>, and the ways the action ends before the
  production loop.\<close>

lemma craftItems_idle:
  assumes "getBotOrThrow (Some (str_or (cp_username params) [])) bots = Inr bt"
    and "\<not> running (getTask bt)"
  shows "craftItems h params bots w =
     map_option (\<lambda>r. Inr (Inr r, (getTask bt)\<lparr>running := False, abort := None\<rparr>))
       (craft_action params w)"
  using assms by (simp add: craftItems_def withTask_await_idle option.map_comp comp_def)

lemma craftItems_busy:
  assumes "getBotOrThrow (Some (str_or (cp_username params) [])) bots = Inr bt"
    and "running (getTask bt)"
  shows "craftItems h params bots w = Some (Inr (Inl another_task_running, getTask bt))"
  using assms by (simp add: craftItems_def withTask_await_busy)

lemma craftItems_no_bot:
  assumes "getBotOrThrow (Some (str_or (cp_username params) [])) bots = Inl e"
  shows "craftItems h params bots w = Some (Inl e)"
  using assms by (simp add: craftItems_def)

lemma craft_unknown_item:
  "crw_item w = None \<Longrightarrow>
   craft_action params w =
     Some (Threw (''Unknown item '' @ str_or (cp_itemName params) (str_or (cp_name params) ''stick'')))"
  by (simp add: craft_action_def Let_def)

lemma craft_missing_table:
  assumes "crw_item w = Some nm" "crw_recipesNoTable w = []" "\<not> crw_tableNearby w"
    and "\<not> crw_tableItem w"
  shows "craft_action params w =
     Some (Returned
       \<lparr>cr_ok = False, cr_requested = num_or_1 (cp_count params), cr_crafted = 0,
        cr_remaining = num_or_1 (cp_count params), cr_usedTable = False, cr_timedOut = False,
        cr_reason = Some ''missing_table'',
        cr_missingItems =
          Some [\<lparr>mi_id = (case crw_tableId w of None \<Rightarrow> - 1 | Some i \<Rightarrow> i),
                 mi_name = ''crafting_table'', mi_count = 1\<rparr>],
        cr_errors = [''crafting_table required but not found nearby or in inventory'']\<rparr>)"
  using assms by (simp add: craft_action_def craft_table_def Let_def)

lemma craft_no_support:
  assumes "crw_item w = Some nm" "crw_recipesNoTable w = []" "\<not> crw_tableNearby w"
    and "crw_tableItem w" "\<not> crw_ref w"
  shows "craft_action params w =
     Some (Returned
       \<lparr>cr_ok = False, cr_requested = num_or_1 (cp_count params), cr_crafted = 0,
        cr_remaining = num_or_1 (cp_count params), cr_usedTable = False, cr_timedOut = False,
        cr_reason = Some ''missing_table'', cr_missingItems = None,
        cr_errors = [''No support block to place crafting_table'']\<rparr>)"
  using assms by (simp add: craft_action_def craft_table_def Let_def)

lemma craft_no_recipe:
  assumes "crw_item w = Some nm" "craft_table w (num_or_1 (cp_count params)) = Inr False"
    and "crw_recipes w = []"
  shows "craft_action params w =
     Some (Returned
       \<lparr>cr_ok = False, cr_requested = num_or_1 (cp_count params), cr_crafted = 0,
        cr_remaining = num_or_1 (cp_count params), cr_usedTable = False, cr_timedOut = False,
        cr_reason = Some ''no_recipe'', cr_missingItems = None,
        cr_errors = [''No recipe for item in current context'']\<rparr>)"
  using assms by (simp add: craft_action_def Let_def)

lemma craft_without_table:
  assumes "crw_item w = Some nm" "crw_recipesNoTable w \<noteq> []" "\<not> crw_tableNearby w"
    and "crw_recipes w = r0 # rs"
  shows "craft_action params w =
     map_option Returned
       (craft_produce (crw_name_of w) r0 nm (num_or_1 (cp_count params)) (cp_maxMs params) False
          (crw_stock w) (crw_start w) (crw_obs w))"
  using assms by (simp add: craft_action_def craft_table_def select_recipe_def Let_def)

lemma ex_produce:
  "craft_produce ex_names ex_recipe ''button'' 5 None False ex_stock 1000 ex_obs =
   Some \<lparr>cr_ok = True, cr_requested = 5, cr_crafted = 3, cr_remaining = 2, cr_usedTable = False,
         cr_timedOut = False, cr_reason = Some ''missing_resources'',
         cr_missingItems = Some [\<lparr>mi_id = 7, mi_name = ''plank'', mi_count = 2\<rparr>],
         cr_errors = [''missing ingredient'']\<rparr>"
  by (simp add: craft_produce_def ex_obs_def ex_recipe_def ex_stock_def invCountByName_def Let_def
      reason_or_def craft_finish_def computeMissingFor_def missing_of_def reqMap_def rec_add_def
      rec_get_def rec_keys_def invMap_of_def count_or_1_def ex_names_def)

lemma lib_produce:
  "craft_produce ex_names lib_recipe ''button'' 5 None False ex_stock 1000 ex_obs =
   Some \<lparr>cr_ok = True, cr_requested = 5, cr_crafted = 3, cr_remaining = 2, cr_usedTable = False,
         cr_timedOut = False, cr_reason = Some ''missing_resources'',
         cr_missingItems = Some [],
         cr_errors = [''missing ingredient'']\<rparr>"
  by (simp add: craft_produce_def ex_obs_def lib_recipe_def ex_stock_def invCountByName_def Let_def
      reason_or_def craft_finish_def computeMissingFor_def missing_of_def reqMap_def rec_add_def
      rec_get_def rec_keys_def invMap_of_def count_or_1_def ex_names_def)

lemma ex_max:
  "computeMaxCraftable ex_names ex_stock ex_recipe 5 = Some \<lparr>craftable = 3, missing = []\<rparr>"
  by (simp add: computeMaxCraftable_def ex_recipe_def ex_stock_def perUnitReq_def
      add_ingredients_def rec_add_def rec_get_def rec_keys_def invMap_of_def count_or_1_def Let_def)

lemma lib_max:
  "computeMaxCraftable ex_names ex_stock lib_recipe 5 = Some \<lparr>craftable = 0, missing = []\<rparr>"
  by (simp add: computeMaxCraftable_def lib_recipe_def ex_stock_def perUnitReq_def
      add_ingredients_def missing_of_def rec_add_def rec_get_def rec_keys_def invMap_of_def
      count_or_1_def Let_def)

lemma lib_pickaxe_req:
  "perUnitReq lib_pickaxe = [(7, 3), (- 1, 4), (8, 2)] \<and>
   rec_keys (perUnitReq lib_pickaxe) = [7, 8, - 1]"
  by (simp add: perUnitReq_def lib_pickaxe_def add_shape_def rec_add_def rec_get_def rec_keys_def
      Let_def)

lemma lib_pickaxe_max:
  "computeMaxCraftable ex_names ex_tools_stock lib_pickaxe 1 =
     Some \<lparr>craftable = 0, missing = [\<lparr>mi_id = - 1, mi_name = ''-1'', mi_count = 4\<rparr>]\<rparr>"
  by (simp add: computeMaxCraftable_def perUnitReq_def lib_pickaxe_def add_shape_def
      ex_tools_stock_def missing_of_def rec_add_def rec_get_def rec_keys_def invMap_of_def
      ex_names_def Let_def)

lemma lib_pickaxe_missing:
  "computeMissingFor ex_names ex_tools_stock lib_pickaxe 1 =
     [\<lparr>mi_id = - 1, mi_name = ''-1'', mi_count = 4\<rparr>]"
  by (simp add: computeMissingFor_def reqMap_def lib_pickaxe_def ex_tools_stock_def missing_of_def
      rec_add_def rec_get_def rec_keys_def invMap_of_def ex_names_def Let_def)

lemma craft_bot:
  "getBotOrThrow (Some (str_or (cp_username ex_craft_params) [])) craft_bots = Inr None \<and>
   \<not> running (getTask None) \<and>
   (getTask None)\<lparr>running := False, abort := None\<rparr> = \<lparr>running = False, abort = None\<rparr>"
  by (simp add: getBotOrThrow_def str_or_def truthy_str_def bots_values_def craft_bots_def
      getTask_def ex_craft_params_def)

lemma ex_craft_action:
  "craft_action ex_craft_params (ex_craft_world r) =
     map_option Returned (craft_produce ex_names r ''button'' 5 None False ex_stock 1000 ex_obs)"
proof -
  have "craft_action ex_craft_params (ex_craft_world r) =
     map_option Returned
       (craft_produce (crw_name_of (ex_craft_world r)) r ''button''
          (num_or_1 (cp_count ex_craft_params)) (cp_maxMs ex_craft_params) False
          (crw_stock (ex_craft_world r)) (crw_start (ex_craft_world r)) (crw_obs (ex_craft_world r)))"
    by (rule craft_without_table) (simp_all add: ex_craft_world_def)
  then show ?thesis by (simp add: ex_craft_world_def ex_craft_params_def num_or_1_def)
qed

lemma ex_craftItems:
  "craftItems h ex_craft_params craft_bots (ex_craft_world r) =
     map_option (\<lambda>res. Inr (Inr (Returned res), \<lparr>running = False, abort = None\<rparr>))
       (craft_produce ex_names r ''button'' 5 None False ex_stock 1000 ex_obs)"
proof -
  from craft_bot have b: "getBotOrThrow (Some (str_or (cp_username ex_craft_params) [])) craft_bots = Inr None"
    and idle: "\<not> running (getTask None)"
    by simp_all
  show ?thesis
    unfolding craftItems_idle [OF b idle] ex_craft_action
    by (simp add: option.map_comp comp_def getTask_def)
qed

text \<open>
  What the planner does for a recipe whose counts are positive. The per-unit requirement
  that \<^verbatim>\<open>computeMaxCraftable\<close> builds is the merge by ingredient id of the shapeless
  entries (each with its count, 1 when none is given) and of the cells of the shaped
  grid (each cell object once, whatever its id), and its keys are the ids that occur.
  When the counts are positive, the craftable count is the minimum over these ids of
  available quantity divided by requirement, rounded down, capped at the requested count
  and never negative. The production loop returns once it has as many observations as
  units are requested, and its result has \<^verbatim>\<open>ok = crafted > 0\<close>; when fewer units than
  requested were crafted, \<^verbatim>\<open>missingItems\<close> has, for each of these ids whose available
  quantity in the inventory at the end is below the requirement of the units still to
  craft, one entry with that difference, and no other entry.
\<close>

lemma crafting_plan_positive_counts:
  "rec_get (perUnitReq r) k = spec_perUnit r k \<and>
   set (rec_keys (perUnitReq r)) = spec_ids r \<and> distinct (rec_keys (perUnitReq r)) \<and>
   (recipe_ok r \<longrightarrow>
      (\<exists>mc. computeMaxCraftable name_of stock r unitsLimit = Some mc \<and>
            craftable mc =
              max 0 (Min (insert unitsLimit
                       ((\<lambda>k. have_of stock k div spec_perUnit r k) ` spec_ids r))) \<and>
            0 \<le> craftable mc \<and> (0 \<le> unitsLimit \<longrightarrow> craftable mc \<le> unitsLimit))) \<and>
   (nat cnt \<le> length obs \<longrightarrow>
      craft_produce name_of r nm cnt maxMs usedTable initial start obs \<noteq> None) \<and>
   (craft_produce name_of r nm cnt maxMs usedTable initial start obs = Some res \<longrightarrow>
      (\<exists>s. craft_loop cnt (start + (case maxMs of None \<Rightarrow> 60000 | Some m \<Rightarrow> m)) nm
              (invCountByName initial nm)
              \<lparr>crafted = 0, cs_now = start, cs_lastProgressAt = start, cs_reason = None,
               cs_errors = [], cs_inv = initial\<rparr> obs = Some s \<and>
           cr_crafted res = crafted s \<and>
           cr_ok res = (0 < crafted s) \<and>
           (crafted s < cnt \<longrightarrow>
              cr_missingItems res =
                Some (map (\<lambda>k. \<lparr>mi_id = k, mi_name = name_of k,
                           mi_count = spec_perUnit r k * max 1 (cnt - crafted s) -
                                      have_of (cs_inv s) k\<rparr>)
                  (filter (\<lambda>k. have_of (cs_inv s) k < spec_perUnit r k * max 1 (cnt - crafted s))
                     (rec_keys (perUnitReq r)))))))"
proof -
  have a: "rec_get (perUnitReq r) k = spec_perUnit r k" by (rule perUnitReq_spec)
  have b: "set (rec_keys (perUnitReq r)) = spec_ids r \<and> distinct (rec_keys (perUnitReq r))"
    by (simp add: rec_keys_set perUnitReq_keys rec_keys_distinct perUnitReq_distinct)
  have c: "recipe_ok r \<longrightarrow>
      (\<exists>mc. computeMaxCraftable name_of stock r unitsLimit = Some mc \<and>
            craftable mc =
              max 0 (Min (insert unitsLimit
                       ((\<lambda>k. have_of stock k div spec_perUnit r k) ` spec_ids r))) \<and>
            0 \<le> craftable mc \<and> (0 \<le> unitsLimit \<longrightarrow> craftable mc \<le> unitsLimit))"
  proof
    assume ok: "recipe_ok r"
    let ?mx = "Min (insert unitsLimit ((\<lambda>k. have_of stock k div spec_perUnit r k) ` spec_ids r))"
    from computeMaxCraftable_spec [OF ok, of name_of stock unitsLimit]
    obtain mc where mc: "computeMaxCraftable name_of stock r unitsLimit = Some mc"
      and cr: "craftable mc = max 0 ?mx"
      by blast
    have le: "?mx \<le> unitsLimit" by (rule Min_le) (simp_all add: spec_ids_finite)
    from cr le have "0 \<le> craftable mc \<and> (0 \<le> unitsLimit \<longrightarrow> craftable mc \<le> unitsLimit)"
      by simp
    with mc cr show "\<exists>mc. computeMaxCraftable name_of stock r unitsLimit = Some mc \<and>
            craftable mc = max 0 ?mx \<and>
            0 \<le> craftable mc \<and> (0 \<le> unitsLimit \<longrightarrow> craftable mc \<le> unitsLimit)"
      by blast
  qed
  have d: "nat cnt \<le> length obs \<longrightarrow>
      craft_produce name_of r nm cnt maxMs usedTable initial start obs \<noteq> None"
    using craft_loop_returns [where cnt = cnt and obs = obs
        and s = "\<lparr>crafted = 0, cs_now = start, cs_lastProgressAt = start, cs_reason = None,
               cs_errors = [], cs_inv = initial\<rparr>"]
    by (simp add: craft_produce_def Let_def)
  have e: "craft_produce name_of r nm cnt maxMs usedTable initial start obs = Some res \<longrightarrow>
      (\<exists>s. craft_loop cnt (start + (case maxMs of None \<Rightarrow> 60000 | Some m \<Rightarrow> m)) nm
              (invCountByName initial nm)
              \<lparr>crafted = 0, cs_now = start, cs_lastProgressAt = start, cs_reason = None,
               cs_errors = [], cs_inv = initial\<rparr> obs = Some s \<and>
           cr_crafted res = crafted s \<and>
           cr_ok res = (0 < crafted s) \<and>
           (crafted s < cnt \<longrightarrow>
              cr_missingItems res =
                Some (map (\<lambda>k. \<lparr>mi_id = k, mi_name = name_of k,
                           mi_count = spec_perUnit r k * max 1 (cnt - crafted s) -
                                      have_of (cs_inv s) k\<rparr>)
                  (filter (\<lambda>k. have_of (cs_inv s) k < spec_perUnit r k * max 1 (cnt - crafted s))
                     (rec_keys (perUnitReq r))))))"
    using craft_finish_report [of name_of r cnt _ usedTable]
    by (auto simp: craft_produce_def Let_def)
  from a b c d e show ?thesis by blast
qed

text \<open>
  Claim C6 (the code departs from it). The planner is to work with the per-unit
  requirement of each ingredient, to give the craftable count as the minimum of available
  quantity divided by requirement, and to report each short ingredient with its
  shortfall. The code takes the requirement from
  the recipe as the recipe library hands it over, and that is not the requirement. The
  entries of a shapeless recipe carry the count \<open>-1\<close>; the code reads it as a requirement
  of \<open>-1\<close> planks for a button. With three planks and five buttons requested,
  \<^verbatim>\<open>computeMaxCraftable\<close> gives 0 craftable units where three can be crafted, and
  \<^verbatim>\<open>craftItems\<close>, which crafts three, reports an empty \<^verbatim>\<open>missingItems\<close> where two planks
  are short. With the same recipe and no count on the entry, the same code gives 3 and
  the entry for two planks. The empty cells of a shaped grid are objects with the id
  \<open>-1\<close>; the code skips only falsy cells and counts them as an ingredient: for a pickaxe
  and a bot that holds the three planks and two sticks it needs, \<^verbatim>\<open>computeMaxCraftable\<close>
  gives 0 and both functions report four missing items of id \<open>-1\<close>.
\<close>

theorem craftItems_misreads_library_recipe:
  "computeMaxCraftable ex_names ex_stock lib_recipe 5 = Some \<lparr>craftable = 0, missing = []\<rparr> \<and>
   craftItems 0 ex_craft_params craft_bots (ex_craft_world lib_recipe) =
     Some (Inr (Inr (Returned
       \<lparr>cr_ok = True, cr_requested = 5, cr_crafted = 3, cr_remaining = 2, cr_usedTable = False,
        cr_timedOut = False, cr_reason = Some ''missing_resources'',
        cr_missingItems = Some [], cr_errors = [''missing ingredient'']\<rparr>),
       \<lparr>running = False, abort = None\<rparr>)) \<and>
   computeMaxCraftable ex_names ex_stock ex_recipe 5 = Some \<lparr>craftable = 3, missing = []\<rparr> \<and>
   craftItems 0 ex_craft_params craft_bots (ex_craft_world ex_recipe) =
     Some (Inr (Inr (Returned
       \<lparr>cr_ok = True, cr_requested = 5, cr_crafted = 3, cr_remaining = 2, cr_usedTable = False,
        cr_timedOut = False, cr_reason = Some ''missing_resources'',
        cr_missingItems = Some [\<lparr>mi_id = 7, mi_name = ''plank'', mi_count = 2\<rparr>],
        cr_errors = [''missing ingredient'']\<rparr>),
       \<lparr>running = False, abort = None\<rparr>)) \<and>
   computeMaxCraftable ex_names ex_tools_stock lib_pickaxe 1 =
     Some \<lparr>craftable = 0, missing = [\<lparr>mi_id = - 1, mi_name = ''-1'', mi_count = 4\<rparr>]\<rparr> \<and>
   computeMissingFor ex_names ex_tools_stock lib_pickaxe 1 =
     [\<lparr>mi_id = - 1, mi_name = ''-1'', mi_count = 4\<rparr>]"
  by (simp add: lib_max ex_max lib_pickaxe_max lib_pickaxe_missing ex_craftItems lib_produce
      ex_produce)

theorem craftItems_misreads_library_recipe_witness:
  "map_option craftable (computeMaxCraftable ex_names ex_stock lib_recipe 5) = Some 0 \<and>
   map_option craftable (computeMaxCraftable ex_names ex_stock ex_recipe 5) = Some 3 \<and>
   craftItems 0 ex_craft_params craft_bots (ex_craft_world lib_recipe) \<noteq>
   craftItems 0 ex_craft_params craft_bots (ex_craft_world ex_recipe)"
  using craftItems_misreads_library_recipe by simp

subsection \<open>Smelting and cooking\<close>

lemma take_output_keeps:
  "refuelAttempts (take_output ob s) = refuelAttempts s \<and>
   outOfFuel (take_output ob s) = outOfFuel s \<and> ps_now (take_output ob s) = po_now ob"
  by (simp add: take_output_def split: option.splits prod.splits)

lemma stall_no_output:
  "po_now ob - ps_lastProgressAt (take_output ob s) > 15000 \<Longrightarrow>
   outputs (take_output ob s) = outputs s"
  by (auto simp: take_output_def split: option.splits prod.splits)

lemma poll_loop_done:
  "\<not> (outputs s < outputsTarget \<and> ps_now s < deadline) \<Longrightarrow>
   poll_loop fuelName outputsTarget deadline s obs = Some s"
  by (cases obs) auto

lemma poll_refuels_bounded:
  "refuelAttempts s \<le> 2 \<Longrightarrow> poll_loop fuelName outputsTarget deadline s obs = Some s' \<Longrightarrow>
   refuelAttempts s' \<le> 2"
proof (induction obs arbitrary: s)
  case Nil
  then show ?case by (auto split: if_splits)
next
  case (Cons ob obs)
  let ?s1 = "take_output ob s"
  have k: "refuelAttempts ?s1 = refuelAttempts s" by (simp add: take_output_keeps)
  show ?case
  proof (cases "outputs s < outputsTarget \<and> ps_now s < deadline")
    case False
    with Cons.prems show ?thesis by auto
  next
    case run: True
    show ?thesis
    proof (cases "po_now ob - ps_lastProgressAt ?s1 > 15000")
      case False
      with run Cons.prems(2) have "poll_loop fuelName outputsTarget deadline ?s1 obs = Some s'"
        by (simp add: Let_def)
      from Cons.IH [OF _ this] Cons.prems(1) k show ?thesis by simp
    next
      case stall: True
      show ?thesis
      proof (cases "\<not> po_fuelItem ob \<and> findFuel fuelName (po_inventory ob) \<noteq> None \<and>
                    refuelAttempts ?s1 < 2 \<and> po_putFuel_resolves ob")
        case True
        let ?s2 = "?s1\<lparr>refuelAttempts := Suc (refuelAttempts ?s1),
                       ps_lastProgressAt := po_now_refuel ob, ps_now := po_now_refuel ob\<rparr>"
        from True run stall Cons.prems(2)
        have "poll_loop fuelName outputsTarget deadline ?s2 obs = Some s'"
          by (simp add: Let_def)
        moreover from True have "refuelAttempts ?s2 \<le> 2" by simp
        ultimately show ?thesis using Cons.IH by blast
      next
        case False
        with run stall Cons.prems(2) have "refuelAttempts s' = refuelAttempts ?s1"
          by (auto simp: Let_def split: if_splits)
        with Cons.prems(1) k show ?thesis by simp
      qed
    qed
  qed
qed

lemma poll_returns:
  "\<exists>ob \<in> set obs. deadline \<le> po_now ob \<and> deadline \<le> po_now_refuel ob \<Longrightarrow>
   poll_loop fuelName outputsTarget deadline s obs \<noteq> None"
proof (induction obs arbitrary: s)
  case Nil
  then show ?case by simp
next
  case (Cons ob obs)
  let ?s1 = "take_output ob s"
  let ?s2 = "?s1\<lparr>refuelAttempts := Suc (refuelAttempts ?s1),
                 ps_lastProgressAt := po_now_refuel ob, ps_now := po_now_refuel ob\<rparr>"
  have next1: "poll_loop fuelName outputsTarget deadline ?s1 obs \<noteq> None"
  proof (cases "deadline \<le> po_now ob \<and> deadline \<le> po_now_refuel ob")
    case True
    then have "\<not> (outputs ?s1 < outputsTarget \<and> ps_now ?s1 < deadline)"
      by (simp add: take_output_keeps)
    from poll_loop_done [OF this] show ?thesis by simp
  next
    case False
    with Cons.prems have "\<exists>ob \<in> set obs. deadline \<le> po_now ob \<and> deadline \<le> po_now_refuel ob"
      by auto
    from Cons.IH [OF this] show ?thesis .
  qed
  have next2: "poll_loop fuelName outputsTarget deadline ?s2 obs \<noteq> None"
  proof (cases "deadline \<le> po_now ob \<and> deadline \<le> po_now_refuel ob")
    case True
    then have "\<not> (outputs ?s2 < outputsTarget \<and> ps_now ?s2 < deadline)" by simp
    from poll_loop_done [OF this] show ?thesis by simp
  next
    case False
    with Cons.prems have "\<exists>ob \<in> set obs. deadline \<le> po_now ob \<and> deadline \<le> po_now_refuel ob"
      by auto
    from Cons.IH [OF this] show ?thesis .
  qed
  from next1 next2 show ?case by (simp add: Let_def)
qed

lemma poll_refuel_continues:
  assumes "outputs s < outputsTarget" "ps_now s < deadline"
    and "po_now ob - ps_lastProgressAt (take_output ob s) > 15000" "\<not> po_fuelItem ob"
    and "findFuel fuelName (po_inventory ob) \<noteq> None" "refuelAttempts s < 2"
    and "po_putFuel_resolves ob"
  shows "poll_loop fuelName outputsTarget deadline s (ob # obs) =
     poll_loop fuelName outputsTarget deadline
       ((take_output ob s)\<lparr>refuelAttempts := Suc (refuelAttempts s),
          ps_lastProgressAt := po_now_refuel ob, ps_now := po_now_refuel ob\<rparr>) obs"
  using assms by (simp add: Let_def take_output_keeps)

lemma poll_out_of_fuel:
  assumes "outputs s < outputsTarget" "ps_now s < deadline"
    and "po_now ob - ps_lastProgressAt (take_output ob s) > 15000" "\<not> po_fuelItem ob"
    and "refuelAttempts s \<ge> 2"
  shows "poll_loop fuelName outputsTarget deadline s (ob # obs) =
     Some ((take_output ob s)\<lparr>outOfFuel := True\<rparr>)"
  using assms by (simp add: Let_def take_output_keeps)

text \<open>A rejected \<^verbatim>\<open>putFuel\<close> ends the attempt out of fuel, at the clock after the call.\<close>

lemma poll_putFuel_rejected:
  assumes "outputs s < outputsTarget" "ps_now s < deadline"
    and "po_now ob - ps_lastProgressAt (take_output ob s) > 15000" "\<not> po_fuelItem ob"
    and "findFuel fuelName (po_inventory ob) \<noteq> None" "refuelAttempts s < 2"
    and "\<not> po_putFuel_resolves ob"
  shows "poll_loop fuelName outputsTarget deadline s (ob # obs) =
     Some ((take_output ob s)\<lparr>outOfFuel := True, ps_now := po_now_refuel ob\<rparr>)"
  using assms by (simp add: Let_def take_output_keeps)

lemma poll_stalled_with_fuel:
  assumes "outputs s < outputsTarget" "ps_now s < deadline"
    and "po_now ob - ps_lastProgressAt (take_output ob s) > 15000" "po_fuelItem ob"
  shows "poll_loop fuelName outputsTarget deadline s (ob # obs) = Some (take_output ob s)"
  using assms by (simp add: Let_def)

lemma finish_out_of_fuel:
  assumes "outputs s < outputsTarget"
    and "po_now ob - ps_lastProgressAt (take_output ob s) > 15000"
  shows "fr_outOfFuel (poll_finish dev cnt outputsTarget deadline ((take_output ob s)\<lparr>outOfFuel := True\<rparr>)) \<and>
         fr_reason (poll_finish dev cnt outputsTarget deadline ((take_output ob s)\<lparr>outOfFuel := True\<rparr>)) =
           Some ''out_of_fuel'' \<and>
         \<not> fr_ok (poll_finish dev cnt outputsTarget deadline ((take_output ob s)\<lparr>outOfFuel := True\<rparr>))"
  using assms stall_no_output [OF assms(2)] by (simp add: poll_finish_def Let_def)

lemma finish_stalled_with_fuel:
  assumes "outputs s < outputsTarget" "\<not> outOfFuel s"
    and "po_now ob - ps_lastProgressAt (take_output ob s) > 15000"
  shows "\<not> fr_outOfFuel (poll_finish dev cnt outputsTarget deadline (take_output ob s)) \<and>
         fr_reason (poll_finish dev cnt outputsTarget deadline (take_output ob s)) \<noteq>
           Some ''out_of_fuel'' \<and>
         fr_reason (poll_finish dev cnt outputsTarget deadline (take_output ob s)) =
           (if po_now ob \<ge> deadline then Some ''timed_out'' else Some ''stalled'') \<and>
         \<not> fr_ok (poll_finish dev cnt outputsTarget deadline (take_output ob s))"
  using assms stall_no_output [OF assms(3)]
  by (simp add: poll_finish_def Let_def take_output_keeps)

lemma smelt_loop_advances:
  "run dev = Some (Inr r) \<Longrightarrow> \<not> result_ok r \<Longrightarrow>
   smelt_loop run (dev # rest) attempts errors =
     smelt_loop run rest (attempts @ [dev])
       (errors @ [if dev = campfire then ''campfire_failed''
                  else device_name dev @ ''_failed'' @
                       (if result_timedOut r then '':timedOut'' else [])])"
  by simp

lemma smelt_loop_first_ok:
  "\<forall>d \<in> set pre. attempt_fails run d \<Longrightarrow> run dev = Some (Inr r) \<Longrightarrow> result_ok r \<Longrightarrow>
   smelt_loop run (pre @ dev # rest) attempts errors = Some (Smelt_ok r (attempts @ pre @ [dev]))"
proof (induction pre arbitrary: attempts errors)
  case Nil
  then show ?case by simp
next
  case (Cons d pre)
  from Cons.prems(1) have f: "attempt_fails run d" and rest: "\<forall>d \<in> set pre. attempt_fails run d"
    by simp_all
  from f show ?case
    using Cons.IH [OF rest Cons.prems(2,3)]
    by (auto simp: attempt_fails_def split: option.splits sum.splits js_error.splits)
qed

lemma smelt_loop_all_fail:
  "\<forall>d \<in> set seq. attempt_fails run d \<Longrightarrow>
   \<exists>errors'. smelt_loop run seq attempts errors = Some (Smelt_failed (attempts @ seq) errors') \<and>
             length errors' = length errors + length seq"
proof (induction seq arbitrary: attempts errors)
  case Nil
  then show ?case by simp
next
  case (Cons d seq)
  from Cons.prems have f: "attempt_fails run d" and rest: "\<forall>d \<in> set seq. attempt_fails run d"
    by simp_all
  show ?case
  proof (cases "run d")
    case None
    with f show ?thesis by (simp add: attempt_fails_def)
  next
    case (Some a)
    show ?thesis
    proof (cases a)
      case (Inl e)
      obtain msg where e: "e = Error msg" by (cases e)
      from Cons.IH [OF rest, of "attempts @ [d]" "errors @ [device_name d @ '': '' @ msg]"]
      show ?thesis using Some Inl e by auto
    next
      case (Inr r)
      with f Some have nok: "\<not> result_ok r" by (simp add: attempt_fails_def)
      from Cons.IH [OF rest, of "attempts @ [d]"
          "errors @ [if d = campfire then ''campfire_failed''
                     else device_name d @ ''_failed'' @
                          (if result_timedOut r then '':timedOut'' else [])]"]
      show ?thesis using Some Inr nok by auto
    qed
  qed
qed

lemma smelt_sequence_cases:
  "(p \<in> {''campfire'', ''smoker'', ''blast_furnace'', ''furnace''} \<longrightarrow>
      hd (smelt_sequence itemName (Some p)) = chooseDeviceForItem itemName (Some p)) \<and>
   smelt_sequence itemName (Some ''smoker'') =
     (if isLikelyFood itemName then [smoker, furnace, campfire] else [smoker, furnace]) \<and>
   smelt_sequence itemName (Some ''blast_furnace'') =
     (if isLikelyFood itemName then [blast_furnace, furnace, campfire] else [blast_furnace, furnace]) \<and>
   smelt_sequence itemName (Some ''campfire'') = [campfire, furnace] \<and>
   smelt_sequence itemName (Some ''furnace'') =
     (if isLikelyFood itemName then [furnace, campfire] else [furnace]) \<and>
   (isLikelyFood itemName \<longrightarrow> smelt_sequence itemName None = [smoker, furnace, campfire]) \<and>
   (\<not> isLikelyFood itemName \<and> isLikelyOre itemName \<longrightarrow>
      smelt_sequence itemName None = [blast_furnace, furnace]) \<and>
   (\<not> isLikelyFood itemName \<and> \<not> isLikelyOre itemName \<longrightarrow>
      smelt_sequence itemName None = [furnace])"
  by (auto simp: smelt_sequence_def chooseDeviceForItem_def truthy_str_def Let_def
      toLowerCase_def lower_char_def)

lemma smelt_sequence_other:
  "p \<noteq> [] \<Longrightarrow> p \<notin> {''campfire'', ''smoker'', ''blast_furnace''} \<Longrightarrow>
   smelt_sequence itemName (Some p) =
     (if isLikelyFood itemName then [furnace, campfire] else [furnace])"
  by (simp add: smelt_sequence_def truthy_str_def Let_def)

text \<open>
  \<^verbatim>\<open>cookOnCampfire\<close> reads \<^verbatim>\<open>timedOut\<close> after a loop that ends only once 45 s have
  passed: when the clock does not run backwards, a campfire attempt that returns is
  never ok.
\<close>

lemma campfire_never_ok:
  assumes "cookOnCampfire itemName w = Some (Inr r)"
    and mono: "\<forall>t \<in> set (cw_waits w). t \<le> cw_end w" "cw_start w \<le> cw_end w"
  shows "\<not> cf_ok r \<and> cf_timedOut r"
proof -
  have wait: "\<And>now ts t. campfire_wait (cw_start w) now ts = Some t \<Longrightarrow>
      now \<le> cw_end w \<Longrightarrow> \<forall>x \<in> set ts. x \<le> cw_end w \<Longrightarrow> cw_end w - cw_start w \<ge> 45000"
  proof -
    fix now ts t
    show "campfire_wait (cw_start w) now ts = Some t \<Longrightarrow>
      now \<le> cw_end w \<Longrightarrow> \<forall>x \<in> set ts. x \<le> cw_end w \<Longrightarrow> cw_end w - cw_start w \<ge> 45000"
      by (induction ts arbitrary: now) (auto split: if_splits)
  qed
  from assms(1) obtain t where t: "campfire_wait (cw_start w) (cw_start w) (cw_waits w) = Some t"
    and r: "r = \<lparr>cf_ok = \<not> (cw_end w - cw_start w \<ge> 45000),
                 cf_timedOut = (cw_end w - cw_start w \<ge> 45000)\<rparr>"
    by (auto simp: cookOnCampfire_def Let_def split: if_splits option.splits)
  from wait [OF t mono(2) mono(1)] r show ?thesis by simp
qed


lemma smelt_loop_returns:
  "\<forall>d \<in> set seq. run d \<noteq> None \<Longrightarrow> smelt_loop run seq attempts errors \<noteq> None"
  by (induction seq arbitrary: attempts errors)
    (auto split: option.splits sum.splits js_error.splits)

lemmas smelt_eval = cookOrSmeltOnDevice_def poll_finish_def take_output_def findFuel_def
  fuel_preference_def truthy_str_def Let_def

lemma ex_smoker_run:
  "cookOrSmeltOnDevice smoker ''beef'' None 2 None ex_smoker =
     Some (Inr \<lparr>fr_ok = False, fr_deviceUsed = smoker, fr_outputsCollected = 1,
                fr_requested = 2, fr_remaining = 1, fr_timedOut = False, fr_stalled = True,
                fr_outOfFuel = False, fr_reason = Some ''stalled'',
                fr_output = Some ''cooked_beef''\<rparr>)"
  by (simp add: smelt_eval ex_smoker_def)

lemma ex_furnace_run:
  "cookOrSmeltOnDevice furnace itemName None cnt None ex_furnace =
     Some (Inr \<lparr>fr_ok = True, fr_deviceUsed = furnace, fr_outputsCollected = 1,
                fr_requested = cnt, fr_remaining = max 0 (cnt - 1), fr_timedOut = False,
                fr_stalled = False, fr_outOfFuel = False, fr_reason = None,
                fr_output = Some ''cooked_beef''\<rparr>)"
  by (simp add: smelt_eval ex_furnace_def)

lemma ex_blast_run:
  "cookOrSmeltOnDevice blast_furnace ''iron_ore'' None 1 None ex_blast =
     Some (Inr \<lparr>fr_ok = False, fr_deviceUsed = blast_furnace, fr_outputsCollected = 0,
                fr_requested = 1, fr_remaining = 1, fr_timedOut = False, fr_stalled = False,
                fr_outOfFuel = True, fr_reason = Some ''out_of_fuel'',
                fr_output = None\<rparr>)"
  by (simp add: smelt_eval ex_blast_def ex_stall_def)

lemma beef_food: "isLikelyFood ''beef''"
  by (simp add: isLikelyFood_def toLowerCase_def lower_char_def Let_def)

lemma iron_ore_class: "\<not> isLikelyFood ''iron_ore'' \<and> isLikelyOre ''iron_ore''"
  by (simp add: isLikelyFood_def isLikelyOre_def toLowerCase_def lower_char_def Let_def
      startsWith_def endsWith_def suffix_to_prefix)

lemma smeltItem_idle:
  assumes "getBotOrThrow (Some (str_or (sp_username params) [])) bots = Inr bt"
    and "\<not> running (getTask bt)"
  shows "smeltItem h params bots w =
     map_option (\<lambda>r. Inr (Inr (Returned r), (getTask bt)\<lparr>running := False, abort := None\<rparr>))
       (smelt_loop
          (run_device (str_or (sp_itemName params) ''iron_ore'') (str_opt (sp_fuelName params))
             (num_or_1 (sp_count params)) w)
          (smelt_sequence (str_or (sp_itemName params) ''iron_ore'') (sp_preferDevice params)) [] [])"
proof -
  have sq: "smelt_sequence (str_or (sp_itemName params) ''iron_ore'') (str_opt (sp_preferDevice params)) =
      smelt_sequence (str_or (sp_itemName params) ''iron_ore'') (sp_preferDevice params)"
    by (simp add: smelt_sequence_def str_opt_def truthy_str_def)
  from assms show ?thesis
    by (simp add: smeltItem_def smelt_action_def Let_def withTask_await_idle sq
        option.map_comp comp_def)
qed

lemma smeltItem_busy:
  assumes "getBotOrThrow (Some (str_or (sp_username params) [])) bots = Inr bt"
    and "running (getTask bt)"
  shows "smeltItem h params bots w = Some (Inr (Inl another_task_running, getTask bt))"
  using assms by (simp add: smeltItem_def withTask_await_busy)

lemma smeltItem_no_bot:
  assumes "getBotOrThrow (Some (str_or (sp_username params) [])) bots = Inl e"
  shows "smeltItem h params bots w = Some (Inl e)"
  using assms by (simp add: smeltItem_def)

lemma ex_bot:
  "getBotOrThrow (Some (str_or None [])) ex_bots = Inr None \<and> \<not> running (getTask None) \<and>
   (getTask None)\<lparr>running := False, abort := None\<rparr> = \<lparr>running = False, abort = None\<rparr>"
  by (simp add: getBotOrThrow_def str_or_def truthy_str_def bots_values_def ex_bots_def
      getTask_def)

lemma ex_beef:
  "smeltItem h ex_beef_params ex_bots ex_world =
     Some (Inr (Inr (Returned (Smelt_ok (Furnace_result
        \<lparr>fr_ok = True, fr_deviceUsed = furnace, fr_outputsCollected = 1,
         fr_requested = 2, fr_remaining = 1, fr_timedOut = False, fr_stalled = False,
         fr_outOfFuel = False, fr_reason = None, fr_output = Some ''cooked_beef''\<rparr>)
        [smoker, furnace])), \<lparr>running = False, abort = None\<rparr>))"
proof -
  have b: "getBotOrThrow (Some (str_or (sp_username ex_beef_params) [])) ex_bots = Inr None"
    using ex_bot by (simp add: ex_beef_params_def)
  from ex_bot have idle: "\<not> running (getTask None)" by simp
  show ?thesis
    unfolding smeltItem_idle [OF b idle]
    using ex_bot
    by (simp add: ex_beef_params_def str_or_def str_opt_def num_or_1_def smelt_sequence_def
        beef_food truthy_str_def Let_def run_device_def ex_world_def ex_smoker_run ex_furnace_run)
qed

lemma ex_ore:
  "smeltItem h ex_default_params ex_bots ex_world =
     Some (Inr (Inr (Returned (Smelt_ok (Furnace_result
        \<lparr>fr_ok = True, fr_deviceUsed = furnace, fr_outputsCollected = 1,
         fr_requested = 1, fr_remaining = 0, fr_timedOut = False, fr_stalled = False,
         fr_outOfFuel = False, fr_reason = None, fr_output = Some ''cooked_beef''\<rparr>)
        [blast_furnace, furnace])), \<lparr>running = False, abort = None\<rparr>))"
proof -
  have b: "getBotOrThrow (Some (str_or (sp_username ex_default_params) [])) ex_bots = Inr None"
    using ex_bot by (simp add: ex_default_params_def)
  from ex_bot have idle: "\<not> running (getTask None)" by simp
  show ?thesis
    unfolding smeltItem_idle [OF b idle]
    using ex_bot
    by (simp add: ex_default_params_def str_or_def str_opt_def num_or_1_def smelt_sequence_def
        iron_ore_class truthy_str_def Let_def run_device_def ex_world_def ex_blast_run
        ex_furnace_run)
qed

text \<open>
  \<^verbatim>\<open>toProcess = Math.max(1, Math.min(count, available))\<close> is never below 1, so the
  \<^verbatim>\<open>Missing input\<close> error is never thrown; with no input in the inventory nothing is
  inserted, the target is 0 outputs, and the attempt reports \<^verbatim>\<open>ok\<close> with nothing
  collected.
\<close>

lemma no_input_reports_ok:
  assumes "fw_deviceNearby w" "fw_opens w" "fw_fuelItem w" "fw_stacks w = []"
  shows "cookOrSmeltOnDevice dev itemName fuelName cnt totalMaxMs w =
     Some (Inr \<lparr>fr_ok = True, fr_deviceUsed = dev, fr_outputsCollected = 0,
                fr_requested = cnt, fr_remaining = max 0 cnt, fr_timedOut = False,
                fr_stalled = False, fr_outOfFuel = False, fr_reason = None,
                fr_output = None\<rparr>)"
proof -
  have idle: "\<And>d obs. poll_loop fuelName 0 d
      \<lparr>outputs = 0, ps_lastProgressAt = fw_start w, lastOutName = None, outOfFuel = False,
       refuelAttempts = 0, ps_now = fw_start w\<rparr> obs =
      Some \<lparr>outputs = 0, ps_lastProgressAt = fw_start w, lastOutName = None, outOfFuel = False,
       refuelAttempts = 0, ps_now = fw_start w\<rparr>"
  proof -
    fix d obs
    show "poll_loop fuelName 0 d
      \<lparr>outputs = 0, ps_lastProgressAt = fw_start w, lastOutName = None, outOfFuel = False,
       refuelAttempts = 0, ps_now = fw_start w\<rparr> obs =
      Some \<lparr>outputs = 0, ps_lastProgressAt = fw_start w, lastOutName = None, outOfFuel = False,
       refuelAttempts = 0, ps_now = fw_start w\<rparr>"
      by (cases obs) simp_all
  qed
  from assms show ?thesis
    by (simp add: cookOrSmeltOnDevice_def Let_def idle poll_finish_def)
qed

lemma missing_input_unreachable:
  "cookOrSmeltOnDevice dev itemName fuelName cnt totalMaxMs w \<noteq>
     Some (Inl (Error (''Missing input '' @ [quote] @ itemName @ [quote])))"
  by (auto simp: cookOrSmeltOnDevice_def Let_def split: if_splits option.splits)

text \<open>
  Claim C8. In the polling loop of \<^verbatim>\<open>cookOrSmeltOnDevice\<close>, a pass that finds no
  output progress for more than 15 s and an empty fuel slot refuels and goes on polling
  when fuel is found in the inventory, fewer than two refuels have been made and
  \<^verbatim>\<open>putFuel\<close> resolves; the count of refuels never exceeds two. Once two refuels
  have been made, such a pass ends the attempt with \<^verbatim>\<open>outOfFuel = true\<close>, reason
  \<^verbatim>\<open>out_of_fuel\<close> and \<^verbatim>\<open>ok = false\<close>, and the loop of \<^verbatim>\<open>smeltItem\<close> goes on to the
  next device after an attempt that is not ok. A stall with fuel in the slot ends the
  attempt without the out-of-fuel mark. The loop returns at the latest after an
  observation at or past the deadline.
\<close>

theorem refuel_at_most_twice:
  "(outputs s < outputsTarget \<and> ps_now s < deadline \<and>
    po_now ob - ps_lastProgressAt (take_output ob s) > 15000 \<and> \<not> po_fuelItem ob \<and>
    findFuel fuelName (po_inventory ob) \<noteq> None \<and> refuelAttempts s < 2 \<and>
    po_putFuel_resolves ob \<longrightarrow>
      poll_loop fuelName outputsTarget deadline s (ob # obs) =
        poll_loop fuelName outputsTarget deadline
          ((take_output ob s)\<lparr>refuelAttempts := Suc (refuelAttempts s),
             ps_lastProgressAt := po_now_refuel ob, ps_now := po_now_refuel ob\<rparr>) obs) \<and>
   (outputs s < outputsTarget \<and> ps_now s < deadline \<and>
    po_now ob - ps_lastProgressAt (take_output ob s) > 15000 \<and> \<not> po_fuelItem ob \<and>
    refuelAttempts s \<ge> 2 \<longrightarrow>
      poll_loop fuelName outputsTarget deadline s (ob # obs) =
        Some ((take_output ob s)\<lparr>outOfFuel := True\<rparr>) \<and>
      fr_outOfFuel (poll_finish dev cnt outputsTarget deadline
                      ((take_output ob s)\<lparr>outOfFuel := True\<rparr>)) \<and>
      fr_reason (poll_finish dev cnt outputsTarget deadline
                   ((take_output ob s)\<lparr>outOfFuel := True\<rparr>)) = Some ''out_of_fuel'' \<and>
      \<not> fr_ok (poll_finish dev cnt outputsTarget deadline
                 ((take_output ob s)\<lparr>outOfFuel := True\<rparr>))) \<and>
   (refuelAttempts s \<le> 2 \<and> poll_loop fuelName outputsTarget deadline s obs = Some s' \<longrightarrow>
      refuelAttempts s' \<le> 2) \<and>
   (outputs s < outputsTarget \<and> ps_now s < deadline \<and> \<not> outOfFuel s \<and>
    po_now ob - ps_lastProgressAt (take_output ob s) > 15000 \<and> po_fuelItem ob \<longrightarrow>
      poll_loop fuelName outputsTarget deadline s (ob # obs) = Some (take_output ob s) \<and>
      \<not> fr_outOfFuel (poll_finish dev cnt outputsTarget deadline (take_output ob s)) \<and>
      fr_reason (poll_finish dev cnt outputsTarget deadline (take_output ob s)) \<noteq>
        Some ''out_of_fuel'' \<and>
      \<not> fr_ok (poll_finish dev cnt outputsTarget deadline (take_output ob s))) \<and>
   (run dv = Some (Inr (Furnace_result r)) \<and> \<not> fr_ok r \<longrightarrow>
      smelt_loop run (dv # rest) attempts errors =
        smelt_loop run rest (attempts @ [dv])
          (errors @ [if dv = campfire then ''campfire_failed''
                     else device_name dv @ ''_failed'' @
                          (if fr_timedOut r then '':timedOut'' else [])])) \<and>
   ((\<exists>o' \<in> set obs. deadline \<le> po_now o' \<and> deadline \<le> po_now_refuel o') \<longrightarrow>
      poll_loop fuelName outputsTarget deadline s obs \<noteq> None)"
proof -
  have a: "outputs s < outputsTarget \<and> ps_now s < deadline \<and>
    po_now ob - ps_lastProgressAt (take_output ob s) > 15000 \<and> \<not> po_fuelItem ob \<and>
    findFuel fuelName (po_inventory ob) \<noteq> None \<and> refuelAttempts s < 2 \<and>
    po_putFuel_resolves ob \<longrightarrow>
      poll_loop fuelName outputsTarget deadline s (ob # obs) =
        poll_loop fuelName outputsTarget deadline
          ((take_output ob s)\<lparr>refuelAttempts := Suc (refuelAttempts s),
             ps_lastProgressAt := po_now_refuel ob, ps_now := po_now_refuel ob\<rparr>) obs"
    using poll_refuel_continues [of s outputsTarget deadline ob fuelName obs] by blast
  have b: "outputs s < outputsTarget \<and> ps_now s < deadline \<and>
    po_now ob - ps_lastProgressAt (take_output ob s) > 15000 \<and> \<not> po_fuelItem ob \<and>
    refuelAttempts s \<ge> 2 \<longrightarrow>
      poll_loop fuelName outputsTarget deadline s (ob # obs) =
        Some ((take_output ob s)\<lparr>outOfFuel := True\<rparr>) \<and>
      fr_outOfFuel (poll_finish dev cnt outputsTarget deadline
                      ((take_output ob s)\<lparr>outOfFuel := True\<rparr>)) \<and>
      fr_reason (poll_finish dev cnt outputsTarget deadline
                   ((take_output ob s)\<lparr>outOfFuel := True\<rparr>)) = Some ''out_of_fuel'' \<and>
      \<not> fr_ok (poll_finish dev cnt outputsTarget deadline
                 ((take_output ob s)\<lparr>outOfFuel := True\<rparr>))"
    using poll_out_of_fuel [of s outputsTarget deadline ob fuelName obs]
      finish_out_of_fuel [of s outputsTarget ob dev cnt deadline]
    by blast
  have c: "refuelAttempts s \<le> 2 \<and> poll_loop fuelName outputsTarget deadline s obs = Some s' \<longrightarrow>
      refuelAttempts s' \<le> 2"
    using poll_refuels_bounded [of s fuelName outputsTarget deadline obs s'] by blast
  have d: "outputs s < outputsTarget \<and> ps_now s < deadline \<and> \<not> outOfFuel s \<and>
    po_now ob - ps_lastProgressAt (take_output ob s) > 15000 \<and> po_fuelItem ob \<longrightarrow>
      poll_loop fuelName outputsTarget deadline s (ob # obs) = Some (take_output ob s) \<and>
      \<not> fr_outOfFuel (poll_finish dev cnt outputsTarget deadline (take_output ob s)) \<and>
      fr_reason (poll_finish dev cnt outputsTarget deadline (take_output ob s)) \<noteq>
        Some ''out_of_fuel'' \<and>
      \<not> fr_ok (poll_finish dev cnt outputsTarget deadline (take_output ob s))"
    using poll_stalled_with_fuel [of s outputsTarget deadline ob fuelName obs]
      finish_stalled_with_fuel [of s outputsTarget ob dev cnt deadline]
    by blast
  have e: "run dv = Some (Inr (Furnace_result r)) \<and> \<not> fr_ok r \<longrightarrow>
      smelt_loop run (dv # rest) attempts errors =
        smelt_loop run rest (attempts @ [dv])
          (errors @ [if dv = campfire then ''campfire_failed''
                     else device_name dv @ ''_failed'' @
                          (if fr_timedOut r then '':timedOut'' else [])])"
    by simp
  have f: "(\<exists>o' \<in> set obs. deadline \<le> po_now o' \<and> deadline \<le> po_now_refuel o') \<longrightarrow>
      poll_loop fuelName outputsTarget deadline s obs \<noteq> None"
    using poll_returns [of obs deadline fuelName outputsTarget s] by blast
  from a b c d e f show ?thesis by blast
qed

text \<open>
  The blast furnace of the example: its fuel slot is empty at the stalls of 16 s and
  32 s, which are answered by a refuel each, and at the stall of 48 s, which ends the
  attempt out of fuel; \<^verbatim>\<open>smeltItem\<close> then smelts the ore in the furnace.
\<close>

theorem refuel_at_most_twice_witness:
  "poll_loop None 1 90000
      \<lparr>outputs = 0, ps_lastProgressAt = 32100, lastOutName = None, outOfFuel = False,
       refuelAttempts = 2, ps_now = 32100\<rparr> [ex_stall 48000] =
     Some \<lparr>outputs = 0, ps_lastProgressAt = 32100, lastOutName = None, outOfFuel = True,
           refuelAttempts = 2, ps_now = 48000\<rparr> \<and>
   poll_loop None 1 90000
      \<lparr>outputs = 0, ps_lastProgressAt = 0, lastOutName = None, outOfFuel = False,
       refuelAttempts = 0, ps_now = 0\<rparr> [ex_stall 16000, ex_stall 32000, ex_stall 48000] =
     poll_loop None 1 90000
      \<lparr>outputs = 0, ps_lastProgressAt = 16100, lastOutName = None, outOfFuel = False,
       refuelAttempts = 1, ps_now = 16100\<rparr> [ex_stall 32000, ex_stall 48000] \<and>
   cookOrSmeltOnDevice blast_furnace ''iron_ore'' None 1 None ex_blast =
     Some (Inr \<lparr>fr_ok = False, fr_deviceUsed = blast_furnace, fr_outputsCollected = 0,
                fr_requested = 1, fr_remaining = 1, fr_timedOut = False, fr_stalled = False,
                fr_outOfFuel = True, fr_reason = Some ''out_of_fuel'', fr_output = None\<rparr>) \<and>
   smeltItem 0 ex_default_params ex_bots ex_world =
     Some (Inr (Inr (Returned (Smelt_ok (Furnace_result
        \<lparr>fr_ok = True, fr_deviceUsed = furnace, fr_outputsCollected = 1,
         fr_requested = 1, fr_remaining = 0, fr_timedOut = False, fr_stalled = False,
         fr_outOfFuel = False, fr_reason = None, fr_output = Some ''cooked_beef''\<rparr>)
        [blast_furnace, furnace])), \<lparr>running = False, abort = None\<rparr>))"
proof -
  let ?s2 = "\<lparr>outputs = 0, ps_lastProgressAt = 32100, lastOutName = None, outOfFuel = False,
       refuelAttempts = 2, ps_now = 32100\<rparr>"
  let ?s0 = "\<lparr>outputs = 0, ps_lastProgressAt = 0, lastOutName = None, outOfFuel = False,
       refuelAttempts = 0, ps_now = 0\<rparr>"
  have h2: "outputs ?s2 < 1 \<and> ps_now ?s2 < 90000 \<and>
      po_now (ex_stall 48000) - ps_lastProgressAt (take_output (ex_stall 48000) ?s2) > 15000 \<and>
      \<not> po_fuelItem (ex_stall 48000) \<and> refuelAttempts ?s2 \<ge> 2"
    by (simp add: ex_stall_def take_output_def)
  have h0: "outputs ?s0 < 1 \<and> ps_now ?s0 < 90000 \<and>
      po_now (ex_stall 16000) - ps_lastProgressAt (take_output (ex_stall 16000) ?s0) > 15000 \<and>
      \<not> po_fuelItem (ex_stall 16000) \<and>
      findFuel None (po_inventory (ex_stall 16000)) \<noteq> None \<and> refuelAttempts ?s0 < 2 \<and>
      po_putFuel_resolves (ex_stall 16000)"
    by (simp add: ex_stall_def take_output_def findFuel_def fuel_preference_def truthy_str_def)
  note T2 = refuel_at_most_twice [where s = ?s2 and outputsTarget = 1 and deadline = 90000
      and ob = "ex_stall 48000" and obs = "[]" and fuelName = None]
  note T0 = refuel_at_most_twice [where s = ?s0 and outputsTarget = 1 and deadline = 90000
      and ob = "ex_stall 16000" and obs = "[ex_stall 32000, ex_stall 48000]" and fuelName = None]
  from h2 T2 have "poll_loop None 1 90000 ?s2 [ex_stall 48000] =
      Some ((take_output (ex_stall 48000) ?s2)\<lparr>outOfFuel := True\<rparr>)"
    by blast
  then have one: "poll_loop None 1 90000 ?s2 [ex_stall 48000] =
     Some \<lparr>outputs = 0, ps_lastProgressAt = 32100, lastOutName = None, outOfFuel = True,
           refuelAttempts = 2, ps_now = 48000\<rparr>"
    by (simp add: ex_stall_def take_output_def)
  from h0 T0 have "poll_loop None 1 90000 ?s0 [ex_stall 16000, ex_stall 32000, ex_stall 48000] =
      poll_loop None 1 90000
        ((take_output (ex_stall 16000) ?s0)\<lparr>refuelAttempts := Suc (refuelAttempts ?s0),
           ps_lastProgressAt := po_now_refuel (ex_stall 16000),
           ps_now := po_now_refuel (ex_stall 16000)\<rparr>) [ex_stall 32000, ex_stall 48000]"
    by blast
  then have two: "poll_loop None 1 90000 ?s0 [ex_stall 16000, ex_stall 32000, ex_stall 48000] =
     poll_loop None 1 90000
      \<lparr>outputs = 0, ps_lastProgressAt = 16100, lastOutName = None, outOfFuel = False,
       refuelAttempts = 1, ps_now = 16100\<rparr> [ex_stall 32000, ex_stall 48000]"
    by (simp add: ex_stall_def take_output_def)
  from one two ex_blast_run ex_ore [of 0] show ?thesis by blast
qed

text \<open>
  Claim C7, as stated, fails: \<^verbatim>\<open>smeltItem\<close> returns the result of the first device whose
  attempt reports \<^verbatim>\<open>ok\<close>, and \<^verbatim>\<open>cookOrSmeltOnDevice\<close> reports \<^verbatim>\<open>ok\<close> only when it
  has collected as many outputs as it inserted inputs. For beef with no preference and
  two pieces requested, the smoker gives one cooked piece and then stalls: that attempt
  is not ok, and the result returned is the furnace's, with both devices attempted.
\<close>

theorem smelt_partial_output_not_returned:
  "cookOrSmeltOnDevice smoker ''beef'' None 2 None ex_smoker =
     Some (Inr \<lparr>fr_ok = False, fr_deviceUsed = smoker, fr_outputsCollected = 1,
                fr_requested = 2, fr_remaining = 1, fr_timedOut = False, fr_stalled = True,
                fr_outOfFuel = False, fr_reason = Some ''stalled'',
                fr_output = Some ''cooked_beef''\<rparr>) \<and>
   smeltItem 0 ex_beef_params ex_bots ex_world =
     Some (Inr (Inr (Returned (Smelt_ok (Furnace_result
        \<lparr>fr_ok = True, fr_deviceUsed = furnace, fr_outputsCollected = 1,
         fr_requested = 2, fr_remaining = 1, fr_timedOut = False, fr_stalled = False,
         fr_outOfFuel = False, fr_reason = None, fr_output = Some ''cooked_beef''\<rparr>)
        [smoker, furnace])), \<lparr>running = False, abort = None\<rparr>))"
  using ex_smoker_run ex_beef [of 0] by simp

text \<open>
  Claim C7, amended. \<^verbatim>\<open>smeltItem\<close> (and \<^verbatim>\<open>cookItem\<close>, which calls it) resolves its
  bot with \<^verbatim>\<open>getBotOrThrow\<close> and runs under the task guard of that bot: the error of
  \<^verbatim>\<open>getBotOrThrow\<close> is thrown as it is; while another task runs on the bot the call is
  rejected with \<^verbatim>\<open>another_task_running\<close>, no device is attempted and the task state
  is left alone; otherwise the result is that of the loop over the device sequence, and
  the task state is reset. The item name is the parameter, or \<^verbatim>\<open>iron_ore\<close> when the
  parameter is missing or empty, so that a call without an item name and without a
  preference attempts the blast furnace and then the furnace; the count is 1 when missing.
  The sequence of devices is: with a preference, the preferred
  device first (\<^verbatim>\<open>campfire\<close>, \<^verbatim>\<open>smoker\<close> or \<^verbatim>\<open>blast_furnace\<close>; any other
  preference counts as \<^verbatim>\<open>furnace\<close>), then the furnace if it is not there yet, then the
  campfire for a food item if it is not there yet; with no preference, smoker, furnace,
  campfire for an item classified as food, blast furnace, furnace for an item classified
  as ore and not as food, and the furnace alone otherwise. The devices are attempted
  in this order; the result is that of the first device whose attempt resolves with
  \<^verbatim>\<open>ok\<close> (for a furnace-like device: at least as many outputs collected as inputs
  inserted), with the devices attempted up to and including it; when every attempt is
  rejected or not ok, the result is the failure with the whole sequence as attempted
  devices and one error per device. The loop returns when every attempt does.
\<close>

theorem smelt_fallback_chain:
  "smelt_sequence itemName (Some ''smoker'') =
     (if isLikelyFood itemName then [smoker, furnace, campfire] else [smoker, furnace]) \<and>
   smelt_sequence itemName (Some ''blast_furnace'') =
     (if isLikelyFood itemName then [blast_furnace, furnace, campfire]
      else [blast_furnace, furnace]) \<and>
   smelt_sequence itemName (Some ''campfire'') = [campfire, furnace] \<and>
   smelt_sequence itemName (Some ''furnace'') =
     (if isLikelyFood itemName then [furnace, campfire] else [furnace]) \<and>
   (p \<in> {''campfire'', ''smoker'', ''blast_furnace'', ''furnace''} \<longrightarrow>
      hd (smelt_sequence itemName (Some p)) = chooseDeviceForItem itemName (Some p)) \<and>
   (p \<noteq> [] \<and> p \<notin> {''campfire'', ''smoker'', ''blast_furnace''} \<longrightarrow>
      smelt_sequence itemName (Some p) =
        (if isLikelyFood itemName then [furnace, campfire] else [furnace])) \<and>
   (isLikelyFood itemName \<longrightarrow> smelt_sequence itemName None = [smoker, furnace, campfire]) \<and>
   (\<not> isLikelyFood itemName \<and> isLikelyOre itemName \<longrightarrow>
      smelt_sequence itemName None = [blast_furnace, furnace]) \<and>
   (\<not> isLikelyFood itemName \<and> \<not> isLikelyOre itemName \<longrightarrow>
      smelt_sequence itemName None = [furnace]) \<and>
   smelt_sequence itemName (Some []) = smelt_sequence itemName None \<and>
   (getBotOrThrow (Some (str_or (sp_username params) [])) bots = Inr bt \<and>
    \<not> running (getTask bt) \<longrightarrow>
      smeltItem h params bots w =
        map_option (\<lambda>r. Inr (Inr (Returned r), (getTask bt)\<lparr>running := False, abort := None\<rparr>))
          (smelt_loop
             (run_device (str_or (sp_itemName params) ''iron_ore'') (str_opt (sp_fuelName params))
                (num_or_1 (sp_count params)) w)
             (smelt_sequence (str_or (sp_itemName params) ''iron_ore'') (sp_preferDevice params))
             [] [])) \<and>
   (getBotOrThrow (Some (str_or (sp_username params) [])) bots = Inr bt \<and>
    running (getTask bt) \<longrightarrow>
      smeltItem h params bots w = Some (Inr (Inl another_task_running, getTask bt))) \<and>
   (getBotOrThrow (Some (str_or (sp_username params) [])) bots = Inl err \<longrightarrow>
      smeltItem h params bots w = Some (Inl err)) \<and>
   cookItem h params bots w = smeltItem h params bots w \<and>
   str_or None ''iron_ore'' = ''iron_ore'' \<and> str_or (Some []) ''iron_ore'' = ''iron_ore'' \<and>
   (nm \<noteq> [] \<longrightarrow> str_or (Some nm) ''iron_ore'' = nm) \<and>
   smelt_sequence (str_or None ''iron_ore'') None = [blast_furnace, furnace] \<and>
   fr_ok (poll_finish dev cnt outputsTarget deadline s) = (outputs s \<ge> outputsTarget) \<and>
   ((\<forall>d \<in> set pre. attempt_fails run d) \<and> run dv = Some (Inr r) \<and> result_ok r \<longrightarrow>
      smelt_loop run (pre @ dv # rest) attempts errors =
        Some (Smelt_ok r (attempts @ pre @ [dv]))) \<and>
   ((\<forall>d \<in> set sq. attempt_fails run d) \<longrightarrow>
      (\<exists>errors'. smelt_loop run sq attempts errors = Some (Smelt_failed (attempts @ sq) errors') \<and>
                 length errors' = length errors + length sq)) \<and>
   ((\<forall>d \<in> set sq. run d \<noteq> None) \<longrightarrow> smelt_loop run sq attempts errors \<noteq> None)"
proof -
  note sc = smelt_sequence_cases [of p itemName]
  have so: "p \<noteq> [] \<and> p \<notin> {''campfire'', ''smoker'', ''blast_furnace''} \<longrightarrow>
      smelt_sequence itemName (Some p) =
        (if isLikelyFood itemName then [furnace, campfire] else [furnace])"
    using smelt_sequence_other [of p itemName] by blast
  have a: "(\<forall>d \<in> set pre. attempt_fails run d) \<and> run dv = Some (Inr r) \<and> result_ok r \<longrightarrow>
      smelt_loop run (pre @ dv # rest) attempts errors =
        Some (Smelt_ok r (attempts @ pre @ [dv]))"
    using smelt_loop_first_ok [of pre run dv r rest attempts errors] by blast
  have b: "(\<forall>d \<in> set sq. attempt_fails run d) \<longrightarrow>
      (\<exists>errors'. smelt_loop run sq attempts errors = Some (Smelt_failed (attempts @ sq) errors') \<and>
                 length errors' = length errors + length sq)"
    using smelt_loop_all_fail [of sq run attempts errors] by blast
  have c: "(\<forall>d \<in> set sq. run d \<noteq> None) \<longrightarrow> smelt_loop run sq attempts errors \<noteq> None"
    using smelt_loop_returns [of sq run attempts errors] by blast
  have d: "fr_ok (poll_finish dev cnt outputsTarget deadline s) = (outputs s \<ge> outputsTarget)"
    by (simp add: poll_finish_def Let_def)
  have e1: "getBotOrThrow (Some (str_or (sp_username params) [])) bots = Inr bt \<and>
    \<not> running (getTask bt) \<longrightarrow>
      smeltItem h params bots w =
        map_option (\<lambda>r. Inr (Inr (Returned r), (getTask bt)\<lparr>running := False, abort := None\<rparr>))
          (smelt_loop
             (run_device (str_or (sp_itemName params) ''iron_ore'') (str_opt (sp_fuelName params))
                (num_or_1 (sp_count params)) w)
             (smelt_sequence (str_or (sp_itemName params) ''iron_ore'') (sp_preferDevice params))
             [] [])"
    using smeltItem_idle [of params bots bt h w] by blast
  have e2: "getBotOrThrow (Some (str_or (sp_username params) [])) bots = Inr bt \<and>
    running (getTask bt) \<longrightarrow>
      smeltItem h params bots w = Some (Inr (Inl another_task_running, getTask bt))"
    using smeltItem_busy [of params bots bt h w] by blast
  have e3: "getBotOrThrow (Some (str_or (sp_username params) [])) bots = Inl err \<longrightarrow>
      smeltItem h params bots w = Some (Inl err)"
    using smeltItem_no_bot [of params bots err h w] by blast
  have e4: "cookItem h params bots w = smeltItem h params bots w"
    by (simp add: cookItem_def)
  have n1: "str_or None ''iron_ore'' = ''iron_ore'' \<and> str_or (Some []) ''iron_ore'' = ''iron_ore'' \<and>
      (nm \<noteq> [] \<longrightarrow> str_or (Some nm) ''iron_ore'' = nm)"
    by (simp add: str_or_def truthy_str_def)
  have n2: "smelt_sequence (str_or None ''iron_ore'') None = [blast_furnace, furnace]"
    using iron_ore_class by (simp add: str_or_def truthy_str_def smelt_sequence_def Let_def)
  have n3: "smelt_sequence itemName (Some []) = smelt_sequence itemName None"
    by (simp add: smelt_sequence_def truthy_str_def)
  from sc so have seqs:
    "smelt_sequence itemName (Some ''smoker'') =
       (if isLikelyFood itemName then [smoker, furnace, campfire] else [smoker, furnace]) \<and>
     smelt_sequence itemName (Some ''blast_furnace'') =
       (if isLikelyFood itemName then [blast_furnace, furnace, campfire]
        else [blast_furnace, furnace]) \<and>
     smelt_sequence itemName (Some ''campfire'') = [campfire, furnace] \<and>
     smelt_sequence itemName (Some ''furnace'') =
       (if isLikelyFood itemName then [furnace, campfire] else [furnace]) \<and>
     (p \<in> {''campfire'', ''smoker'', ''blast_furnace'', ''furnace''} \<longrightarrow>
        hd (smelt_sequence itemName (Some p)) = chooseDeviceForItem itemName (Some p)) \<and>
     (p \<noteq> [] \<and> p \<notin> {''campfire'', ''smoker'', ''blast_furnace''} \<longrightarrow>
        smelt_sequence itemName (Some p) =
          (if isLikelyFood itemName then [furnace, campfire] else [furnace])) \<and>
     (isLikelyFood itemName \<longrightarrow> smelt_sequence itemName None = [smoker, furnace, campfire]) \<and>
     (\<not> isLikelyFood itemName \<and> isLikelyOre itemName \<longrightarrow>
        smelt_sequence itemName None = [blast_furnace, furnace]) \<and>
     (\<not> isLikelyFood itemName \<and> \<not> isLikelyOre itemName \<longrightarrow>
        smelt_sequence itemName None = [furnace])"
    by blast
  from seqs n3 e1 e2 e3 e4 n1 n2 d a b c show ?thesis
    by (intro conjI) blast+
qed

text \<open>
  The beef of the example: the smoker's attempt fails, the furnace's is ok and is
  returned with \<^verbatim>\<open>[smoker, furnace]\<close>; with no device near at all, the three devices of
  the food chain are all recorded. A call with no item name smelts \<^verbatim>\<open>iron_ore\<close>: the
  blast furnace runs out of fuel and the furnace's result is returned; the same call
  while a task runs on the bot is rejected.
\<close>

theorem smelt_fallback_chain_witness:
  "smelt_sequence ''beef'' None = [smoker, furnace, campfire] \<and>
   smelt_loop (run_device ''beef'' None 2 ex_world) ([smoker] @ furnace # [campfire]) [] [] =
     Some (Smelt_ok (Furnace_result
        \<lparr>fr_ok = True, fr_deviceUsed = furnace, fr_outputsCollected = 1,
         fr_requested = 2, fr_remaining = 1, fr_timedOut = False, fr_stalled = False,
         fr_outOfFuel = False, fr_reason = None, fr_output = Some ''cooked_beef''\<rparr>)
        ([] @ [smoker] @ [furnace])) \<and>
   (\<exists>errors'. smelt_loop (\<lambda>d. Some (Inl (Error ''none nearby''))) [smoker, furnace, campfire] [] [] =
        Some (Smelt_failed ([] @ [smoker, furnace, campfire]) errors') \<and>
      length errors' = length ([] :: string list) + length [smoker, furnace, campfire]) \<and>
   smeltItem 7 ex_default_params ex_bots ex_world =
     Some (Inr (Inr (Returned (Smelt_ok (Furnace_result
        \<lparr>fr_ok = True, fr_deviceUsed = furnace, fr_outputsCollected = 1,
         fr_requested = 1, fr_remaining = 0, fr_timedOut = False, fr_stalled = False,
         fr_outOfFuel = False, fr_reason = None, fr_output = Some ''cooked_beef''\<rparr>)
        [blast_furnace, furnace])), \<lparr>running = False, abort = None\<rparr>)) \<and>
   smeltItem 7 ex_default_params [(''Steve'', Some \<lparr>running = True, abort = Some 3\<rparr>)] ex_world =
     Some (Inr (Inl another_task_running, \<lparr>running = True, abort = Some 3\<rparr>))"
proof -
  let ?run = "run_device ''beef'' None 2 ex_world"
  let ?r = "Furnace_result
        \<lparr>fr_ok = True, fr_deviceUsed = furnace, fr_outputsCollected = 1,
         fr_requested = 2, fr_remaining = 1, fr_timedOut = False, fr_stalled = False,
         fr_outOfFuel = False, fr_reason = None, fr_output = Some ''cooked_beef''\<rparr>"
  let ?busy = "[(''Steve'', Some \<lparr>running = True, abort = Some 3\<rparr>)]"
  have f1: "\<forall>d \<in> set [smoker]. attempt_fails ?run d"
    by (simp add: attempt_fails_def run_device_def ex_world_def ex_smoker_run)
  have f2: "?run furnace = Some (Inr ?r) \<and> result_ok ?r"
    by (simp add: run_device_def ex_world_def ex_furnace_run)
  have f3: "\<forall>d \<in> set [smoker, furnace, campfire].
      attempt_fails (\<lambda>d. Some (Inl (Error ''none nearby''))) d"
    by (simp add: attempt_fails_def)
  note T1 = smelt_fallback_chain [where itemName = "''beef''" and pre = "[smoker]" and run = ?run
      and dv = furnace and r = ?r and rest = "[campfire]" and attempts = "[]" and errors = "[]"]
  note T2 = smelt_fallback_chain [where sq = "[smoker, furnace, campfire]"
      and run = "\<lambda>d. Some (Inl (Error ''none nearby''))" and attempts = "[]" and errors = "[]"]
  note T3 = smelt_fallback_chain [where params = ex_default_params and bots = ex_bots
      and bt = None and h = 7 and w = ex_world]
  note T4 = smelt_fallback_chain [where params = ex_default_params and bots = ?busy
      and bt = "Some \<lparr>running = True, abort = Some 3\<rparr>" and h = 7 and w = ex_world]
  from T1 beef_food have one: "smelt_sequence ''beef'' None = [smoker, furnace, campfire]"
    by blast
  from T1 f1 f2 have two: "smelt_loop ?run ([smoker] @ furnace # [campfire]) [] [] =
      Some (Smelt_ok ?r ([] @ [smoker] @ [furnace]))"
    by blast
  from T2 f3 have three:
    "\<exists>errors'. smelt_loop (\<lambda>d. Some (Inl (Error ''none nearby''))) [smoker, furnace, campfire] [] [] =
        Some (Smelt_failed ([] @ [smoker, furnace, campfire]) errors') \<and>
      length errors' = length ([] :: string list) + length [smoker, furnace, campfire]"
    by blast
  have idle: "getBotOrThrow (Some (str_or (sp_username ex_default_params) [])) ex_bots = Inr None \<and>
      \<not> running (getTask None)"
    using ex_bot by (simp add: ex_default_params_def)
  from T3 idle have "smeltItem 7 ex_default_params ex_bots ex_world =
      map_option (\<lambda>r. Inr (Inr (Returned r), (getTask None)\<lparr>running := False, abort := None\<rparr>))
        (smelt_loop
           (run_device (str_or (sp_itemName ex_default_params) ''iron_ore'')
              (str_opt (sp_fuelName ex_default_params)) (num_or_1 (sp_count ex_default_params))
              ex_world)
           (smelt_sequence (str_or (sp_itemName ex_default_params) ''iron_ore'')
              (sp_preferDevice ex_default_params)) [] [])"
    by blast
  then have four: "smeltItem 7 ex_default_params ex_bots ex_world =
     Some (Inr (Inr (Returned (Smelt_ok (Furnace_result
        \<lparr>fr_ok = True, fr_deviceUsed = furnace, fr_outputsCollected = 1,
         fr_requested = 1, fr_remaining = 0, fr_timedOut = False, fr_stalled = False,
         fr_outOfFuel = False, fr_reason = None, fr_output = Some ''cooked_beef''\<rparr>)
        [blast_furnace, furnace])), \<lparr>running = False, abort = None\<rparr>))"
    using ex_bot
    by (simp add: ex_default_params_def str_or_def str_opt_def num_or_1_def smelt_sequence_def
        iron_ore_class truthy_str_def Let_def run_device_def ex_world_def ex_blast_run
        ex_furnace_run)
  have busy: "getBotOrThrow (Some (str_or (sp_username ex_default_params) [])) ?busy =
        Inr (Some \<lparr>running = True, abort = Some 3\<rparr>) \<and>
      running (getTask (Some \<lparr>running = True, abort = Some 3\<rparr>))"
    by (simp add: ex_default_params_def getBotOrThrow_def str_or_def truthy_str_def
        bots_values_def getTask_def)
  from T4 busy have "smeltItem 7 ex_default_params ?busy ex_world =
      Some (Inr (Inl another_task_running, getTask (Some \<lparr>running = True, abort = Some 3\<rparr>)))"
    by blast
  then have five: "smeltItem 7 ex_default_params ?busy ex_world =
      Some (Inr (Inl another_task_running, \<lparr>running = True, abort = Some 3\<rparr>))"
    by (simp add: getTask_def)
  from one two three four five show ?thesis by blast
qed

end
